theory Spec2Isabelle
  imports Complex_Main "HOL-Library.AList"
begin

section \<open>Configuration\<close>

text \<open>
  The constants of \<^verbatim>\<open>main.js\<close>. JavaScript numbers are IEEE 754 doubles. Quantities
  that the program keeps integer-valued (chunk coordinates, cell coordinates, cell indices) are
  modelled as \<^typ>\<open>int\<close>, which is exact for doubles below \<open>2^53\<close>. Every other number is a
  \<^typ>\<open>real\<close> that stands for a double, and each arithmetic operation of the program on such
  numbers rounds its exact result to the nearest double (section Double arithmetic). Only the
  camera axes, computed inside the three.js library, are kept over exact reals.
\<close>

definition CHUNK_SIZE :: int where "CHUNK_SIZE = 16"
definition CHUNK_HEIGHT :: int where "CHUNK_HEIGHT = 24"
definition GRAVITY :: real where "GRAVITY = 25"
definition JUMP_FORCE :: real where "JUMP_FORCE = 8"
definition SPEED :: real where "SPEED = 6"

text \<open>The \<^verbatim>\<open>BLOCK\<close> table: block ids are the bytes stored in a chunk's array.\<close>

definition AIR :: nat where "AIR = 0"
definition GRASS :: nat where "GRASS = 1"
definition DIRT :: nat where "DIRT = 2"
definition STONE :: nat where "STONE = 3"
definition SAND :: nat where "SAND = 4"
definition WOOD :: nat where "WOOD = 5"
definition BRICK :: nat where "BRICK = 6"

section \<open>Double arithmetic\<close>

text \<open>
  The number of binary digits of a natural number, and from it the binary exponent of a
  non-zero real: \<open>expo x\<close> is the \<open>e\<close> with \<open>2^e \<le> |x| < 2^(e+1)\<close>.
\<close>

fun bit_length :: "nat \<Rightarrow> nat" where
  "bit_length n = (if n = 0 then 0 else Suc (bit_length (n div 2)))"

declare bit_length.simps [simp del]

definition expo :: "real \<Rightarrow> int" where
  "expo x =
     (if 1 \<le> \<bar>x\<bar> then int (bit_length (nat \<lfloor>\<bar>x\<bar>\<rfloor>)) - 1
      else - int (bit_length (nat (\<lceil>1 / \<bar>x\<bar>\<rceil> - 1))))"

text \<open>
  The spacing of the doubles around \<open>x\<close>: 53 significant bits, and the fixed spacing
  \<open>2^-1074\<close> of the subnormal range below \<open>2^-1022\<close>.
\<close>

definition quantum :: "real \<Rightarrow> real" where
  "quantum x = 2 powi (max (expo x) (- 1022) - 52)"

text \<open>Rounding to the nearest integer, a tie going to the even one.\<close>

definition round_even :: "real \<Rightarrow> int" where
  "round_even t =
     (let f = \<lfloor>t\<rfloor>; d = t - real_of_int f
      in if d < 1 / 2 then f else if 1 / 2 < d then f + 1 else if even f then f else f + 1)"

text \<open>
  \<open>rd x\<close> is the double nearest to \<open>x\<close> (round to nearest, ties to even), which is the
  result JavaScript gives to an arithmetic operation whose exact result is \<open>x\<close> and to a
  numeric literal written as \<open>x\<close>. Results beyond the largest double, where JavaScript gives
  \<^verbatim>\<open>Infinity\<close>, and \<^verbatim>\<open>NaN\<close> are not represented; a zero result stands for both signed zeros.
\<close>

definition rd :: "real \<Rightarrow> real" where
  "rd x = real_of_int (round_even (x / quantum x)) * quantum x"

text \<open>The operators \<^verbatim>\<open>+\<close>, \<^verbatim>\<open>-\<close>, \<^verbatim>\<open>*\<close> and \<^verbatim>\<open>/\<close> on doubles.\<close>

definition fadd :: "real \<Rightarrow> real \<Rightarrow> real" where "fadd a b = rd (a + b)"
definition fsub :: "real \<Rightarrow> real \<Rightarrow> real" where "fsub a b = rd (a - b)"
definition fmul :: "real \<Rightarrow> real \<Rightarrow> real" where "fmul a b = rd (a * b)"
definition fdiv :: "real \<Rightarrow> real \<Rightarrow> real" where "fdiv a b = rd (a / b)"

section \<open>Byte arrays\<close>

text \<open>
  A \<^verbatim>\<open>Uint8Array\<close> is a list of bytes. Reading outside the array gives
  \<^verbatim>\<open>undefined\<close> (\<open>None\<close>); writing outside it is ignored; a stored number is reduced
  modulo 256.
\<close>

definition u8_get :: "nat list \<Rightarrow> int \<Rightarrow> nat option" where
  "u8_get data i = (if 0 \<le> i \<and> i < int (length data) then Some (data ! nat i) else None)"

definition u8_set :: "nat list \<Rightarrow> int \<Rightarrow> int \<Rightarrow> nat list" where
  "u8_set data i v = (if 0 \<le> i \<and> i < int (length data) then data[nat i := nat (v mod 256)] else data)"

text \<open>The index expression \<^verbatim>\<open>(y * CHUNK_SIZE * CHUNK_SIZE) + (z * CHUNK_SIZE) + x\<close>.\<close>

definition cell_index :: "int \<Rightarrow> int \<Rightarrow> int \<Rightarrow> int" where
  "cell_index x y z = (y * CHUNK_SIZE * CHUNK_SIZE) + (z * CHUNK_SIZE) + x"

section \<open>Terrain generation\<close>

text \<open>The world coordinate of a column, \<^verbatim>\<open>cx * CHUNK_SIZE + x\<close>.\<close>

definition world_coord :: "int \<Rightarrow> int \<Rightarrow> real" where
  "world_coord c i = fadd (fmul (real_of_int c) (real_of_int CHUNK_SIZE)) (real_of_int i)"

text \<open>
  The height expression of \<^verbatim>\<open>generateChunkData\<close>,
  \<^verbatim>\<open>Math.floor(5 + Math.sin(worldX * 0.1) * 2 + Math.cos(worldZ * 0.1) * 2)\<close>, in double
  arithmetic. \<^verbatim>\<open>Math.sin\<close> and \<^verbatim>\<open>Math.cos\<close> are functions of the JavaScript engine, which
  the language leaves implementation-approximated: they are the parameters \<open>msin\<close> and
  \<open>mcos\<close>.
\<close>

definition column_height :: "(real \<Rightarrow> real) \<Rightarrow> (real \<Rightarrow> real) \<Rightarrow> real \<Rightarrow> real \<Rightarrow> int" where
  "column_height msin mcos worldX worldZ =
     \<lfloor>fadd (fadd 5 (fmul (msin (fmul worldX (rd 0.1))) 2)) (fmul (mcos (fmul worldZ (rd 0.1))) 2)\<rfloor>"

text \<open>The body of the innermost loop: the block written at height \<open>y\<close> of a column.\<close>

definition column_block :: "int \<Rightarrow> int \<Rightarrow> nat" where
  "column_block height y =
     (if y < height then (if y < height - 3 then STONE else DIRT)
      else if y = height then GRASS
      else AIR)"

definition generateChunkData :: "(real \<Rightarrow> real) \<Rightarrow> (real \<Rightarrow> real) \<Rightarrow> int \<Rightarrow> int \<Rightarrow> nat list" where
  "generateChunkData msin mcos cx cz =
     fold (\<lambda>x data.
       fold (\<lambda>z data.
         let worldX = world_coord cx x;
             worldZ = world_coord cz z;
             height = column_height msin mcos worldX worldZ
         in fold (\<lambda>y data. u8_set data (cell_index x y z) (int (column_block height y)))
              [0..CHUNK_HEIGHT - 1] data)
         [0..CHUNK_SIZE - 1] data)
       [0..CHUNK_SIZE - 1]
       (replicate (nat (CHUNK_SIZE * CHUNK_HEIGHT * CHUNK_SIZE)) 0)"

section \<open>Chunk keys\<close>

text \<open>
  \<^verbatim>\<open>getChunkKey\<close> formats two integers in decimal, separated by a comma. Decimal
  formatting of an integer-valued number (below the magnitude where JavaScript switches to
  exponent notation):
\<close>

definition digit_char :: "nat \<Rightarrow> char" where
  "digit_char d = char_of (48 + d)"

fun string_of_nat :: "nat \<Rightarrow> string" where
  "string_of_nat n =
     (if n < 10 then [digit_char n] else string_of_nat (n div 10) @ [digit_char (n mod 10)])"

declare string_of_nat.simps [simp del]

definition string_of_int :: "int \<Rightarrow> string" where
  "string_of_int i =
     (if i < 0 then CHR ''-'' # string_of_nat (nat (- i)) else string_of_nat (nat i))"

definition getChunkKey :: "int \<Rightarrow> int \<Rightarrow> string" where
  "getChunkKey cx cz = string_of_int cx @ '','' @ string_of_int cz"

text \<open>
  The inverse used by \<^verbatim>\<open>loadWorld\<close>, \<^verbatim>\<open>key.split(',').map(Number)\<close>.
  \<open>Number_dec\<close> covers the strings \<^verbatim>\<open>Number\<close> reads as a decimal integer (an optional
  sign and at least one digit); every other string is outside this model (\<open>None\<close>).
\<close>

fun split_comma :: "string \<Rightarrow> string list" where
  "split_comma [] = [[]]"
| "split_comma (c # cs) =
     (if c = CHR '','' then [] # split_comma cs
      else (case split_comma cs of w # ws \<Rightarrow> (c # w) # ws | [] \<Rightarrow> [[c]]))"

definition is_digit :: "char \<Rightarrow> bool" where
  "is_digit c = (48 \<le> (of_char c :: nat) \<and> (of_char c :: nat) \<le> 57)"

definition digits_value :: "string \<Rightarrow> nat" where
  "digits_value ds = foldl (\<lambda>acc c. 10 * acc + ((of_char c :: nat) - 48)) 0 ds"

definition Number_digits :: "string \<Rightarrow> nat option" where
  "Number_digits ds = (if ds \<noteq> [] \<and> list_all is_digit ds then Some (digits_value ds) else None)"

definition Number_dec :: "string \<Rightarrow> int option" where
  "Number_dec s =
     (case s of
        [] \<Rightarrow> None
      | c # cs \<Rightarrow>
          if c = CHR ''-'' then map_option (\<lambda>n. - int n) (Number_digits cs)
          else if c = CHR ''+'' then map_option int (Number_digits cs)
          else map_option int (Number_digits s))"

definition parse_key :: "string \<Rightarrow> (int \<times> int) option" where
  "parse_key key =
     (case map Number_dec (split_comma key) of
        Some cx # Some cz # _ \<Rightarrow> Some (cx, cz)
      | _ \<Rightarrow> None)"

section \<open>World state\<close>

text \<open>
  A face is what one call of \<^verbatim>\<open>addFace\<close> pushes onto \<^verbatim>\<open>geometries\<close>: a unit quad
  given by the outward offset \<open>(ox, oy, oz)\<close>, the rotation \<open>(rx, ry)\<close>, the world position
  of its cell, the block type, the face name and the atlas tile chosen for it. A mesh is the
  merged list of a chunk's faces.
\<close>

datatype face_name = Side | Top | Bottom

record face =
  f_offset :: "int \<times> int \<times> int"
  f_rot :: "real \<times> real"
  f_pos :: "int \<times> int \<times> int"
  f_type :: nat
  f_name :: face_name
  f_tile :: "nat \<times> nat"

type_synonym mesh = "face list"

record chunk =
  data :: "nat list"
  mesh :: "mesh option"

text \<open>
  \<^verbatim>\<open>chunks\<close> is a JavaScript object used as a dictionary: an insertion-ordered list of
  key/value pairs with distinct keys, read with \<^const>\<open>map_of\<close> and written with
  \<^const>\<open>AList.update\<close> (in place for a present key, at the end for a new one).
\<close>

type_synonym chunk_map = "(string \<times> chunk) list"

type_synonym vec3 = "real \<times> real \<times> real"
type_synonym quat = "real \<times> real \<times> real \<times> real"

text \<open>
  The global state: the chunk dictionary, the meshes added to the scene, the camera
  (position and the Euler angles \<^verbatim>\<open>rotation.x\<close>, \<^verbatim>\<open>rotation.y\<close>), the player, the move
  stick, the selected block, the \<^verbatim>\<open>openWorldSave\<close> item of the local storage (the saved
  object: chunk keys with their number arrays; \<^verbatim>\<open>JSON.stringify\<close> followed by
  \<^verbatim>\<open>JSON.parse\<close> returns such an object unchanged, and a write to the storage is taken
  to succeed) and the alerts shown so far.
\<close>

record game =
  chunks :: chunk_map
  scene :: "mesh list"
  cam_position :: vec3
  cam_rotation_x :: real
  cam_rotation_y :: real
  velocity :: vec3
  onGround :: bool
  moveInput :: "real \<times> real"
  selectedBlock :: int
  storage :: "(string \<times> int list) list option"
  alerts :: "string list"

text \<open>
  Errors. \<open>TypeError\<close> is the exception JavaScript raises on a property access on
  \<^verbatim>\<open>undefined\<close>. \<open>KeyOutsideModel\<close> marks a saved key that is not two decimal integers,
  where the program would go on with \<^verbatim>\<open>NaN\<close> coordinates that this model does not
  represent. An exception leaves the state as it is at the throw.
\<close>

datatype error = TypeError | KeyOutsideModel

datatype outcome = Done game | Threw error game

fun outcome_game :: "outcome \<Rightarrow> game" where
  "outcome_game (Done g) = g"
| "outcome_game (Threw e g) = g"

definition bind_err :: "error + 'a \<Rightarrow> ('a \<Rightarrow> error + 'b) \<Rightarrow> error + 'b" where
  "bind_err m f = (case m of Inl e \<Rightarrow> Inl e | Inr v \<Rightarrow> f v)"

section \<open>Block queries and meshing\<close>

definition getBlock :: "chunk_map \<Rightarrow> int \<Rightarrow> int \<Rightarrow> int \<Rightarrow> int \<Rightarrow> int \<Rightarrow> nat option" where
  "getBlock cs cx cz x y z =
     (let key = getChunkKey cx cz in
      case map_of cs key of
        None \<Rightarrow> Some AIR
      | Some c \<Rightarrow>
          if x < 0 \<or> x \<ge> CHUNK_SIZE \<or> z < 0 \<or> z \<ge> CHUNK_SIZE \<or> y < 0 \<or> y \<ge> CHUNK_HEIGHT
          then Some AIR
          else let index = cell_index x y z in u8_get (data c) index)"

text \<open>\<^verbatim>\<open>TEXTURE_MAP\<close>: per block id, an \<^verbatim>\<open>all\<close> tile or tiles per face name.\<close>

record texture_def =
  tex_all :: "(nat \<times> nat) option"
  tex_top :: "(nat \<times> nat) option"
  tex_side :: "(nat \<times> nat) option"
  tex_bottom :: "(nat \<times> nat) option"

definition TEXTURE_MAP :: "nat \<Rightarrow> texture_def option" where
  "TEXTURE_MAP t =
     (if t = GRASS then Some \<lparr>tex_all = None, tex_top = Some (0, 0), tex_side = Some (0, 1), tex_bottom = Some (0, 2)\<rparr>
      else if t = DIRT then Some \<lparr>tex_all = Some (0, 2), tex_top = None, tex_side = None, tex_bottom = None\<rparr>
      else if t = STONE then Some \<lparr>tex_all = Some (1, 0), tex_top = None, tex_side = None, tex_bottom = None\<rparr>
      else if t = SAND then Some \<lparr>tex_all = Some (1, 1), tex_top = None, tex_side = None, tex_bottom = None\<rparr>
      else if t = WOOD then Some \<lparr>tex_all = None, tex_top = Some (1, 3), tex_side = Some (1, 2), tex_bottom = Some (1, 3)\<rparr>
      else if t = BRICK then Some \<lparr>tex_all = Some (2, 0), tex_top = None, tex_side = None, tex_bottom = None\<rparr>
      else None)"

definition tex_face :: "texture_def \<Rightarrow> face_name \<Rightarrow> (nat \<times> nat) option" where
  "tex_face def faceName =
     (case faceName of Top \<Rightarrow> tex_top def | Side \<Rightarrow> tex_side def | Bottom \<Rightarrow> tex_bottom def)"

text \<open>
  \<^verbatim>\<open>addFace\<close>: \<^verbatim>\<open>def.all\<close> raises a TypeError when \<^verbatim>\<open>TEXTURE_MAP[type]\<close> is undefined,
  that is for an undefined type and for an id without an entry; otherwise
  \<^verbatim>\<open>uvCoords = def.all || def[faceName] || [0,0]\<close>.
\<close>

definition addFace ::
  "int \<times> int \<times> int \<Rightarrow> real \<times> real \<Rightarrow> int \<times> int \<times> int \<Rightarrow> nat option \<Rightarrow> face_name \<Rightarrow> error + face" where
  "addFace off rot pos type faceName =
     (case type of
        None \<Rightarrow> Inl TypeError
      | Some t \<Rightarrow>
          (case TEXTURE_MAP t of
             None \<Rightarrow> Inl TypeError
           | Some def \<Rightarrow>
               let uvCoords =
                     (case tex_all def of
                        Some uv \<Rightarrow> uv
                      | None \<Rightarrow> (case tex_face def faceName of Some uv \<Rightarrow> uv | None \<Rightarrow> (0, 0)))
               in Inr \<lparr>f_offset = off, f_rot = rot, f_pos = pos, f_type = t,
                        f_name = faceName, f_tile = uvCoords\<rparr>))"

text \<open>
  One neighbour test of \<^verbatim>\<open>buildChunkMesh\<close>:
  \<^verbatim>\<open>if (getBlock(cx, cz, nx, ny, nz) === BLOCK.AIR) addFace(...)\<close>.
\<close>

definition check_neighbour ::
  "chunk_map \<Rightarrow> int \<Rightarrow> int \<Rightarrow> int \<times> int \<times> int \<Rightarrow> int \<times> int \<times> int \<Rightarrow> real \<times> real \<Rightarrow>
   int \<times> int \<times> int \<Rightarrow> nat option \<Rightarrow> face_name \<Rightarrow> face list \<Rightarrow> error + face list" where
  "check_neighbour cs cx cz n off rot worldPos type faceName geometries =
     (case n of (nx, ny, nz) \<Rightarrow>
        if getBlock cs cx cz nx ny nz = Some AIR
        then (case addFace off rot worldPos type faceName of
                Inl e \<Rightarrow> Inl e
              | Inr f \<Rightarrow> Inr (geometries @ [f]))
        else Inr geometries)"

text \<open>The body of the innermost loop of \<^verbatim>\<open>buildChunkMesh\<close>, for the cell \<open>(x, y, z)\<close>.\<close>

definition mesh_cell ::
  "chunk_map \<Rightarrow> int \<Rightarrow> int \<Rightarrow> nat list \<Rightarrow> int \<Rightarrow> int \<Rightarrow> int \<Rightarrow> face list \<Rightarrow> error + face list" where
  "mesh_cell cs cx cz dat x y z geometries =
     (let index = cell_index x y z;
          type = u8_get dat index
      in if type = Some AIR then Inr geometries
         else
           let worldPos = (cx * CHUNK_SIZE + x, y, cz * CHUNK_SIZE + z) in
           bind_err (check_neighbour cs cx cz (x + 1, y, z) (1, 0, 0) (0, pi / 2) worldPos type Side geometries) (\<lambda>g1.
           bind_err (check_neighbour cs cx cz (x - 1, y, z) (- 1, 0, 0) (0, - pi / 2) worldPos type Side g1) (\<lambda>g2.
           bind_err (check_neighbour cs cx cz (x, y + 1, z) (0, 1, 0) (- pi / 2, 0) worldPos type Top g2) (\<lambda>g3.
           bind_err (check_neighbour cs cx cz (x, y - 1, z) (0, - 1, 0) (pi / 2, 0) worldPos type Bottom g3) (\<lambda>g4.
           bind_err (check_neighbour cs cx cz (x, y, z + 1) (0, 0, 1) (0, 0) worldPos type Side g4) (\<lambda>g5.
           check_neighbour cs cx cz (x, y, z - 1) (0, 0, - 1) (0, pi) worldPos type Side g5))))))"

text \<open>The three nested loops of \<^verbatim>\<open>buildChunkMesh\<close>: the faces collected, or the exception.\<close>

definition mesh_faces :: "chunk_map \<Rightarrow> int \<Rightarrow> int \<Rightarrow> nat list \<Rightarrow> error + face list" where
  "mesh_faces cs cx cz dat =
     fold (\<lambda>y acc.
       fold (\<lambda>z acc.
         fold (\<lambda>x acc. bind_err acc (mesh_cell cs cx cz dat x y z))
           [0..CHUNK_SIZE - 1] acc)
         [0..CHUNK_SIZE - 1] acc)
       [0..CHUNK_HEIGHT - 1]
       (Inr [])"

text \<open>
  \<^verbatim>\<open>buildChunkMesh\<close>: with no face it returns at once; otherwise the merged mesh is stored
  in the chunk's entry (a TypeError when there is no entry) and added to the scene.
\<close>

definition buildChunkMesh :: "int \<Rightarrow> int \<Rightarrow> nat list \<Rightarrow> game \<Rightarrow> outcome" where
  "buildChunkMesh cx cz dat g =
     (case mesh_faces (chunks g) cx cz dat of
        Inl e \<Rightarrow> Threw e g
      | Inr geometries \<Rightarrow>
          if length geometries = 0 then Done g
          else
            (case map_of (chunks g) (getChunkKey cx cz) of
               None \<Rightarrow> Threw TypeError g
             | Some c \<Rightarrow>
                 Done (g\<lparr>chunks := AList.update (getChunkKey cx cz) (c\<lparr>mesh := Some geometries\<rparr>) (chunks g),
                         scene := scene g @ [geometries]\<rparr>)))"

section \<open>Editing\<close>

text \<open>
  World coordinate to chunk coordinate, \<^verbatim>\<open>Math.floor(wx / CHUNK_SIZE)\<close>, and to local
  coordinate, \<^verbatim>\<open>Math.floor(wx - cx * CHUNK_SIZE)\<close>, as \<^verbatim>\<open>setBlock\<close> and
  \<^verbatim>\<open>updatePhysics\<close> compute them: the quotient, the product and the difference are
  rounded to doubles before the floor is taken.
\<close>

definition chunk_coord :: "real \<Rightarrow> int" where
  "chunk_coord w = \<lfloor>fdiv w (real_of_int CHUNK_SIZE)\<rfloor>"

definition local_coord :: "real \<Rightarrow> int" where
  "local_coord w = \<lfloor>fsub w (fmul (real_of_int (chunk_coord w)) (real_of_int CHUNK_SIZE))\<rfloor>"

definition scene_remove :: "mesh option \<Rightarrow> game \<Rightarrow> game" where
  "scene_remove m g = (case m of None \<Rightarrow> g | Some old \<Rightarrow> g\<lparr>scene := remove1 old (scene g)\<rparr>)"

definition setBlock :: "real \<Rightarrow> real \<Rightarrow> real \<Rightarrow> int \<Rightarrow> game \<Rightarrow> outcome" where
  "setBlock wx wy wz bid g =
     (let cx = chunk_coord wx;
          cz = chunk_coord wz;
          lx = local_coord wx;
          lz = local_coord wz;
          ly = \<lfloor>wy\<rfloor>;
          key = getChunkKey cx cz
      in case map_of (chunks g) key of
           None \<Rightarrow> Done g
         | Some c \<Rightarrow>
             if ly \<ge> 0 \<and> ly < CHUNK_HEIGHT then
               let index = cell_index lx ly lz;
                   c' = c\<lparr>data := u8_set (data c) index bid\<rparr>;
                   g1 = g\<lparr>chunks := AList.update key c' (chunks g)\<rparr>;
                   g2 = scene_remove (mesh c') g1
               in buildChunkMesh cx cz (data c') g2
             else Done g)"

section \<open>Camera and physics\<close>

text \<open>
  Functions of the three.js library, which \<^verbatim>\<open>main.js\<close> imports from
  \<^verbatim>\<open>./libs/three.module.js\<close>; they are written here as the library defines them. The
  camera's quaternion is computed from its Euler angles by \<^verbatim>\<open>Quaternion.setFromEuler\<close>
  in the library's default order \<^verbatim>\<open>'XYZ'\<close>, which \<^verbatim>\<open>main.js\<close> never changes;
  \<^verbatim>\<open>Vector3.applyQuaternion\<close> rotates a vector by a quaternion;
  \<^verbatim>\<open>Vector3.normalize\<close> divides by the length, or by 1 when the length is 0;
  \<^verbatim>\<open>Vector3.addScaledVector\<close> adds a multiple of a vector.
\<close>

definition setFromEuler_XYZ :: "real \<Rightarrow> real \<Rightarrow> real \<Rightarrow> quat" where
  "setFromEuler_XYZ ex ey ez =
     (let c1 = cos (ex / 2); c2 = cos (ey / 2); c3 = cos (ez / 2);
          s1 = sin (ex / 2); s2 = sin (ey / 2); s3 = sin (ez / 2)
      in (s1 * c2 * c3 + c1 * s2 * s3,
          c1 * s2 * c3 - s1 * c2 * s3,
          c1 * c2 * s3 + s1 * s2 * c3,
          c1 * c2 * c3 - s1 * s2 * s3))"

definition applyQuaternion :: "vec3 \<Rightarrow> quat \<Rightarrow> vec3" where
  "applyQuaternion v q =
     (case v of (x, y, z) \<Rightarrow> case q of (qx, qy, qz, qw) \<Rightarrow>
        let ix = qw * x + qy * z - qz * y;
            iy = qw * y + qz * x - qx * z;
            iz = qw * z + qx * y - qy * x;
            iw = - qx * x - qy * y - qz * z
        in (ix * qw + iw * - qx + iy * - qz - iz * - qy,
            iy * qw + iw * - qy + iz * - qx - ix * - qz,
            iz * qw + iw * - qz + ix * - qy - iy * - qx))"

definition normalize3 :: "vec3 \<Rightarrow> vec3" where
  "normalize3 v =
     (case v of (x, y, z) \<Rightarrow>
        let len = sqrt (x * x + y * y + z * z);
            s = (if len = 0 then 1 else len)
        in (x / s, y / s, z / s))"

definition addScaledVector :: "vec3 \<Rightarrow> vec3 \<Rightarrow> real \<Rightarrow> vec3" where
  "addScaledVector a v s =
     (case a of (ax, ay, az) \<Rightarrow> case v of (x, y, z) \<Rightarrow> (ax + x * s, ay + y * s, az + z * s))"

definition camera_quaternion :: "game \<Rightarrow> quat" where
  "camera_quaternion g = setFromEuler_XYZ (cam_rotation_x g) (cam_rotation_y g) 0"

text \<open>The axes of movement: \<^verbatim>\<open>forward.y = 0; forward.normalize()\<close>.\<close>

definition flat_axis :: "vec3 \<Rightarrow> quat \<Rightarrow> vec3" where
  "flat_axis v q = (case applyQuaternion v q of (x, y, z) \<Rightarrow> normalize3 (x, 0, z))"

text \<open>\<^verbatim>\<open>moveVec\<close> of \<^verbatim>\<open>updatePhysics\<close>.\<close>

definition moveVec :: "real \<Rightarrow> game \<Rightarrow> vec3" where
  "moveVec dt g =
     (let forward = flat_axis (0, 0, - 1) (camera_quaternion g);
          right = flat_axis (1, 0, 0) (camera_quaternion g)
      in case moveInput g of (mx, my) \<Rightarrow>
           addScaledVector (addScaledVector (0, 0, 0) forward (- my * SPEED * dt)) right (mx * SPEED * dt))"

text \<open>
  \<^verbatim>\<open>updatePhysics\<close>, in double arithmetic. The displacement \<open>moveVec\<close> comes from the
  library's vectors, kept over exact reals above; with the stick at rest it is the zero
  vector in both. \<^verbatim>\<open>animate\<close> calls the step with \<^verbatim>\<open>dt = 0.016\<close>.
\<close>

definition updatePhysics :: "real \<Rightarrow> game \<Rightarrow> game" where
  "updatePhysics dt g =
     (case velocity g of (velx, vely0, velz) \<Rightarrow>
      case cam_position g of (px0, py0, pz0) \<Rightarrow>
      case moveVec dt g of (mvx, mvy, mvz) \<Rightarrow>
        let vely = fsub vely0 (fmul GRAVITY dt);
            px = fadd px0 mvx;
            py = fadd (fadd py0 mvy) (fmul vely dt);
            pz = fadd pz0 mvz;
            chX = chunk_coord px;
            chZ = chunk_coord pz;
            lx = local_coord px;
            lz = local_coord pz;
            ly = \<lfloor>fsub py (rd 1.6)\<rfloor>;
            blockBelow = getBlock (chunks g) chX chZ lx ly lz;
            g1 = (if blockBelow \<noteq> Some AIR
                  then g\<lparr>cam_position := (px, fadd (fadd (real_of_int ly) 1) (rd 1.6), pz),
                         velocity := (velx, 0, velz), onGround := True\<rparr>
                  else g\<lparr>cam_position := (px, py, pz),
                         velocity := (velx, vely, velz), onGround := False\<rparr>)
        in if fst (snd (cam_position g1)) < - 10
           then g1\<lparr>cam_position := (0, 30, 0), velocity := (0, 0, 0)\<rparr>
           else g1)"

definition frame_dt :: real where
  "frame_dt = rd 0.016"

section \<open>Save and load\<close>

definition saveWorld :: "game \<Rightarrow> game" where
  "saveWorld g =
     g\<lparr>storage := Some (map (\<lambda>(key, c). (key, map int (data c))) (chunks g)),
       alerts := alerts g @ [''World Saved!'']\<rparr>"

text \<open>\<^verbatim>\<open>new Uint8Array(array)\<close>: every number reduced modulo 256, the length kept.\<close>

definition Uint8Array_from :: "int list \<Rightarrow> nat list" where
  "Uint8Array_from arr = map (\<lambda>v. nat (v mod 256)) arr"

text \<open>The first loop of \<^verbatim>\<open>loadWorld\<close>: the meshes of the current chunks leave the scene.\<close>

definition clear_meshes :: "game \<Rightarrow> game" where
  "clear_meshes g = fold (\<lambda>(key, c) g. scene_remove (mesh c) g) (chunks g) g"

text \<open>The second loop of \<^verbatim>\<open>loadWorld\<close>, over the entries of the saved object.\<close>

fun load_entries :: "(string \<times> int list) list \<Rightarrow> game \<Rightarrow> outcome" where
  "load_entries [] g = Done g"
| "load_entries ((key, arr) # rest) g =
     (case parse_key key of
        None \<Rightarrow> Threw KeyOutsideModel g
      | Some (cx, cz) \<Rightarrow>
          let dat = Uint8Array_from arr;
              g1 = g\<lparr>chunks := AList.update key \<lparr>data = dat, mesh = None\<rparr> (chunks g)\<rparr>
          in (case buildChunkMesh cx cz dat g1 of
                Threw e g' \<Rightarrow> Threw e g'
              | Done g2 \<Rightarrow> load_entries rest g2))"

definition loadWorld :: "game \<Rightarrow> outcome" where
  "loadWorld g =
     (case storage g of
        None \<Rightarrow> Done (g\<lparr>alerts := alerts g @ [''No save found.'']\<rparr>)
      | Some saveData \<Rightarrow>
          let g1 = (clear_meshes g)\<lparr>chunks := []\<rparr> in
          (case load_entries saveData g1 of
             Threw e g' \<Rightarrow> Threw e g'
           | Done g2 \<Rightarrow> Done (g2\<lparr>alerts := alerts g2 @ [''World Loaded!'']\<rparr>)))"

section \<open>Notions used in the statements\<close>

text \<open>A function with values between -1 and 1, as the sine and the cosine of an engine are.\<close>

definition unit_range :: "(real \<Rightarrow> real) \<Rightarrow> bool" where
  "unit_range f = (\<forall>a. - 1 \<le> f a \<and> f a \<le> 1)"

text \<open>A well-formed block array: \<open>CHUNK_SIZE * CHUNK_HEIGHT * CHUNK_SIZE\<close> ids between 0 and 6.\<close>

definition wf_data :: "nat list \<Rightarrow> bool" where
  "wf_data dat = (int (length dat) = CHUNK_SIZE * CHUNK_HEIGHT * CHUNK_SIZE \<and> (\<forall>v \<in> set dat. v \<le> BRICK))"

text \<open>An array the mesher can read: at least that long, with ids between 0 and 6.\<close>

definition readable_data :: "nat list \<Rightarrow> bool" where
  "readable_data dat = (CHUNK_SIZE * CHUNK_HEIGHT * CHUNK_SIZE \<le> int (length dat) \<and> (\<forall>v \<in> set dat. v \<le> BRICK))"

text \<open>The local coordinates of a chunk's cells.\<close>

definition in_chunk :: "int \<Rightarrow> int \<Rightarrow> int \<Rightarrow> bool" where
  "in_chunk x y z = (0 \<le> x \<and> x < CHUNK_SIZE \<and> 0 \<le> y \<and> y < CHUNK_HEIGHT \<and> 0 \<le> z \<and> z < CHUNK_SIZE)"

text \<open>A face list holds a quad of the cell at world position \<open>pos\<close> on the side \<open>off\<close>.\<close>

definition emits :: "face list \<Rightarrow> int \<times> int \<times> int \<Rightarrow> int \<times> int \<times> int \<Rightarrow> bool" where
  "emits fs pos off = (\<exists>f \<in> set fs. f_pos f = pos \<and> f_offset f = off)"

text \<open>The mesher finishes and emits such a quad.\<close>

definition mesh_emits :: "chunk_map \<Rightarrow> int \<Rightarrow> int \<Rightarrow> nat list \<Rightarrow> int \<times> int \<times> int \<Rightarrow> int \<times> int \<times> int \<Rightarrow> bool" where
  "mesh_emits cs cx cz dat pos off =
     (case mesh_faces cs cx cz dat of Inl e \<Rightarrow> False | Inr fs \<Rightarrow> emits fs pos off)"

text \<open>The six sides tested by \<^verbatim>\<open>buildChunkMesh\<close>.\<close>

definition directions :: "(int \<times> int \<times> int) list" where
  "directions = [(1, 0, 0), (- 1, 0, 0), (0, 1, 0), (0, - 1, 0), (0, 0, 1), (0, 0, - 1)]"

text \<open>The cells in the order of the three loops of \<^verbatim>\<open>buildChunkMesh\<close>, as \<open>(y, z, x)\<close>.\<close>

definition chunk_cells :: "(int \<times> int \<times> int) list" where
  "chunk_cells = List.product [0..CHUNK_HEIGHT - 1] (List.product [0..CHUNK_SIZE - 1] [0..CHUNK_SIZE - 1])"

text \<open>The test of one side of a cell, as \<^verbatim>\<open>buildChunkMesh\<close> makes it.\<close>

definition cell_exposed ::
  "chunk_map \<Rightarrow> int \<Rightarrow> int \<Rightarrow> nat list \<Rightarrow> int \<Rightarrow> int \<Rightarrow> int \<Rightarrow> int \<times> int \<times> int \<Rightarrow> bool" where
  "cell_exposed cs cx cz dat x y z off =
     (u8_get dat (cell_index x y z) \<noteq> Some AIR \<and> off \<in> set directions \<and>
      getBlock cs cx cz (x + fst off) (y + fst (snd off)) (z + snd (snd off)) = Some AIR)"

text \<open>
  A key that \<^verbatim>\<open>loadWorld\<close> reads back into the coordinates whose key it is, as every key
  made by \<^verbatim>\<open>getChunkKey\<close> is.
\<close>

definition canonical_key :: "string \<Rightarrow> bool" where
  "canonical_key key = (case parse_key key of None \<Rightarrow> False | Some (cx, cz) \<Rightarrow> getChunkKey cx cz = key)"

text \<open>The content of the world map without the meshes: every key with its block array.\<close>

definition block_arrays :: "chunk_map \<Rightarrow> (string \<times> nat list) list" where
  "block_arrays cs = map (\<lambda>(key, c). (key, data c)) cs"

text \<open>
  A well-formed world map: distinct keys, each the key of integer chunk coordinates, each
  with a well-formed block array.
\<close>

definition wf_chunks :: "chunk_map \<Rightarrow> bool" where
  "wf_chunks cs = (distinct (map fst cs) \<and> (\<forall>(key, c) \<in> set cs. canonical_key key \<and> wf_data (data c)))"

text \<open>
  A saved entry that the loader reads without an exception: the key of integer chunk
  coordinates with an array of at least \<open>CHUNK_SIZE * CHUNK_HEIGHT * CHUNK_SIZE\<close> ids between 0
  and 6. The block arrays that saved entries become: each array converted to bytes.
\<close>

definition loadable :: "string \<times> int list \<Rightarrow> bool" where
  "loadable e =
     (canonical_key (fst e) \<and> CHUNK_SIZE * CHUNK_HEIGHT * CHUNK_SIZE \<le> int (length (snd e)) \<and>
      (\<forall>v \<in> set (snd e). 0 \<le> v \<and> v \<le> 6))"

definition installed :: "(string \<times> int list) list \<Rightarrow> (string \<times> nat list) list" where
  "installed es = map (\<lambda>(key, arr). (key, Uint8Array_from arr)) es"

text \<open>The operation returned without an exception.\<close>

fun is_done :: "outcome \<Rightarrow> bool" where
  "is_done (Done g) = True"
| "is_done (Threw e g) = False"

text \<open>
  The vertical motion of one physics step of \<^verbatim>\<open>animate\<close> for a body in the air: the new
  velocity, the new height, the level that the ground test samples. \<open>fall_step\<close> makes the
  step on a height and a velocity and keeps a flag that stays set as long as the sampled level
  is 6 or more and the body is not below the kill plane.
\<close>

definition fall_v :: "real \<Rightarrow> real" where
  "fall_v v = fsub v (fmul GRAVITY frame_dt)"

definition fall_y :: "real \<Rightarrow> real \<Rightarrow> real" where
  "fall_y y v' = fadd (fadd y 0) (fmul v' frame_dt)"

definition feet_level :: "real \<Rightarrow> int" where
  "feet_level y = \<lfloor>fsub y (rd 1.6)\<rfloor>"

definition fall_check :: "bool \<Rightarrow> real \<Rightarrow> real \<Rightarrow> bool \<times> real \<times> real" where
  "fall_check ok y' v' = (ok \<and> 6 \<le> feet_level y' \<and> \<not> y' < - 10, y', v')"

definition fall_move :: "bool \<Rightarrow> real \<Rightarrow> real \<Rightarrow> bool \<times> real \<times> real" where
  "fall_move ok y v' = fall_check ok (fall_y y v') v'"

fun fall_step :: "bool \<times> real \<times> real \<Rightarrow> bool \<times> real \<times> real" where
  "fall_step (ok, y, v) = fall_move ok y (fall_v v)"

section \<open>Example worlds\<close>

text \<open>The state set up by \<^verbatim>\<open>init\<close> before the first chunks are generated.\<close>

definition initial_game :: game where
  "initial_game =
     \<lparr>chunks = [], scene = [],
      cam_position = (real_of_int CHUNK_SIZE / 2, real_of_int CHUNK_HEIGHT + 5, real_of_int CHUNK_SIZE / 2),
      cam_rotation_x = 0, cam_rotation_y = 0,
      velocity = (0, 0, 0), onGround = False, moveInput = (0, 0),
      selectedBlock = int GRASS, storage = None, alerts = []\<rparr>"

text \<open>A chunk filled with Stone; a 3 by 3 block of such chunks; a single such chunk.\<close>

definition solid_data :: "nat list" where
  "solid_data = replicate 6144 STONE"

definition solid_chunks :: chunk_map where
  "solid_chunks =
     map (\<lambda>(cx, cz). (getChunkKey cx cz, \<lparr>data = solid_data, mesh = None\<rparr>))
       [(- 1, - 1), (- 1, 0), (- 1, 1), (0, - 1), (0, 0), (0, 1), (1, - 1), (1, 0), (1, 1)]"

definition solid_game :: game where
  "solid_game = initial_game\<lparr>chunks := solid_chunks\<rparr>"

definition lone_chunks :: chunk_map where
  "lone_chunks = [(getChunkKey 0 0, \<lparr>data = solid_data, mesh = None\<rparr>)]"

definition lone_chunk_game :: game where
  "lone_chunk_game = initial_game\<lparr>chunks := lone_chunks\<rparr>"

text \<open>A single Stone chunk west of the origin, at chunk coordinate \<open>(-1, 0)\<close>.\<close>

definition west_game :: game where
  "west_game = initial_game\<lparr>chunks := [(getChunkKey (- 1) 0, \<lparr>data = solid_data, mesh = None\<rparr>)]\<rparr>"

text \<open>A world coordinate just below zero: the double \<open>-2^-60\<close>.\<close>

definition sliver_x :: real where
  "sliver_x = - (1 / 2 ^ 60)"

text \<open>
  A single Stone chunk is loaded and the saved object holds one chunk whose array has 100
  entries only, or 6145 entries.
\<close>

definition short_save_game :: game where
  "short_save_game = lone_chunk_game\<lparr>storage := Some [(''0,0'', replicate 100 (int STONE))]\<rparr>"

definition long_save_game :: game where
  "long_save_game = lone_chunk_game\<lparr>storage := Some [(''0,0'', replicate 6145 (int STONE))]\<rparr>"

text \<open>
  The saved object holds two chunks: a Stone array of 6145 entries, then an array of 100
  entries.
\<close>

definition mixed_save_game :: game where
  "mixed_save_game =
     lone_chunk_game\<lparr>storage := Some [(''0,0'', replicate 6145 (int STONE)), (''1,0'', replicate 100 (int STONE))]\<rparr>"

text \<open>
  A flat chunk: the layers 0 to 4 are Stone, layer 5 is Grass and the layers above are Air.
\<close>

definition flat_data :: "nat list" where
  "flat_data = map (\<lambda>i. if i < 5 * 256 then STONE else if i < 6 * 256 then GRASS else AIR) [0..<6144]"

text \<open>
  The flat chunk loaded at chunk coordinate \<open>(-1, 0)\<close>, with the camera at \<open>(x, y, 8)\<close>, at rest
  and in the air.
\<close>

definition edge_game :: "real \<Rightarrow> real \<Rightarrow> game" where
  "edge_game x y = initial_game\<lparr>chunks := [(getChunkKey (- 1) 0, \<lparr>data = flat_data, mesh = None\<rparr>)],
                                cam_position := (x, y, 8)\<rparr>"

text \<open>
  The camera turned by a yaw of 60 degrees, with a given pitch, and the move stick pushed
  fully forward.
\<close>

definition tilted_game :: "real \<Rightarrow> game" where
  "tilted_game pitch = initial_game\<lparr>cam_rotation_x := pitch, cam_rotation_y := pi / 3, moveInput := (0, - 1)\<rparr>"

section \<open>Double arithmetic: proofs\<close>

lemma bit_length_numeral:
  "bit_length (numeral k) = Suc (bit_length (numeral k div 2))" "bit_length 0 = 0" "bit_length (Suc 0) = 1"
  by (simp_all add: bit_length.simps[of "numeral k"] bit_length.simps[of 0] bit_length.simps[of "Suc 0"])

text \<open>The unfolding that evaluates \<open>rd\<close> at a numeral.\<close>

lemmas rd_eval = rd_def quantum_def expo_def round_even_def bit_length_numeral Let_def

lemma bit_length_bounds:
  "0 < n \<Longrightarrow> 2 ^ (bit_length n - 1) \<le> n \<and> n < 2 ^ bit_length n"
proof (induction n rule: bit_length.induct)
  case (1 n)
  show ?case
  proof (cases "n div 2 = 0")
    case True
    with 1 have "n = 1" by (simp add: div_eq_0_iff) 
    then show ?thesis by (simp add: bit_length.simps[of "Suc 0"] bit_length.simps[of 0])
  next
    case False
    then have p: "0 < n div 2" by simp
    with 1 have ih: "2 ^ (bit_length (n div 2) - 1) \<le> n div 2" "n div 2 < 2 ^ bit_length (n div 2)"
      by simp_all
    have bl: "bit_length n = Suc (bit_length (n div 2))"
      using 1(2) by (simp add: bit_length.simps[of n])
    have pos: "0 < bit_length (n div 2)" using p by (simp add: bit_length.simps[of "n div 2"])
    then have e: "2 ^ (bit_length n - 1) = 2 * 2 ^ (bit_length (n div 2) - 1)"
      unfolding bl by (cases "bit_length (n div 2)") simp_all
    have "2 * 2 ^ (bit_length (n div 2) - 1) \<le> 2 * (n div 2)" using ih(1) by simp
    also have "\<dots> \<le> n" by simp
    finally have a: "2 ^ (bit_length n - 1) \<le> n" unfolding e .
    have "n < 2 * (n div 2) + 2" by presburger
    also have "\<dots> \<le> 2 * 2 ^ bit_length (n div 2)" using ih(2) by simp
    finally have b: "n < 2 ^ bit_length n" unfolding bl by simp
    from a b show ?thesis by simp
  qed
qed

lemma bit_length_pos: "0 < n \<Longrightarrow> 0 < bit_length n"
  by (simp add: bit_length.simps[of n])

lemma expo_bounds:
  assumes "x \<noteq> 0"
  shows "2 powi (expo x) \<le> \<bar>x\<bar> \<and> \<bar>x\<bar> < 2 powi (expo x + 1)"
proof (cases "1 \<le> \<bar>x\<bar>")
  case True
  define n where "n = nat \<lfloor>\<bar>x\<bar>\<rfloor>"
  have n: "0 < n" "real n \<le> \<bar>x\<bar>" "\<bar>x\<bar> < real n + 1"
    using True unfolding n_def by (simp add: le_floor_iff, linarith, linarith)
  from bit_length_bounds[OF n(1)] have b: "2 ^ (bit_length n - 1) \<le> n" "n < 2 ^ bit_length n" by simp_all
  have e: "expo x = int (bit_length n) - 1" using True by (simp add: expo_def n_def)
  have p: "0 < bit_length n" using n(1) by (rule bit_length_pos)
  have "(2::real) powi (expo x) = 2 ^ (bit_length n - 1)"
    unfolding e using p by (simp add: power_int_def nat_diff_distrib)
  also have "\<dots> \<le> real n" using b(1) by (metis of_nat_le_iff of_nat_numeral of_nat_power)
  finally have lo: "2 powi (expo x) \<le> \<bar>x\<bar>" using n(2) by simp
  have "real n + 1 \<le> 2 ^ bit_length n"
    using b(2) by (metis Suc_leI of_nat_Suc of_nat_le_iff of_nat_numeral of_nat_power add.commute)
  moreover have "(2::real) powi (expo x + 1) = 2 ^ bit_length n"
    unfolding e by (simp add: power_int_def)
  ultimately have hi: "\<bar>x\<bar> < 2 powi (expo x + 1)" using n(3) by simp
  from lo hi show ?thesis ..
next
  case False
  then have s: "0 < \<bar>x\<bar>" "\<bar>x\<bar> < 1" using assms by simp_all
  define k where "k = \<lceil>1 / \<bar>x\<bar>\<rceil>"
  define n where "n = nat (k - 1)"
  have inv: "1 < 1 / \<bar>x\<bar>" using s by simp
  have k: "1 / \<bar>x\<bar> \<le> real_of_int k" "real_of_int k - 1 < 1 / \<bar>x\<bar>" "2 \<le> k"
    unfolding k_def using inv by (simp add: le_ceiling_iff, linarith, linarith)
  have n: "0 < n" "real n = real_of_int k - 1" using k(3) by (simp_all add: n_def)
  from bit_length_bounds[OF n(1)] have b: "2 ^ (bit_length n - 1) \<le> n" "n < 2 ^ bit_length n" by simp_all
  have p: "0 < bit_length n" using n(1) by (rule bit_length_pos)
  have e: "expo x = - int (bit_length n)" using False by (simp add: expo_def n_def k_def)
  have b1: "real n + 1 \<le> 2 ^ bit_length n"
    using b(2) by (metis Suc_leI of_nat_Suc of_nat_le_iff of_nat_numeral of_nat_power add.commute)
  have b2: "(2::real) ^ (bit_length n - 1) \<le> real n"
    using b(1) by (metis of_nat_le_iff of_nat_numeral of_nat_power)
  have "1 / \<bar>x\<bar> \<le> 2 ^ bit_length n" using k(1) n(2) b1 by linarith
  then have "1 \<le> 2 ^ bit_length n * \<bar>x\<bar>" using s(1) by (simp add: field_simps)
  then have "1 / 2 ^ bit_length n \<le> \<bar>x\<bar>" by (simp add: field_simps)
  moreover have "(2::real) powi (expo x) = 1 / 2 ^ bit_length n"
    unfolding e by (simp add: power_int_def field_simps)
  ultimately have lo: "2 powi (expo x) \<le> \<bar>x\<bar>" by simp
  have "2 ^ (bit_length n - 1) < 1 / \<bar>x\<bar>" using b2 n(2) k(2) by linarith
  then have "2 ^ (bit_length n - 1) * \<bar>x\<bar> < 1" using s(1) by (simp add: field_simps)
  then have "\<bar>x\<bar> < 1 / 2 ^ (bit_length n - 1)" by (simp add: field_simps)
  moreover have "(2::real) powi (expo x + 1) = 1 / 2 ^ (bit_length n - 1)"
  proof -
    have "expo x + 1 = - int (bit_length n - 1)" unfolding e using p by simp
    then have "(2::real) powi (expo x + 1) = 2 powi (- int (bit_length n - 1))" by simp
    also have "\<dots> = 1 / 2 ^ (bit_length n - 1)"
      by (simp only: power_int_minus power_int_of_nat inverse_eq_divide)
    finally show ?thesis .
  qed
  ultimately have hi: "\<bar>x\<bar> < 2 powi (expo x + 1)" by simp
  from lo hi show ?thesis ..
qed

lemma round_even_ge: "real_of_int k \<le> t \<Longrightarrow> k \<le> round_even t"
proof -
  assume "real_of_int k \<le> t"
  then have "k \<le> \<lfloor>t\<rfloor>" by (simp add: le_floor_iff)
  then show ?thesis by (simp add: round_even_def Let_def)
qed

lemma round_even_of_int [simp]: "round_even (real_of_int k) = k"
  by (simp add: round_even_def Let_def)

lemma round_even_minus: "round_even (- t) = - round_even t"
proof (cases "t = real_of_int \<lfloor>t\<rfloor>")
  case True
  then have "round_even t = \<lfloor>t\<rfloor>" by (metis round_even_of_int)
  moreover have "round_even (- t) = - \<lfloor>t\<rfloor>"
    using True by (metis of_int_minus round_even_of_int)
  ultimately show ?thesis by simp
next
  case False
  define f where "f = \<lfloor>t\<rfloor>"
  define d where "d = t - real_of_int f"
  have d: "0 < d" "d < 1" using False unfolding d_def f_def by linarith+
  have fl: "\<lfloor>- t\<rfloor> = - f - 1"
    using d unfolding d_def by (intro floor_unique) simp_all
  have d': "- t - real_of_int (- f - 1) = 1 - d" by (simp add: d_def)
  have r: "round_even t = (if d < 1 / 2 then f else if 1 / 2 < d then f + 1 else if even f then f else f + 1)"
    by (simp add: round_even_def Let_def f_def d_def)
  have r': "round_even (- t) =
      (if 1 - d < 1 / 2 then - f - 1 else if 1 / 2 < 1 - d then - f else if even (- f - 1) then - f - 1 else - f)"
    unfolding round_even_def Let_def fl d' by simp
  show ?thesis
  proof (cases "d < 1 / 2")
    case True
    then show ?thesis unfolding r r' by simp
  next
    case nl: False
    show ?thesis
    proof (cases "1 / 2 < d")
      case True
      then show ?thesis unfolding r r' by simp
    next
      case False
      with nl have "d = 1 / 2" by simp
      then show ?thesis unfolding r r' by simp
    qed
  qed
qed

lemma round_even_le: "t \<le> real_of_int k \<Longrightarrow> round_even t \<le> k"
  using round_even_ge[of "- k" "- t"] by (simp add: round_even_minus)

lemma expo_minus [simp]: "expo (- x) = expo x"
  by (simp add: expo_def)

lemma quantum_minus [simp]: "quantum (- x) = quantum x"
  by (simp add: quantum_def)

lemma quantum_pos [simp]: "0 < quantum x"
  by (simp add: quantum_def)

lemma quantum_nz [simp]: "quantum x \<noteq> 0"
  by (simp add: quantum_def)

lemma quantum_ge0 [simp]: "0 \<le> quantum x"
  by (simp add: quantum_def)

lemma rd_minus: "rd (- x) = - rd x"
  by (simp add: rd_def round_even_minus)

lemma rd_0 [simp]: "rd 0 = 0"
  using round_even_of_int[of 0] by (simp add: rd_def)

lemma rd_nonneg: "0 \<le> x \<Longrightarrow> 0 \<le> rd x"
proof -
  assume "0 \<le> x"
  then have "real_of_int 0 \<le> x / quantum x" by simp
  then have "0 \<le> round_even (x / quantum x)" by (rule round_even_ge)
  then show ?thesis by (simp add: rd_def)
qed

lemma pow2_mono: "i \<le> j \<Longrightarrow> (2::real) powi i \<le> 2 powi j"
  by (rule power_int_increasing) simp_all

lemma pow2_less_imp: "(2::real) powi i < 2 powi j \<Longrightarrow> i < j"
  using pow2_mono[of j i] by (cases "i < j") simp_all

lemma expo_mono:
  assumes "x \<noteq> 0" "\<bar>x\<bar> \<le> \<bar>y\<bar>"
  shows "expo x \<le> expo y"
proof -
  from assms have y: "y \<noteq> 0" by auto
  from expo_bounds[OF assms(1)] expo_bounds[OF y] assms(2)
  have "2 powi (expo x) < (2::real) powi (expo y + 1)" by linarith
  then have "expo x < expo y + 1" by (rule pow2_less_imp)
  then show ?thesis by simp
qed

lemma abs_less_next: "x \<noteq> 0 \<Longrightarrow> \<bar>x\<bar> < 2 powi (max (expo x) (- 1022) + 1)"
proof -
  assume "x \<noteq> 0"
  from expo_bounds[OF this] have "\<bar>x\<bar> < 2 powi (expo x + 1)" by simp
  also have "\<dots> \<le> 2 powi (max (expo x) (- 1022) + 1)" by (rule pow2_mono) simp
  finally show ?thesis .
qed

lemma pow2_split: "(2::real) powi (e + j) = 2 powi (52 + j) * 2 powi (e - 52)"
proof -
  have "(2::real) powi ((52 + j) + (e - 52)) = 2 powi (52 + j) * 2 powi (e - 52)"
    by (rule power_int_add) simp
  moreover have "(52 + j) + (e - 52) = e + j" by simp
  ultimately show ?thesis by (simp only:)
qed

lemma quantum_scale: "2 powi (max (expo x) (- 1022) + j) = 2 powi (52 + j) * quantum x"
  unfolding quantum_def by (rule pow2_split)

lemma rd_multiple:
  assumes "quantum a = quantum x" "rd a = a" "a \<le> x"
  shows "a \<le> rd x"
proof -
  define k where "k = round_even (a / quantum a)"
  have a: "a = real_of_int k * quantum x" using assms(1,2) by (simp add: rd_def k_def)
  have "real_of_int k \<le> x / quantum x"
    using assms(3) by (subst (asm) a) (simp add: field_simps)
  then have "k \<le> round_even (x / quantum x)" by (rule round_even_ge)
  then have "real_of_int k * quantum x \<le> real_of_int (round_even (x / quantum x)) * quantum x"
    by (simp)
  then show ?thesis unfolding rd_def a[symmetric] .
qed

lemma round_scaled_ge:
  assumes "real_of_int k * quantum x \<le> x"
  shows "real_of_int k * quantum x \<le> rd x"
proof -
  from assms have "real_of_int k \<le> x / quantum x" by (simp add: field_simps)
  then have "k \<le> round_even (x / quantum x)" by (rule round_even_ge)
  then show ?thesis unfolding rd_def by simp
qed

lemma p52: "(2::real) powi (52 + 0) = real_of_int (2 ^ 52)" "(2::real) powi (52 + 1) = real_of_int (2 ^ 53)"
  by simp_all

lemma rd_lower:
  assumes r: "rd a = a" and le: "a \<le> x"
  shows "a \<le> rd x"
proof -
  consider "x = 0" | "a = 0" | "a < 0" "0 < x" | "0 < a" | "x < 0" "a \<noteq> 0" "x \<noteq> 0"
    using le by fastforce
  then show ?thesis
  proof cases
    case 1
    with le show ?thesis by simp
  next
    case 2
    with le rd_nonneg[of x] show ?thesis by simp
  next
    case 3
    with rd_nonneg[of x] show ?thesis by simp
  next
    case 4
    then have nz: "a \<noteq> 0" "x \<noteq> 0" and ab: "\<bar>a\<bar> \<le> \<bar>x\<bar>" using le by simp_all
    from expo_mono[OF nz(1) ab] have m: "expo a \<le> expo x" .
    show ?thesis
    proof (cases "max (expo a) (- 1022) = max (expo x) (- 1022)")
      case True
      then have "quantum a = quantum x" by (simp add: quantum_def)
      from rd_multiple[OF this r le] show ?thesis .
    next
      case False
      with m have q: "max (expo x) (- 1022) = expo x" and lt: "expo a + 1 \<le> expo x" by auto
      from expo_bounds[OF nz(2)] 4 le have "2 powi (expo x) \<le> x" by simp
      then have "real_of_int (2 ^ 52) * quantum x \<le> x"
        using quantum_scale[of x 0] unfolding q p52 by simp
      from round_scaled_ge[OF this] have "2 powi (expo x) \<le> rd x"
        using quantum_scale[of x 0] unfolding q p52 by simp
      moreover have "a < 2 powi (expo a + 1)" using expo_bounds[OF nz(1)] 4 by simp
      moreover have "(2::real) powi (expo a + 1) \<le> 2 powi (expo x)" using lt by (rule pow2_mono)
      ultimately show ?thesis by linarith
    qed
  next
    case 5
    then have ab: "\<bar>x\<bar> \<le> \<bar>a\<bar>" and neg: "a < 0" using le by simp_all
    from expo_mono[OF 5(3) ab] have m: "expo x \<le> expo a" .
    show ?thesis
    proof (cases "max (expo a) (- 1022) = max (expo x) (- 1022)")
      case True
      then have "quantum a = quantum x" by (simp add: quantum_def)
      from rd_multiple[OF this r le] show ?thesis .
    next
      case False
      with m have q: "max (expo a) (- 1022) = expo a" and lt: "max (expo x) (- 1022) + 1 \<le> expo a" by auto
      from abs_less_next[OF 5(3)] 5(1) have "- (2 powi (max (expo x) (- 1022) + 1)) \<le> x" by simp
      then have "real_of_int (- (2 ^ 53)) * quantum x \<le> x"
        using quantum_scale[of x 1] unfolding p52 by simp
      from round_scaled_ge[OF this] have "- (2 powi (max (expo x) (- 1022) + 1)) \<le> rd x"
        using quantum_scale[of x 1] unfolding p52 by simp
      moreover have "(2::real) powi (max (expo x) (- 1022) + 1) \<le> 2 powi (expo a)" using lt by (rule pow2_mono)
      moreover have "2 powi (expo a) \<le> - a" using expo_bounds[OF 5(2)] neg by simp
      ultimately show ?thesis by linarith
    qed
  qed
qed

lemma rd_upper:
  assumes "rd b = b" and "x \<le> b"
  shows "rd x \<le> b"
  using rd_lower[of "- b" "- x"] assms by (simp add: rd_minus)

lemma pow2_nat: "0 \<le> j \<Longrightarrow> (2::real) powi j = real_of_int (2 ^ nat j)"
  by (simp add: power_int_def)

lemma pow2_diff: "(2::real) powi a / 2 powi b = 2 powi (a - b)"
  by (simp add: power_int_diff)

text \<open>A number with at most 53 bits at a scale within the range of doubles is a double.\<close>

lemma rd_scaled_int:
  assumes m: "\<bar>m\<bar> \<le> 2 ^ 53" and k: "- 1074 \<le> k"
  shows "rd (real_of_int m * 2 powi k) = real_of_int m * 2 powi k"
proof (cases "m = 0")
  case True
  then show ?thesis by simp
next
  case False
  define x where "x = real_of_int m * 2 powi k"
  have nz: "x \<noteq> 0" using False by (simp add: x_def)
  define E where "E = max (expo x) (- 1022)"
  have q: "quantum x = 2 powi (E - 52)" by (simp add: quantum_def E_def)
  have "x / quantum x = x / 2 powi (E - 52)" by (simp only: q)
  also have "\<dots> = real_of_int m * (2 powi k / 2 powi (E - 52))"
    by (simp only: x_def times_divide_eq_right)
  finally have xq: "x / quantum x = real_of_int m * 2 powi (k - (E - 52))"
    by (simp only: pow2_diff)
  have "\<exists>j. x / quantum x = real_of_int j"
  proof (cases "E - 52 \<le> k")
    case True
    then have "(2::real) powi (k - (E - 52)) = real_of_int (2 ^ nat (k - (E - 52)))"
      by (intro pow2_nat) simp
    then have "x / quantum x = real_of_int (m * 2 ^ nat (k - (E - 52)))"
      unfolding xq by simp
    then show ?thesis ..
  next
    case lt: False
    with k have e: "E = expo x" by (auto simp: E_def)
    from expo_bounds[OF nz] have "2 powi (expo x) \<le> \<bar>real_of_int m\<bar> * 2 powi k"
      by (simp add: x_def abs_mult)
    then have "2 powi (expo x) / 2 powi k \<le> \<bar>real_of_int m\<bar>"
      by (simp add: field_simps)
    then have lo: "2 powi (expo x - k) \<le> \<bar>real_of_int m\<bar>" by (simp add: pow2_diff)
    from lt e have d: "53 \<le> expo x - k" by simp
    have "(2::real) powi 53 \<le> 2 powi (expo x - k)" using d by (rule pow2_mono)
    with lo have "(2::real) ^ 53 \<le> \<bar>real_of_int m\<bar>" by simp
    moreover have "\<bar>real_of_int m\<bar> \<le> 2 ^ 53"
      using m by (metis of_int_abs of_int_le_iff of_int_numeral of_int_power)
    ultimately have am: "\<bar>real_of_int m\<bar> = 2 ^ 53" by simp
    with lo have up: "(2::real) powi (expo x - k) \<le> 2 ^ 53" by simp
    have "expo x - k \<le> 53"
    proof (rule ccontr)
      assume "\<not> expo x - k \<le> 53"
      then have "54 \<le> expo x - k" by simp
      then have "(2::real) powi 54 \<le> 2 powi (expo x - k)" by (rule pow2_mono)
      with up show False by simp
    qed
    with d have "k - (E - 52) = - 1" unfolding e by simp
    then have "x / quantum x = real_of_int m * 2 powi (- 1)" by (simp only: xq)
    then have h: "x / quantum x = real_of_int m / 2" by simp
    from am have "\<bar>m\<bar> = 2 ^ 53"
      by (metis of_int_abs of_int_eq_iff of_int_numeral of_int_power)
    then have "m = 2 ^ 53 \<or> m = - (2 ^ 53)" by (simp add: abs_if split: if_splits)
    then show ?thesis
    proof
      assume "m = 2 ^ 53"
      with h have "x / quantum x = real_of_int (2 ^ 52)" by simp
      then show ?thesis ..
    next
      assume "m = - (2 ^ 53)"
      with h have "x / quantum x = real_of_int (- (2 ^ 52))" by simp
      then show ?thesis ..
    qed
  qed
  then obtain j where j: "x / quantum x = real_of_int j" ..
  have "rd x = real_of_int j * quantum x" unfolding rd_def j by simp
  also have "\<dots> = x" using j by (simp add: field_simps)
  finally show ?thesis unfolding x_def .
qed

lemma rd_of_int: "\<bar>n\<bar> \<le> 2 ^ 53 \<Longrightarrow> rd (real_of_int n) = real_of_int n"
  using rd_scaled_int[of n 0] by simp

text \<open>Small integers are doubles.\<close>

lemma rd_small:
  "rd 1 = 1" "rd 2 = 2" "rd 3 = 3" "rd 5 = 5" "rd 6 = 6" "rd 7 = 7" "rd 8 = 8" "rd 9 = 9" "rd 16 = 16"
  by (simp_all add: rd_eval)

section \<open>Terrain generation: proofs\<close>

lemma fold_product:
  "fold (\<lambda>x. fold (G x) zs) xs = fold (\<lambda>(x, z). G x z) (List.product xs zs)"
  by (induction xs) (simp_all add: fold_map comp_def)

lemma length_u8_set [simp]: "length (u8_set d i v) = length d"
  by (simp add: u8_set_def)

lemma u8_set_nth_same: "0 \<le> i \<Longrightarrow> i < int (length d) \<Longrightarrow> u8_set d i v ! nat i = nat (v mod 256)"
  by (simp add: u8_set_def)

lemma u8_set_nth_other: "0 \<le> j \<Longrightarrow> 0 \<le> i \<Longrightarrow> i \<noteq> j \<Longrightarrow> u8_set d i v ! nat j = d ! nat j"
  by (simp add: u8_set_def nat_eq_iff)

lemma length_fold_u8_set [simp]:
  "length (fold (\<lambda>p d. u8_set d (ix p) (v p)) ps d) = length d"
  by (induction ps arbitrary: d) simp_all

lemma fold_u8_set_nth:
  assumes "inj_on ix (set ps)"
    and "\<And>p. p \<in> set ps \<Longrightarrow> 0 \<le> ix p \<and> ix p < int (length d)"
    and "p \<in> set ps"
  shows "fold (\<lambda>p d. u8_set d (ix p) (v p)) ps d ! nat (ix p) = nat (v p mod 256)"
  using assms
proof (induction ps rule: rev_induct)
  case Nil
  then show ?case by simp
next
  case (snoc q qs)
  show ?case
  proof (cases "p = q")
    case True
    with snoc.prems(2)[of q] show ?thesis by (simp add: u8_set_nth_same)
  next
    case False
    with snoc.prems have pin: "p \<in> set qs" by simp
    from snoc.prems False pin have ne: "ix q \<noteq> ix p"
      by (auto simp: inj_on_def)
    have b: "0 \<le> ix p" "0 \<le> ix q" using snoc.prems(2)[of p] snoc.prems(2)[of q] pin by auto
    have "inj_on ix (set qs)" using snoc.prems(1) by (simp add: inj_on_def)
    with snoc.IH snoc.prems(2) pin
    have "fold (\<lambda>p d. u8_set d (ix p) (v p)) qs d ! nat (ix p) = nat (v p mod 256)" by simp
    with ne b show ?thesis by (simp add: u8_set_nth_other)
  qed
qed

lemma generate_flat:
  "generateChunkData msin mcos cx cz =
     fold (\<lambda>p data. u8_set data (cell_index (fst p) (snd (snd p)) (fst (snd p)))
              (int (column_block (column_height msin mcos (world_coord cx (fst p)) (world_coord cz (fst (snd p))))
                 (snd (snd p)))))
       (List.product [0..CHUNK_SIZE - 1] (List.product [0..CHUNK_SIZE - 1] [0..CHUNK_HEIGHT - 1]))
       (replicate (nat (CHUNK_SIZE * CHUNK_HEIGHT * CHUNK_SIZE)) 0)"
  by (simp only: generateChunkData_def Let_def fold_product case_prod_unfold)

lemma quot_rem_unique:
  fixes q r q' r' b :: int
  assumes e: "b * q + r = b * q' + r'" and "0 \<le> r" "r < b" "0 \<le> r'" "r' < b"
  shows "q = q' \<and> r = r'"
proof -
  have 1: "(b * q + r) div b = q" using assms by (simp add: int_div_pos_eq [of _ b q r])
  have 2: "(b * q' + r') div b = q'" using assms by (simp add: int_div_pos_eq [of _ b q' r'])
  from 1 2 e have "q = q'" by simp
  with e show ?thesis by simp
qed

lemma cell_index_inj:
  assumes "0 \<le> x" "x < 16" "0 \<le> z" "z < 16" "0 \<le> x'" "x' < 16" "0 \<le> z'" "z' < 16"
    and e: "cell_index x y z = cell_index x' y' z'"
  shows "x = x' \<and> y = y' \<and> z = z'"
proof -
  have "16 * (16 * y + z) + x = 16 * (16 * y' + z') + x'"
    using e by (simp add: cell_index_def CHUNK_SIZE_def)
  from quot_rem_unique[OF this] assms have a: "16 * y + z = 16 * y' + z'" "x = x'" by auto
  from quot_rem_unique[OF a(1)] assms have "y = y'" "z = z'" by auto
  with a show ?thesis by simp
qed

lemma cell_index_bounds:
  assumes "0 \<le> x" "x < 16" "0 \<le> z" "z < 16" "0 \<le> y" "y < 24"
  shows "0 \<le> cell_index x y z" "cell_index x y z < 6144"
  using assms by (simp_all add: cell_index_def CHUNK_SIZE_def)

lemma column_block_le: "column_block h y \<le> 3"
  by (simp add: column_block_def STONE_def DIRT_def GRASS_def AIR_def)

lemma length_generateChunkData: "length (generateChunkData msin mcos cx cz) = 6144"
  by (simp add: generate_flat CHUNK_SIZE_def CHUNK_HEIGHT_def)

lemma generate_cell:
  assumes "0 \<le> x" "x < 16" "0 \<le> z" "z < 16" "0 \<le> y" "y < 24"
  shows "u8_get (generateChunkData msin mcos cx cz) (cell_index x y z) =
         Some (column_block (column_height msin mcos (world_coord cx x) (world_coord cz z)) y)"
proof -
  let ?ps = "List.product [0..CHUNK_SIZE - 1] (List.product [0..CHUNK_SIZE - 1] [0..CHUNK_HEIGHT - 1])"
  let ?ix = "\<lambda>p. cell_index (fst p) (snd (snd p)) (fst (snd p))"
  let ?d = "replicate (nat (CHUNK_SIZE * CHUNK_HEIGHT * CHUNK_SIZE)) (0::nat)"
  have mem: "\<And>p. p \<in> set ?ps \<Longrightarrow>
      0 \<le> fst p \<and> fst p < 16 \<and> 0 \<le> fst (snd p) \<and> fst (snd p) < 16 \<and> 0 \<le> snd (snd p) \<and> snd (snd p) < 24"
    by (auto simp: CHUNK_SIZE_def CHUNK_HEIGHT_def)
  have inj: "inj_on ?ix (set ?ps)"
  proof (rule inj_onI)
    fix p q assume "p \<in> set ?ps" "q \<in> set ?ps" "?ix p = ?ix q"
    with mem[of p] mem[of q] cell_index_inj[of "fst p" "fst (snd p)" "fst q" "fst (snd q)" "snd (snd p)" "snd (snd q)"]
    show "p = q" by (simp add: prod_eq_iff)
  qed
  have len: "length ?d = 6144" by (simp add: CHUNK_SIZE_def CHUNK_HEIGHT_def)
  have bnd: "\<And>p. p \<in> set ?ps \<Longrightarrow> 0 \<le> ?ix p \<and> ?ix p < int (length ?d)"
  proof -
    fix p assume "p \<in> set ?ps"
    from mem[OF this] show "0 \<le> ?ix p \<and> ?ix p < int (length ?d)"
      using cell_index_bounds[of "fst p" "fst (snd p)" "snd (snd p)"] by (simp add: CHUNK_SIZE_def CHUNK_HEIGHT_def)
  qed
  have pin: "(x, z, y) \<in> set ?ps" using assms by (simp add: CHUNK_SIZE_def CHUNK_HEIGHT_def)
  have "generateChunkData msin mcos cx cz ! nat (cell_index x y z) =
        nat (int (column_block (column_height msin mcos (world_coord cx x) (world_coord cz z)) y) mod 256)"
    unfolding generate_flat using fold_u8_set_nth[of ?ix ?ps ?d "(x, z, y)", OF inj bnd pin] by simp
  moreover have "int (column_block h y) mod 256 = int (column_block h y)" for h
    using column_block_le[of h y] by simp
  ultimately show ?thesis
    using cell_index_bounds[OF assms] by (simp add: u8_get_def length_generateChunkData CHUNK_SIZE_def)
qed

text \<open>
  With a sine and a cosine between -1 and 1 the height lies between 1 and 9: rounding keeps a
  result between two doubles that bound the exact value.
\<close>

lemma rd_between:
  assumes "rd a = a" "rd b = b" "a \<le> x" "x \<le> b"
  shows "a \<le> rd x \<and> rd x \<le> b"
  using rd_lower[OF assms(1,3)] rd_upper[OF assms(2,4)] by simp

lemma column_height_bounds:
  assumes "unit_range msin" "unit_range mcos"
  shows "1 \<le> column_height msin mcos wx wz \<and> column_height msin mcos wx wz \<le> 9"
proof -
  define s where "s = msin (fmul wx (rd 0.1))"
  define c where "c = mcos (fmul wz (rd 0.1))"
  have s: "- 1 \<le> s" "s \<le> 1" and c: "- 1 \<le> c" "c \<le> 1"
    using assms by (simp_all add: unit_range_def s_def c_def)
  have m2: "rd (- 2) = - 2" using rd_minus[of 2] by (simp add: rd_small)
  have s2: "- 2 \<le> fmul s 2 \<and> fmul s 2 \<le> 2"
    unfolding fmul_def using s by (intro rd_between m2 rd_small) simp_all
  have c2: "- 2 \<le> fmul c 2 \<and> fmul c 2 \<le> 2"
    unfolding fmul_def using c by (intro rd_between m2 rd_small) simp_all
  have a1: "3 \<le> fadd 5 (fmul s 2) \<and> fadd 5 (fmul s 2) \<le> 7"
    unfolding fadd_def using s2 by (intro rd_between rd_small) simp_all
  have a2: "1 \<le> fadd (fadd 5 (fmul s 2)) (fmul c 2) \<and> fadd (fadd 5 (fmul s 2)) (fmul c 2) \<le> 9"
    unfolding fadd_def[of "fadd 5 (fmul s 2)"] using a1 c2 by (intro rd_between rd_small) simp_all
  then show ?thesis
    unfolding column_height_def s_def[symmetric] c_def[symmetric]
    by (simp add: le_floor_iff floor_le_iff)
qed

lemma fold_u8_set_subset:
  assumes "set d \<subseteq> S" and "\<And>p. p \<in> set ps \<Longrightarrow> nat (v p mod 256) \<in> S"
  shows "set (fold (\<lambda>p d. u8_set d (ix p) (v p)) ps d) \<subseteq> S"
  using assms
proof (induction ps arbitrary: d)
  case Nil
  then show ?case by simp
next
  case (Cons q qs)
  have "set (u8_set d (ix q) (v q)) \<subseteq> S"
    using Cons.prems set_update_subset_insert[of d "nat (ix q)" "nat (v q mod 256)"]
    by (auto simp: u8_set_def)
  with Cons show ?case by simp
qed

text \<open>
  Claim C6. For every chunk coordinate and every column \<open>(x, z)\<close> of the chunk, with
  \<open>worldX = cx * 16 + x\<close> and \<open>worldZ = cz * 16 + z\<close>, \<^verbatim>\<open>generateChunkData\<close> uses the height
  \<open>floor (5 + 2 * sin (worldX * 0.1) + 2 * cos (worldZ * 0.1))\<close>, the expression being
  evaluated as the program evaluates it (in double arithmetic, with the sine and the cosine
  of the engine, whatever they are), and fills the column with Stone strictly below
  \<open>height - 3\<close>, Dirt from \<open>height - 3\<close> up to \<open>height\<close> (excluded), Grass at \<open>height\<close> and Air
  above.
\<close>
theorem generate_column_layers:
  assumes "0 \<le> x" "x < CHUNK_SIZE" "0 \<le> z" "z < CHUNK_SIZE" "0 \<le> y" "y < CHUNK_HEIGHT"
  shows "let worldX = fadd (fmul (real_of_int cx) 16) (real_of_int x);
             worldZ = fadd (fmul (real_of_int cz) 16) (real_of_int z);
             height = \<lfloor>fadd (fadd 5 (fmul 2 (msin (fmul worldX (rd 0.1))))) (fmul 2 (mcos (fmul worldZ (rd 0.1))))\<rfloor>;
             cell = u8_get (generateChunkData msin mcos cx cz) (cell_index x y z)
         in column_height msin mcos (world_coord cx x) (world_coord cz z) = height \<and>
            (y < height - 3 \<longrightarrow> cell = Some STONE) \<and>
            (height - 3 \<le> y \<and> y < height \<longrightarrow> cell = Some DIRT) \<and>
            (y = height \<longrightarrow> cell = Some GRASS) \<and>
            (height < y \<longrightarrow> cell = Some AIR)"
proof -
  have h: "column_height msin mcos (world_coord cx x) (world_coord cz z) =
      \<lfloor>fadd (fadd 5 (fmul 2 (msin (fmul (fadd (fmul (real_of_int cx) 16) (real_of_int x)) (rd 0.1)))))
         (fmul 2 (mcos (fmul (fadd (fmul (real_of_int cz) 16) (real_of_int z)) (rd 0.1))))\<rfloor>"
    by (simp add: column_height_def world_coord_def CHUNK_SIZE_def fmul_def mult.commute)
  have c: "u8_get (generateChunkData msin mcos cx cz) (cell_index x y z) =
      Some (column_block (column_height msin mcos (world_coord cx x) (world_coord cz z)) y)"
    using assms by (intro generate_cell) (simp_all add: CHUNK_SIZE_def CHUNK_HEIGHT_def)
  show ?thesis
    unfolding Let_def c h [symmetric] by (simp add: column_block_def)
qed

text \<open>
  The column at the origin, with the exact sine and cosine: \<open>sin 0 = 0\<close> and \<open>cos 0 = 1\<close>
  give height 7.
\<close>

theorem generate_column_layers_witness:
  "u8_get (generateChunkData sin cos 0 0) (cell_index 0 7 0) = Some GRASS \<and>
   u8_get (generateChunkData sin cos 0 0) (cell_index 0 3 0) = Some STONE \<and>
   u8_get (generateChunkData sin cos 0 0) (cell_index 0 4 0) = Some DIRT \<and>
   u8_get (generateChunkData sin cos 0 0) (cell_index 0 8 0) = Some AIR"
  using generate_column_layers [where msin = sin and mcos = cos and cx = 0 and cz = 0 and x = 0 and z = 0 and y = 7]
    generate_column_layers [where msin = sin and mcos = cos and cx = 0 and cz = 0 and x = 0 and z = 0 and y = 3]
    generate_column_layers [where msin = sin and mcos = cos and cx = 0 and cz = 0 and x = 0 and z = 0 and y = 4]
    generate_column_layers [where msin = sin and mcos = cos and cx = 0 and cz = 0 and x = 0 and z = 0 and y = 8]
  by (simp add: CHUNK_SIZE_def CHUNK_HEIGHT_def fadd_def fmul_def rd_small)

text \<open>
  Claim C10. For a sine and a cosine with values between -1 and 1, as those of every engine
  are, a generated block array holds only the ids Air, Grass, Dirt and Stone; every cell with
  \<open>y \<ge> 10\<close> is Air; and every column has exactly one Grass cell, at its surface height, which
  lies between 1 and 9.
\<close>
theorem generate_block_ids:
  assumes "unit_range msin" and "unit_range mcos"
  shows "set (generateChunkData msin mcos cx cz) \<subseteq> {AIR, GRASS, DIRT, STONE} \<and>
   (\<forall>x z y. 0 \<le> x \<and> x < CHUNK_SIZE \<and> 0 \<le> z \<and> z < CHUNK_SIZE \<and> 10 \<le> y \<and> y < CHUNK_HEIGHT \<longrightarrow>
      u8_get (generateChunkData msin mcos cx cz) (cell_index x y z) = Some AIR) \<and>
   (\<forall>x z. 0 \<le> x \<and> x < CHUNK_SIZE \<and> 0 \<le> z \<and> z < CHUNK_SIZE \<longrightarrow>
      (let height = column_height msin mcos (world_coord cx x) (world_coord cz z)
       in 1 \<le> height \<and> height \<le> 9 \<and>
          (\<forall>y. 0 \<le> y \<and> y < CHUNK_HEIGHT \<longrightarrow>
             (u8_get (generateChunkData msin mcos cx cz) (cell_index x y z) = Some GRASS) = (y = height))))"
proof (intro conjI allI impI)
  have "nat (int (column_block h y) mod 256) \<in> {AIR, GRASS, DIRT, STONE}" for h y
    by (simp add: column_block_def AIR_def GRASS_def DIRT_def STONE_def)
  then show "set (generateChunkData msin mcos cx cz) \<subseteq> {AIR, GRASS, DIRT, STONE}"
    unfolding generate_flat by (intro fold_u8_set_subset) (auto simp: AIR_def)
next
  fix x z y
  assume a: "0 \<le> x \<and> x < CHUNK_SIZE \<and> 0 \<le> z \<and> z < CHUNK_SIZE \<and> 10 \<le> y \<and> y < CHUNK_HEIGHT"
  then have "u8_get (generateChunkData msin mcos cx cz) (cell_index x y z) =
      Some (column_block (column_height msin mcos (world_coord cx x) (world_coord cz z)) y)"
    by (intro generate_cell) (simp_all add: CHUNK_SIZE_def CHUNK_HEIGHT_def)
  with a column_height_bounds[OF assms, of "world_coord cx x" "world_coord cz z"]
  show "u8_get (generateChunkData msin mcos cx cz) (cell_index x y z) = Some AIR"
    by (simp add: column_block_def)
next
  fix x z
  assume a: "0 \<le> x \<and> x < CHUNK_SIZE \<and> 0 \<le> z \<and> z < CHUNK_SIZE"
  have "u8_get (generateChunkData msin mcos cx cz) (cell_index x y z) =
      Some (column_block (column_height msin mcos (world_coord cx x) (world_coord cz z)) y)"
    if "0 \<le> y \<and> y < CHUNK_HEIGHT" for y
    using a that by (intro generate_cell) (simp_all add: CHUNK_SIZE_def CHUNK_HEIGHT_def)
  then show "let height = column_height msin mcos (world_coord cx x) (world_coord cz z)
       in 1 \<le> height \<and> height \<le> 9 \<and>
          (\<forall>y. 0 \<le> y \<and> y < CHUNK_HEIGHT \<longrightarrow>
             (u8_get (generateChunkData msin mcos cx cz) (cell_index x y z) = Some GRASS) = (y = height))"
    using column_height_bounds[OF assms, of "world_coord cx x" "world_coord cz z"]
    by (simp add: Let_def CHUNK_SIZE_def column_block_def GRASS_def STONE_def DIRT_def AIR_def)
qed

theorem generate_block_ids_witness:
  "set (generateChunkData sin cos 0 0) \<subseteq> {AIR, GRASS, DIRT, STONE} \<and>
   u8_get (generateChunkData sin cos 0 0) (cell_index 0 10 0) = Some AIR \<and>
   column_height sin cos (world_coord 0 0) (world_coord 0 0) = 7 \<and>
   u8_get (generateChunkData sin cos 0 0) (cell_index 0 7 0) = Some GRASS \<and>
   u8_get (generateChunkData sin cos 0 0) (cell_index 0 6 0) \<noteq> Some GRASS"
proof -
  have w: "world_coord 0 0 = 0" by (simp add: world_coord_def fadd_def fmul_def)
  have h: "column_height sin cos (world_coord 0 0) (world_coord 0 0) = 7"
    by (simp add: w column_height_def fadd_def fmul_def rd_small)
  have u: "unit_range sin" "unit_range cos" by (simp_all add: unit_range_def)
  from generate_block_ids [OF u, where cx = 0 and cz = 0] show ?thesis
    by (simp add: CHUNK_SIZE_def CHUNK_HEIGHT_def Let_def h)
qed

section \<open>Chunk keys: proofs\<close>

lemma of_char_digit_char: "d < 10 \<Longrightarrow> (of_char (digit_char d) :: nat) = 48 + d"
  by (simp add: digit_char_def)

lemma is_digit_digit_char: "d < 10 \<Longrightarrow> is_digit (digit_char d)"
  by (simp add: is_digit_def of_char_digit_char)

lemma string_of_nat_digits: "list_all is_digit (string_of_nat n) \<and> string_of_nat n \<noteq> []"
proof (induction n rule: string_of_nat.induct)
  case (1 n)
  show ?case
  proof (cases "n < 10")
    case True
    then show ?thesis by (simp add: string_of_nat.simps[of n] is_digit_digit_char)
  next
    case False
    with 1 show ?thesis by (simp add: string_of_nat.simps[of n] is_digit_digit_char)
  qed
qed

lemma digits_value_snoc: "digits_value (ds @ [c]) = 10 * digits_value ds + ((of_char c :: nat) - 48)"
  by (simp add: digits_value_def)

lemma digits_value_string_of_nat: "digits_value (string_of_nat n) = n"
proof (induction n rule: string_of_nat.induct)
  case (1 n)
  show ?case
  proof (cases "n < 10")
    case True
    then show ?thesis by (simp add: string_of_nat.simps[of n] digits_value_def of_char_digit_char)
  next
    case False
    with 1 show ?thesis
      by (simp add: string_of_nat.simps[of n] digits_value_snoc of_char_digit_char)
  qed
qed

lemma Number_digits_string_of_nat: "Number_digits (string_of_nat n) = Some n"
  using string_of_nat_digits[of n] by (simp add: Number_digits_def digits_value_string_of_nat)

lemma is_digit_not_sign: "is_digit c \<Longrightarrow> c \<noteq> CHR ''-'' \<and> c \<noteq> CHR ''+'' \<and> c \<noteq> CHR '',''"
  by (auto simp: is_digit_def)

lemma Number_dec_string_of_int: "Number_dec (string_of_int i) = Some i"
proof (cases "i < 0")
  case True
  then show ?thesis
    by (simp add: Number_dec_def string_of_int_def Number_digits_string_of_nat)
next
  case False
  obtain c cs where s: "string_of_nat (nat i) = c # cs"
    using string_of_nat_digits[of "nat i"] by (cases "string_of_nat (nat i)") auto
  with string_of_nat_digits[of "nat i"] have "is_digit c" by simp
  then have "c \<noteq> CHR ''-''" "c \<noteq> CHR ''+''" using is_digit_not_sign by blast+
  with False s Number_digits_string_of_nat[of "nat i"] show ?thesis
    by (simp add: Number_dec_def string_of_int_def)
qed

lemma no_comma_string_of_int: "CHR '','' \<notin> set (string_of_int i)"
proof -
  have "CHR '','' \<notin> set (string_of_nat n)" for n
    using string_of_nat_digits[of n] is_digit_not_sign by (auto simp: list_all_iff)
  then show ?thesis by (simp add: string_of_int_def)
qed

lemma split_comma_no_comma: "CHR '','' \<notin> set s \<Longrightarrow> split_comma s = [s]"
  by (induction s) auto

lemma split_comma_once:
  "CHR '','' \<notin> set a \<Longrightarrow> CHR '','' \<notin> set b \<Longrightarrow> split_comma (a @ CHR '','' # b) = [a, b]"
  by (induction a) (auto simp: split_comma_no_comma)

lemma parse_key_getChunkKey: "parse_key (getChunkKey cx cz) = Some (cx, cz)"
  by (simp add: parse_key_def getChunkKey_def split_comma_once no_comma_string_of_int
      Number_dec_string_of_int)

lemma canonical_getChunkKey: "canonical_key (getChunkKey cx cz)"
  by (simp add: canonical_key_def parse_key_getChunkKey)

lemma string_of_nat_digit: "n < 10 \<Longrightarrow> string_of_nat n = [digit_char n]"
  by (simp add: string_of_nat.simps)

lemma key_examples:
  "getChunkKey 0 0 = ''0,0''" "getChunkKey 1 0 = ''1,0''" "getChunkKey (- 1) 0 = ''-1,0''"
  "getChunkKey 0 1 = ''0,1''" "getChunkKey 0 (- 1) = ''0,-1''" "getChunkKey 1 1 = ''1,1''"
  "getChunkKey (- 1) (- 1) = ''-1,-1''" "getChunkKey (- 1) 1 = ''-1,1''" "getChunkKey 1 (- 1) = ''1,-1''"
  by code_simp+

section \<open>Meshing: proofs\<close>

lemma TEXTURE_MAP_defined: "1 \<le> t \<Longrightarrow> t \<le> 6 \<Longrightarrow> \<exists>def. TEXTURE_MAP t = Some def"
proof -
  assume "1 \<le> t" "t \<le> 6"
  then have "t = 1 \<or> t = 2 \<or> t = 3 \<or> t = 4 \<or> t = 5 \<or> t = 6" by arith
  then show ?thesis
    by (auto simp: TEXTURE_MAP_def GRASS_def DIRT_def STONE_def SAND_def WOOD_def BRICK_def)
qed

lemma addFace_ok:
  assumes "1 \<le> t" "t \<le> 6"
  shows "\<exists>f. addFace off rot pos (Some t) fn = Inr f \<and> f_pos f = pos \<and> f_offset f = off"
proof -
  from TEXTURE_MAP_defined[OF assms] obtain def where "TEXTURE_MAP t = Some def" by blast
  then show ?thesis by (simp add: addFace_def Let_def)
qed

lemma emits_append: "emits (fs @ gs) pos off = (emits fs pos off \<or> emits gs pos off)"
  by (auto simp: emits_def)

lemma emits_Nil [simp]: "\<not> emits [] pos off"
  by (simp add: emits_def)

lemma check_neighbour_ok:
  assumes "1 \<le> t" "t \<le> 6"
  shows "\<exists>new. check_neighbour cs cx cz (nx, ny, nz) off rot pos (Some t) fn acc = Inr (acc @ new) \<and>
           (\<forall>f \<in> set new. f_pos f = pos \<and> f_offset f = off) \<and>
           (new \<noteq> [] \<longleftrightarrow> getBlock cs cx cz nx ny nz = Some AIR)"
proof (cases "getBlock cs cx cz nx ny nz = Some AIR")
  case True
  from addFace_ok[OF assms, of off rot pos fn] obtain f where
    "addFace off rot pos (Some t) fn = Inr f" "f_pos f = pos" "f_offset f = off" by blast
  with True show ?thesis by (intro exI[of _ "[f]"]) (simp add: check_neighbour_def)
next
  case False
  then show ?thesis by (intro exI[of _ "[]"]) (simp add: check_neighbour_def)
qed

lemma emits_single_dir:
  assumes "\<forall>f \<in> set new. f_pos f = pos \<and> f_offset f = d"
  shows "emits new pos off \<longleftrightarrow> (off = d \<and> new \<noteq> [])"
  using assms by (cases new) (auto simp: emits_def)

lemma mesh_cell_ok:
  assumes t: "u8_get dat (cell_index x y z) = Some t" "t \<le> 6"
  shows "\<exists>new. mesh_cell cs cx cz dat x y z acc = Inr (acc @ new) \<and>
           (\<forall>f \<in> set new. f_pos f = (cx * CHUNK_SIZE + x, y, cz * CHUNK_SIZE + z)) \<and>
           (\<forall>off. emits new (cx * CHUNK_SIZE + x, y, cz * CHUNK_SIZE + z) off \<longleftrightarrow>
              (t \<noteq> AIR \<and> off \<in> set directions \<and>
               getBlock cs cx cz (x + fst off) (y + fst (snd off)) (z + snd (snd off)) = Some AIR))"
proof (cases "t = AIR")
  case True
  with t show ?thesis by (intro exI[of _ "[]"]) (simp add: mesh_cell_def Let_def)
next
  case False
  then have t1: "1 \<le> t" "t \<le> 6" using t(2) by (simp_all add: AIR_def)
  let ?pos = "(cx * CHUNK_SIZE + x, y, cz * CHUNK_SIZE + z)"
  note cn = check_neighbour_ok[OF t1, of cs cx cz]
  from cn[of "x + 1" y z "(1, 0, 0)" "(0, pi / 2)" ?pos Side acc] obtain n1 where
    1: "check_neighbour cs cx cz (x + 1, y, z) (1, 0, 0) (0, pi / 2) ?pos (Some t) Side acc = Inr (acc @ n1)"
       "\<forall>f \<in> set n1. f_pos f = ?pos \<and> f_offset f = (1, 0, 0)"
       "n1 \<noteq> [] \<longleftrightarrow> getBlock cs cx cz (x + 1) y z = Some AIR" by auto
  from cn[of "x - 1" y z "(- 1, 0, 0)" "(0, - (pi / 2))" ?pos Side "acc @ n1"] obtain n2 where
    2: "check_neighbour cs cx cz (x - 1, y, z) (- 1, 0, 0) (0, - (pi / 2)) ?pos (Some t) Side (acc @ n1) = Inr (acc @ n1 @ n2)"
       "\<forall>f \<in> set n2. f_pos f = ?pos \<and> f_offset f = (- 1, 0, 0)"
       "n2 \<noteq> [] \<longleftrightarrow> getBlock cs cx cz (x - 1) y z = Some AIR" by auto
  from cn[of x "y + 1" z "(0, 1, 0)" "(- (pi / 2), 0)" ?pos Top "acc @ n1 @ n2"] obtain n3 where
    3: "check_neighbour cs cx cz (x, y + 1, z) (0, 1, 0) (- (pi / 2), 0) ?pos (Some t) Top (acc @ n1 @ n2) = Inr (acc @ n1 @ n2 @ n3)"
       "\<forall>f \<in> set n3. f_pos f = ?pos \<and> f_offset f = (0, 1, 0)"
       "n3 \<noteq> [] \<longleftrightarrow> getBlock cs cx cz x (y + 1) z = Some AIR" by auto
  from cn[of x "y - 1" z "(0, - 1, 0)" "(pi / 2, 0)" ?pos Bottom "acc @ n1 @ n2 @ n3"] obtain n4 where
    4: "check_neighbour cs cx cz (x, y - 1, z) (0, - 1, 0) (pi / 2, 0) ?pos (Some t) Bottom (acc @ n1 @ n2 @ n3) = Inr (acc @ n1 @ n2 @ n3 @ n4)"
       "\<forall>f \<in> set n4. f_pos f = ?pos \<and> f_offset f = (0, - 1, 0)"
       "n4 \<noteq> [] \<longleftrightarrow> getBlock cs cx cz x (y - 1) z = Some AIR" by auto
  from cn[of x y "z + 1" "(0, 0, 1)" "(0, 0)" ?pos Side "acc @ n1 @ n2 @ n3 @ n4"] obtain n5 where
    5: "check_neighbour cs cx cz (x, y, z + 1) (0, 0, 1) (0, 0) ?pos (Some t) Side (acc @ n1 @ n2 @ n3 @ n4) = Inr (acc @ n1 @ n2 @ n3 @ n4 @ n5)"
       "\<forall>f \<in> set n5. f_pos f = ?pos \<and> f_offset f = (0, 0, 1)"
       "n5 \<noteq> [] \<longleftrightarrow> getBlock cs cx cz x y (z + 1) = Some AIR" by auto
  from cn[of x y "z - 1" "(0, 0, - 1)" "(0, pi)" ?pos Side "acc @ n1 @ n2 @ n3 @ n4 @ n5"] obtain n6 where
    6: "check_neighbour cs cx cz (x, y, z - 1) (0, 0, - 1) (0, pi) ?pos (Some t) Side (acc @ n1 @ n2 @ n3 @ n4 @ n5) = Inr (acc @ n1 @ n2 @ n3 @ n4 @ n5 @ n6)"
       "\<forall>f \<in> set n6. f_pos f = ?pos \<and> f_offset f = (0, 0, - 1)"
       "n6 \<noteq> [] \<longleftrightarrow> getBlock cs cx cz x y (z - 1) = Some AIR" by auto
  let ?new = "n1 @ n2 @ n3 @ n4 @ n5 @ n6"
  have r: "mesh_cell cs cx cz dat x y z acc = Inr (acc @ ?new)"
    using t(1) False by (simp add: mesh_cell_def Let_def bind_err_def 1(1) 2(1) 3(1) 4(1) 5(1) 6(1))
  have p: "\<forall>f \<in> set ?new. f_pos f = ?pos"
    using 1(2) 2(2) 3(2) 4(2) 5(2) 6(2) by auto
  have e: "emits ?new ?pos off \<longleftrightarrow>
      (t \<noteq> AIR \<and> off \<in> set directions \<and>
       getBlock cs cx cz (x + fst off) (y + fst (snd off)) (z + snd (snd off)) = Some AIR)" for off
    unfolding emits_append emits_single_dir[OF 1(2)] emits_single_dir[OF 2(2)] emits_single_dir[OF 3(2)]
      emits_single_dir[OF 4(2)] emits_single_dir[OF 5(2)] emits_single_dir[OF 6(2)]
      1(3) 2(3) 3(3) 4(3) 5(3) 6(3)
  proof (rule iffI)
    assume "off = (1, 0, 0) \<and> getBlock cs cx cz (x + 1) y z = Some AIR \<or>
     off = (- 1, 0, 0) \<and> getBlock cs cx cz (x - 1) y z = Some AIR \<or>
     off = (0, 1, 0) \<and> getBlock cs cx cz x (y + 1) z = Some AIR \<or>
     off = (0, - 1, 0) \<and> getBlock cs cx cz x (y - 1) z = Some AIR \<or>
     off = (0, 0, 1) \<and> getBlock cs cx cz x y (z + 1) = Some AIR \<or>
     off = (0, 0, - 1) \<and> getBlock cs cx cz x y (z - 1) = Some AIR"
    then show "t \<noteq> AIR \<and> off \<in> set directions \<and>
     getBlock cs cx cz (x + fst off) (y + fst (snd off)) (z + snd (snd off)) = Some AIR"
      using False by (elim disjE conjE) (simp_all add: directions_def)
  next
    assume a: "t \<noteq> AIR \<and> off \<in> set directions \<and>
     getBlock cs cx cz (x + fst off) (y + fst (snd off)) (z + snd (snd off)) = Some AIR"
    then have "off = (1, 0, 0) \<or> off = (- 1, 0, 0) \<or> off = (0, 1, 0) \<or> off = (0, - 1, 0) \<or>
      off = (0, 0, 1) \<or> off = (0, 0, - 1)" by (simp add: directions_def)
    then show "off = (1, 0, 0) \<and> getBlock cs cx cz (x + 1) y z = Some AIR \<or>
     off = (- 1, 0, 0) \<and> getBlock cs cx cz (x - 1) y z = Some AIR \<or>
     off = (0, 1, 0) \<and> getBlock cs cx cz x (y + 1) z = Some AIR \<or>
     off = (0, - 1, 0) \<and> getBlock cs cx cz x (y - 1) z = Some AIR \<or>
     off = (0, 0, 1) \<and> getBlock cs cx cz x y (z + 1) = Some AIR \<or>
     off = (0, 0, - 1) \<and> getBlock cs cx cz x y (z - 1) = Some AIR"
      using a by (elim disjE) simp_all
  qed
  from r p e show ?thesis by blast
qed

lemma mesh_faces_flat:
  "mesh_faces cs cx cz dat =
     fold (\<lambda>p acc. bind_err acc (mesh_cell cs cx cz dat (snd (snd p)) (fst p) (fst (snd p))))
       chunk_cells (Inr [])"
  by (simp only: mesh_faces_def chunk_cells_def fold_product case_prod_unfold)

lemma set_chunk_cells: "p \<in> set chunk_cells \<longleftrightarrow> in_chunk (snd (snd p)) (fst p) (fst (snd p))"
  by (cases p) (auto simp: chunk_cells_def in_chunk_def)

lemma wf_readable: "wf_data dat \<Longrightarrow> readable_data dat"
  by (simp add: wf_data_def readable_data_def)

lemma wf_cell:
  assumes "readable_data dat" "in_chunk x y z"
  shows "\<exists>t. u8_get dat (cell_index x y z) = Some t \<and> t \<le> 6"
proof -
  from assms(2) have b: "0 \<le> cell_index x y z" "cell_index x y z < 6144"
    by (simp_all add: in_chunk_def cell_index_def CHUNK_SIZE_def CHUNK_HEIGHT_def)
  from assms(1) have l: "6144 \<le> length dat" and v: "\<forall>v \<in> set dat. v \<le> 6"
    by (simp_all add: readable_data_def CHUNK_SIZE_def CHUNK_HEIGHT_def BRICK_def)
  from b l have "nat (cell_index x y z) < length dat" by simp
  with v have "dat ! nat (cell_index x y z) \<le> 6" using nth_mem by blast
  with b l show ?thesis by (simp add: u8_get_def)
qed

lemma mesh_fold_ok:
  assumes "readable_data dat" and "\<And>p. p \<in> set cells \<Longrightarrow> in_chunk (snd (snd p)) (fst p) (fst (snd p))"
  shows "\<exists>fs. fold (\<lambda>p acc. bind_err acc (mesh_cell cs cx cz dat (snd (snd p)) (fst p) (fst (snd p))))
                 cells (Inr acc0) = Inr fs \<and>
           (\<forall>pos off. emits fs pos off \<longleftrightarrow>
              (emits acc0 pos off \<or>
               (\<exists>p \<in> set cells. pos = (cx * CHUNK_SIZE + snd (snd p), fst p, cz * CHUNK_SIZE + fst (snd p)) \<and>
                  cell_exposed cs cx cz dat (snd (snd p)) (fst p) (fst (snd p)) off)))"
  using assms(2)
proof (induction cells arbitrary: acc0)
  case Nil
  then show ?case by simp
next
  case (Cons p ps)
  let ?x = "snd (snd p)" and ?y = "fst p" and ?z = "fst (snd p)"
  let ?pos = "(cx * CHUNK_SIZE + ?x, ?y, cz * CHUNK_SIZE + ?z)"
  have "in_chunk ?x ?y ?z" using Cons.prems by simp
  from wf_cell[OF assms(1) this] obtain t where t: "u8_get dat (cell_index ?x ?y ?z) = Some t" "t \<le> 6"
    by blast
  from mesh_cell_ok[OF t, of cs cx cz acc0] obtain new where
    n: "mesh_cell cs cx cz dat ?x ?y ?z acc0 = Inr (acc0 @ new)"
       "\<forall>f \<in> set new. f_pos f = ?pos"
       "\<And>off. emits new ?pos off \<longleftrightarrow>
              (t \<noteq> AIR \<and> off \<in> set directions \<and>
               getBlock cs cx cz (?x + fst off) (?y + fst (snd off)) (?z + snd (snd off)) = Some AIR)"
    by blast
  have e: "emits new pos off \<longleftrightarrow> (pos = ?pos \<and> cell_exposed cs cx cz dat ?x ?y ?z off)" for pos off
  proof (cases "pos = ?pos")
    case True
    then show ?thesis using n(3)[of off] t(1) by (simp add: cell_exposed_def)
  next
    case False
    then show ?thesis using n(2) by (auto simp: emits_def)
  qed
  from Cons.IH[of "acc0 @ new"] Cons.prems obtain fs where
    fs: "fold (\<lambda>p acc. bind_err acc (mesh_cell cs cx cz dat (snd (snd p)) (fst p) (fst (snd p))))
           ps (Inr (acc0 @ new)) = Inr fs"
        "\<And>pos off. emits fs pos off \<longleftrightarrow>
              (emits (acc0 @ new) pos off \<or>
               (\<exists>p \<in> set ps. pos = (cx * CHUNK_SIZE + snd (snd p), fst p, cz * CHUNK_SIZE + fst (snd p)) \<and>
                  cell_exposed cs cx cz dat (snd (snd p)) (fst p) (fst (snd p)) off))"
    by auto
  have "fold (\<lambda>p acc. bind_err acc (mesh_cell cs cx cz dat (snd (snd p)) (fst p) (fst (snd p))))
           (p # ps) (Inr acc0) = Inr fs"
    using fs(1) n(1) by (simp add: bind_err_def)
  moreover have "emits fs pos off \<longleftrightarrow>
              (emits acc0 pos off \<or>
               (\<exists>q \<in> set (p # ps). pos = (cx * CHUNK_SIZE + snd (snd q), fst q, cz * CHUNK_SIZE + fst (snd q)) \<and>
                  cell_exposed cs cx cz dat (snd (snd q)) (fst q) (fst (snd q)) off))" for pos off
    unfolding fs(2) emits_append e by auto
  ultimately show ?case by blast
qed

lemma mesh_faces_char:
  assumes "readable_data dat"
  shows "\<exists>fs. mesh_faces cs cx cz dat = Inr fs \<and>
           (\<forall>x y z off. in_chunk x y z \<longrightarrow>
              emits fs (cx * CHUNK_SIZE + x, y, cz * CHUNK_SIZE + z) off = cell_exposed cs cx cz dat x y z off)"
proof -
  from mesh_fold_ok[OF assms, of chunk_cells cs cx cz "[]"] obtain fs where
    fs: "mesh_faces cs cx cz dat = Inr fs"
        "\<And>pos off. emits fs pos off \<longleftrightarrow>
               (\<exists>p \<in> set chunk_cells. pos = (cx * CHUNK_SIZE + snd (snd p), fst p, cz * CHUNK_SIZE + fst (snd p)) \<and>
                  cell_exposed cs cx cz dat (snd (snd p)) (fst p) (fst (snd p)) off)"
    unfolding mesh_faces_flat by (auto simp: set_chunk_cells)
  have "emits fs (cx * CHUNK_SIZE + x, y, cz * CHUNK_SIZE + z) off = cell_exposed cs cx cz dat x y z off"
    if "in_chunk x y z" for x y z off
  proof -
    have m: "(y, z, x) \<in> set chunk_cells" using that by (simp add: set_chunk_cells)
    show ?thesis unfolding fs(2)
    proof
      assume "\<exists>p \<in> set chunk_cells.
          (cx * CHUNK_SIZE + x, y, cz * CHUNK_SIZE + z) =
            (cx * CHUNK_SIZE + snd (snd p), fst p, cz * CHUNK_SIZE + fst (snd p)) \<and>
          cell_exposed cs cx cz dat (snd (snd p)) (fst p) (fst (snd p)) off"
      then obtain p where "x = snd (snd p)" "y = fst p" "z = fst (snd p)"
        "cell_exposed cs cx cz dat (snd (snd p)) (fst p) (fst (snd p)) off" by auto
      then show "cell_exposed cs cx cz dat x y z off" by simp
    next
      assume "cell_exposed cs cx cz dat x y z off"
      with m show "\<exists>p \<in> set chunk_cells.
          (cx * CHUNK_SIZE + x, y, cz * CHUNK_SIZE + z) =
            (cx * CHUNK_SIZE + snd (snd p), fst p, cz * CHUNK_SIZE + fst (snd p)) \<and>
          cell_exposed cs cx cz dat (snd (snd p)) (fst p) (fst (snd p)) off"
        by (intro bexI[of _ "(y, z, x)"]) simp_all
    qed
  qed
  with fs(1) show ?thesis by blast
qed

lemma mesh_emits_iff:
  assumes "wf_data dat" "in_chunk x y z"
  shows "mesh_emits cs cx cz dat (cx * CHUNK_SIZE + x, y, cz * CHUNK_SIZE + z) off =
         cell_exposed cs cx cz dat x y z off"
proof -
  from mesh_faces_char[OF wf_readable[OF assms(1)], of cs cx cz] obtain fs where
    "mesh_faces cs cx cz dat = Inr fs"
    "\<And>x y z off. in_chunk x y z \<Longrightarrow>
       emits fs (cx * CHUNK_SIZE + x, y, cz * CHUNK_SIZE + z) off = cell_exposed cs cx cz dat x y z off"
    by blast
  with assms(2) show ?thesis by (simp add: mesh_emits_def)
qed

lemma wf_solid_data: "wf_data solid_data"
  by (simp add: wf_data_def solid_data_def CHUNK_SIZE_def CHUNK_HEIGHT_def STONE_def BRICK_def)

lemma solid_cell:
  assumes "in_chunk x y z"
  shows "u8_get solid_data (cell_index x y z) = Some STONE"
proof -
  from assms have "0 \<le> cell_index x y z" "cell_index x y z < 6144"
    by (simp_all add: in_chunk_def cell_index_def CHUNK_SIZE_def CHUNK_HEIGHT_def)
  then show ?thesis by (simp add: u8_get_def solid_data_def)
qed

lemma getBlock_outside:
  "\<not> in_chunk x y z \<Longrightarrow> getBlock cs cx cz x y z = Some AIR"
  by (auto simp: getBlock_def in_chunk_def Let_def split: option.splits)

lemma getBlock_inside:
  "in_chunk x y z \<Longrightarrow> map_of cs (getChunkKey cx cz) = Some c \<Longrightarrow>
   getBlock cs cx cz x y z = u8_get (data c) (cell_index x y z)"
  by (auto simp: getBlock_def in_chunk_def Let_def)

lemma getBlock_unloaded:
  "map_of cs (getChunkKey cx cz) = None \<Longrightarrow> getBlock cs cx cz x y z = Some AIR"
  by (simp add: getBlock_def)

lemma buildChunkMesh_emitting:
  assumes "mesh_emits (chunks g) cx cz dat pos off" "map_of (chunks g) (getChunkKey cx cz) = Some c"
  shows "\<exists>fs. mesh_faces (chunks g) cx cz dat = Inr fs \<and> emits fs pos off \<and>
           buildChunkMesh cx cz dat g =
             Done (g\<lparr>chunks := AList.update (getChunkKey cx cz) (c\<lparr>mesh := Some fs\<rparr>) (chunks g),
                     scene := scene g @ [fs]\<rparr>)"
proof -
  from assms(1) obtain fs where fs: "mesh_faces (chunks g) cx cz dat = Inr fs" "emits fs pos off"
    by (auto simp: mesh_emits_def split: sum.splits)
  then have "fs \<noteq> []" by (auto simp: emits_def)
  with fs assms(2) show ?thesis by (simp add: buildChunkMesh_def)
qed

text \<open>
  Claim C1 as stated fails: the centre chunk of a 3 by 3 block of loaded Stone chunks has
  the solid cell \<open>(15, 0, 0)\<close> at its edge, the adjacent cell \<open>(0, 0, 0)\<close> of the loaded
  neighbour chunk \<open>(1, 0)\<close> is solid too, and still the mesher emits the quad on that side and
  adds a mesh to the scene.
\<close>

theorem solid_neighbours_counterexample:
  "getBlock solid_chunks 0 0 15 0 0 = Some STONE \<and>
   getBlock solid_chunks 1 0 0 0 0 = Some STONE \<and>
   mesh_emits solid_chunks 0 0 solid_data (15, 0, 0) (1, 0, 0) \<and>
   length (scene (outcome_game (buildChunkMesh 0 0 solid_data solid_game))) = 1"
proof -
  have l0: "map_of solid_chunks (getChunkKey 0 0) = Some \<lparr>data = solid_data, mesh = None\<rparr>"
    and l1: "map_of solid_chunks (getChunkKey 1 0) = Some \<lparr>data = solid_data, mesh = None\<rparr>"
    by (simp_all add: solid_chunks_def key_examples)
  have a: "getBlock solid_chunks 0 0 15 0 0 = Some STONE"
    using getBlock_inside[OF _ l0, of 15 0 0] solid_cell[of 15 0 0]
    by (simp add: in_chunk_def CHUNK_SIZE_def CHUNK_HEIGHT_def)
  have b: "getBlock solid_chunks 1 0 0 0 0 = Some STONE"
    using getBlock_inside[OF _ l1, of 0 0 0] solid_cell[of 0 0 0]
    by (simp add: in_chunk_def CHUNK_SIZE_def CHUNK_HEIGHT_def)
  have i: "in_chunk 15 0 0" by (simp add: in_chunk_def CHUNK_SIZE_def CHUNK_HEIGHT_def)
  have "cell_exposed solid_chunks 0 0 solid_data 15 0 0 (1, 0, 0)"
    using solid_cell[OF i] getBlock_outside[of 16 0 0 solid_chunks 0 0]
    by (simp add: cell_exposed_def directions_def in_chunk_def CHUNK_SIZE_def STONE_def AIR_def)
  with mesh_emits_iff[OF wf_solid_data i, of solid_chunks 0 0 "(1, 0, 0)"]
  have c: "mesh_emits solid_chunks 0 0 solid_data (15, 0, 0) (1, 0, 0)"
    by (simp add: CHUNK_SIZE_def)
  have "mesh_emits (chunks solid_game) 0 0 solid_data (15, 0, 0) (1, 0, 0)"
    "map_of (chunks solid_game) (getChunkKey 0 0) = Some \<lparr>data = solid_data, mesh = None\<rparr>"
    using c l0 by (simp_all add: solid_game_def)
  from buildChunkMesh_emitting[OF this]
  have d: "length (scene (outcome_game (buildChunkMesh 0 0 solid_data solid_game))) = 1"
    by (auto simp: solid_game_def initial_game_def)
  from a b c d show ?thesis by simp
qed

lemma mesh_faces_own_chunk:
  assumes "map_of cs (getChunkKey cx cz) = map_of cs' (getChunkKey cx cz)"
  shows "mesh_faces cs cx cz dat = mesh_faces cs' cx cz dat"
proof -
  have gb: "getBlock cs cx cz = getBlock cs' cx cz"
    using assms by (intro ext) (simp add: getBlock_def)
  have cn: "check_neighbour cs cx cz = check_neighbour cs' cx cz"
    by (intro ext) (simp only: check_neighbour_def gb)
  have mc: "mesh_cell cs cx cz = mesh_cell cs' cx cz"
    by (intro ext) (simp only: mesh_cell_def cn)
  show ?thesis by (simp only: mesh_faces_def mc)
qed

text \<open>
  Claim C1, amended. The mesher culls a face only against a cell of the same chunk: for a
  loaded chunk with a well-formed block array, a non-Air cell gets a quad on one of its six
  sides exactly when the adjacent cell lies outside the chunk's own bounds or is an Air cell
  of the chunk. The faces do not depend on any other chunk of the world.
\<close>

theorem mesher_culls_within_chunk:
  assumes "wf_data (data c)" and "map_of cs (getChunkKey cx cz) = Some c"
    and "in_chunk x y z" and "u8_get (data c) (cell_index x y z) \<noteq> Some AIR"
    and "(ox, oy, oz) \<in> set directions"
  shows "mesh_emits cs cx cz (data c) (cx * CHUNK_SIZE + x, y, cz * CHUNK_SIZE + z) (ox, oy, oz) =
           (\<not> in_chunk (x + ox) (y + oy) (z + oz) \<or>
            u8_get (data c) (cell_index (x + ox) (y + oy) (z + oz)) = Some AIR) \<and>
         (\<forall>cs'. map_of cs' (getChunkKey cx cz) = Some c \<longrightarrow>
            mesh_faces cs' cx cz (data c) = mesh_faces cs cx cz (data c))"
proof (intro conjI allI impI)
  have "getBlock cs cx cz (x + ox) (y + oy) (z + oz) = Some AIR \<longleftrightarrow>
          (\<not> in_chunk (x + ox) (y + oy) (z + oz) \<or>
           u8_get (data c) (cell_index (x + ox) (y + oy) (z + oz)) = Some AIR)"
    using getBlock_outside[of "x + ox" "y + oy" "z + oz" cs cx cz]
      getBlock_inside[OF _ assms(2), of "x + ox" "y + oy" "z + oz"]
    by (cases "in_chunk (x + ox) (y + oy) (z + oz)") simp_all
  with assms(4,5) mesh_emits_iff[OF assms(1,3), of cs cx cz "(ox, oy, oz)"]
  show "mesh_emits cs cx cz (data c) (cx * CHUNK_SIZE + x, y, cz * CHUNK_SIZE + z) (ox, oy, oz) =
           (\<not> in_chunk (x + ox) (y + oy) (z + oz) \<or>
            u8_get (data c) (cell_index (x + ox) (y + oy) (z + oz)) = Some AIR)"
    by (simp add: cell_exposed_def)
next
  fix cs' assume "map_of cs' (getChunkKey cx cz) = Some c"
  with assms(2) show "mesh_faces cs' cx cz (data c) = mesh_faces cs cx cz (data c)"
    by (intro mesh_faces_own_chunk) simp
qed

theorem mesher_culls_within_chunk_witness:
  "mesh_emits solid_chunks 0 0 solid_data (15, 0, 0) (1, 0, 0) \<and>
   \<not> mesh_emits solid_chunks 0 0 solid_data (15, 0, 0) (- 1, 0, 0) \<and>
   mesh_faces lone_chunks 0 0 solid_data = mesh_faces solid_chunks 0 0 solid_data"
proof -
  let ?c = "\<lparr>data = solid_data, mesh = None\<rparr>"
  have l0: "map_of solid_chunks (getChunkKey 0 0) = Some ?c"
    by (simp add: solid_chunks_def key_examples)
  have l1: "map_of lone_chunks (getChunkKey 0 0) = Some ?c"
    by (simp add: lone_chunks_def)
  have i: "in_chunk 15 0 0" "\<not> in_chunk 16 0 0" "in_chunk 14 0 0"
    by (simp_all add: in_chunk_def CHUNK_SIZE_def CHUNK_HEIGHT_def)
  have w: "wf_data (data ?c)" by (simp add: wf_solid_data)
  have n: "u8_get (data ?c) (cell_index 15 0 0) \<noteq> Some AIR"
    using solid_cell[OF i(1)] by (simp add: STONE_def AIR_def)
  have d: "(1, 0, 0) \<in> set directions" "(- 1, 0, 0) \<in> set directions"
    by (simp_all add: directions_def)
  from mesher_culls_within_chunk[OF w l0 i(1) n d(1)] mesher_culls_within_chunk[OF w l0 i(1) n d(2)]
    i(2) i(3) solid_cell[OF i(3)] l1
  show ?thesis by (simp add: CHUNK_SIZE_def STONE_def AIR_def)
qed

text \<open>
  Claim C9. Open edge: when a loaded chunk with a well-formed block array has a non-Air block
  at local \<open>x = 0\<close> and the chunk at \<open>cx - 1\<close> is not loaded, every block query into that
  neighbour gives Air, and \<^verbatim>\<open>buildChunkMesh\<close> stores a mesh that holds the quad of
  that block on the side \<open>(-1, 0, 0)\<close>.
\<close>

theorem open_edge_face:
  assumes "map_of (chunks g) (getChunkKey cx cz) = Some c" and "wf_data (data c)"
    and "0 \<le> y" "y < CHUNK_HEIGHT" "0 \<le> z" "z < CHUNK_SIZE"
    and "u8_get (data c) (cell_index 0 y z) \<noteq> Some AIR"
    and "map_of (chunks g) (getChunkKey (cx - 1) cz) = None"
  shows "(\<forall>nx ny nz. getBlock (chunks g) (cx - 1) cz nx ny nz = Some AIR) \<and>
         (\<exists>fs. buildChunkMesh cx cz (data c) g =
                  Done (g\<lparr>chunks := AList.update (getChunkKey cx cz) (c\<lparr>mesh := Some fs\<rparr>) (chunks g),
                          scene := scene g @ [fs]\<rparr>) \<and>
               emits fs (cx * CHUNK_SIZE, y, cz * CHUNK_SIZE + z) (- 1, 0, 0))"
proof -
  have i: "in_chunk 0 y z" using assms(3-6) by (simp add: in_chunk_def CHUNK_SIZE_def)
  have "getBlock (chunks g) cx cz (- 1) y z = Some AIR"
    by (intro getBlock_outside) (simp add: in_chunk_def)
  with assms(7) have "cell_exposed (chunks g) cx cz (data c) 0 y z (- 1, 0, 0)"
    by (simp add: cell_exposed_def directions_def)
  with mesh_emits_iff[OF assms(2) i, of "chunks g" cx cz "(- 1, 0, 0)"]
  have "mesh_emits (chunks g) cx cz (data c) (cx * CHUNK_SIZE, y, cz * CHUNK_SIZE + z) (- 1, 0, 0)"
    by simp
  from buildChunkMesh_emitting[OF this assms(1)] getBlock_unloaded[OF assms(8)]
  show ?thesis by blast
qed

theorem open_edge_face_witness:
  "getBlock (chunks lone_chunk_game) (- 1) 0 15 0 0 = Some AIR \<and>
   emits (the (mesh (the (map_of (chunks (outcome_game (buildChunkMesh 0 0 solid_data lone_chunk_game)))
            (getChunkKey 0 0))))) (0, 0, 0) (- 1, 0, 0)"
proof -
  let ?c = "\<lparr>data = solid_data, mesh = None\<rparr>"
  have l: "map_of (chunks lone_chunk_game) (getChunkKey 0 0) = Some ?c"
    by (simp add: lone_chunk_game_def lone_chunks_def)
  have u: "map_of (chunks lone_chunk_game) (getChunkKey (0 - 1) 0) = None"
    by (simp add: lone_chunk_game_def lone_chunks_def key_examples)
  have w: "wf_data (data ?c)" by (simp add: wf_solid_data)
  have n: "u8_get (data ?c) (cell_index 0 0 0) \<noteq> Some AIR"
    using solid_cell[of 0 0 0] by (simp add: in_chunk_def CHUNK_SIZE_def CHUNK_HEIGHT_def STONE_def AIR_def)
  from open_edge_face[OF l w _ _ _ _ n u]
  show ?thesis by (auto simp: CHUNK_SIZE_def CHUNK_HEIGHT_def update_conv')
qed

section \<open>Editing: proofs\<close>

lemma buildChunkMesh_data:
  "map_option data (map_of (chunks (outcome_game (buildChunkMesh cx cz dat g))) k) =
   map_option data (map_of (chunks g) k)"
  by (auto simp: buildChunkMesh_def update_conv' split: sum.splits option.splits)

lemma chunks_scene_remove [simp]: "chunks (scene_remove m g) = chunks g"
  by (simp add: scene_remove_def split: option.splits)

lemma setBlock_data:
  assumes "map_of (chunks g) (getChunkKey (chunk_coord wx) (chunk_coord wz)) = Some c"
    and "0 \<le> \<lfloor>wy\<rfloor>" "\<lfloor>wy\<rfloor> < CHUNK_HEIGHT"
  shows "map_option data (map_of (chunks (outcome_game (setBlock wx wy wz bid g)))
           (getChunkKey (chunk_coord wx) (chunk_coord wz))) =
         Some (u8_set (data c) (cell_index (local_coord wx) \<lfloor>wy\<rfloor> (local_coord wz)) bid)"
  using assms by (simp add: setBlock_def Let_def buildChunkMesh_data update_conv')

lemma coords_minus_one: "chunk_coord (- 1) = - 1" "local_coord (- 1) = 15"
proof -
  show c: "chunk_coord (- 1) = - 1"
    by (simp add: chunk_coord_def CHUNK_SIZE_def fdiv_def rd_eval)
  have "fmul (- 1) 16 = - 16" using rd_minus[of 16] by (simp add: fmul_def rd_small)
  then show "local_coord (- 1) = 15"
    by (simp add: local_coord_def c CHUNK_SIZE_def fsub_def rd_eval)
qed

lemma coords_zero: "chunk_coord 0 = 0" "local_coord 0 = 0"
  by (simp_all add: chunk_coord_def local_coord_def CHUNK_SIZE_def fdiv_def fsub_def fmul_def)

lemma sliver_double: "rd sliver_x = sliver_x"
  by (simp add: sliver_x_def rd_eval)

lemma coords_sliver: "chunk_coord sliver_x = - 1" "local_coord sliver_x = 16"
proof -
  show c: "chunk_coord sliver_x = - 1"
    by (simp add: chunk_coord_def CHUNK_SIZE_def fdiv_def sliver_x_def rd_eval)
  have "fmul (- 1) 16 = - 16" using rd_minus[of 16] by (simp add: fmul_def rd_small)
  then have "local_coord sliver_x = \<lfloor>fsub sliver_x (- 16)\<rfloor>"
    by (simp add: local_coord_def c CHUNK_SIZE_def)
  also have "\<dots> = 16" by (simp add: fsub_def sliver_x_def rd_eval)
  finally show "local_coord sliver_x = 16" .
qed

text \<open>
  For an integer world coordinate the quotient, the product and the difference are exact, and
  the chunk and the local coordinate are the quotient and the remainder of the flooring
  division by 16.
\<close>

lemma coords_of_int:
  assumes "\<bar>n\<bar> \<le> 2 ^ 53"
  shows "chunk_coord (real_of_int n) = n div 16" and "local_coord (real_of_int n) = n mod 16"
proof -
  have "fdiv (real_of_int n) 16 = rd (real_of_int n * 2 powi (- 4))" by (simp add: fdiv_def)
  also have "\<dots> = real_of_int n * 2 powi (- 4)" using assms by (intro rd_scaled_int) simp_all
  finally have q: "fdiv (real_of_int n) 16 = real_of_int n / 16" by simp
  have "\<lfloor>real_of_int n / 16\<rfloor> = n div 16"
    using floor_divide_of_int_eq[of n 16, where ?'a = real] by simp
  then show c: "chunk_coord (real_of_int n) = n div 16"
    by (simp add: chunk_coord_def CHUNK_SIZE_def q)
  have "\<bar>n div 16\<bar> \<le> \<bar>n\<bar>" by (simp add: abs_if div_le_dividend) presburger
  with assms have b: "\<bar>n div 16\<bar> \<le> 2 ^ 53" by simp
  have "fmul (real_of_int (n div 16)) 16 = rd (real_of_int (n div 16) * 2 powi 4)" by (simp add: fmul_def)
  also have "\<dots> = real_of_int (n div 16) * 2 powi 4" using b by (intro rd_scaled_int) simp_all
  finally have p: "fmul (real_of_int (n div 16)) 16 = real_of_int (n div 16 * 16)" by simp
  have "real_of_int n - real_of_int (n div 16 * 16) = real_of_int (n mod 16)"
    by (simp add: minus_div_mult_eq_mod [symmetric])
  then have "fsub (real_of_int n) (fmul (real_of_int (n div 16)) 16) = rd (real_of_int (n mod 16))"
    by (simp only: fsub_def p)
  also have "\<dots> = real_of_int (n mod 16)"
  proof (rule rd_of_int)
    have "0 \<le> n mod 16" "n mod 16 < 16" by simp_all
    then show "\<bar>n mod 16\<bar> \<le> 2 ^ 53" by simp
  qed
  finally show "local_coord (real_of_int n) = n mod 16"
    by (simp add: local_coord_def c CHUNK_SIZE_def)
qed

text \<open>
  Claim C3 says that the flooring resolution gives every negative world coordinate a local
  coordinate in \<open>[0, 16)\<close>. The program takes the chunk as \<open>floor (world / 16)\<close> and the local
  coordinate as \<open>floor (world - chunk * 16)\<close>, in double arithmetic. For every integer world
  coordinate (up to \<open>2^53\<close> in size) these are the quotient and the remainder of the flooring
  division by 16, so the local coordinate lies in \<open>[0, 16)\<close>: at \<open>worldX = -1\<close> the chunk is \<open>-1\<close>
  and the local x is 15, as the claim says. At \<open>worldX = -2^-60\<close>, a double just below zero
  whose block is the one at world x \<open>-1\<close>, the chunk is \<open>-1\<close> too, but the difference
  \<open>-2^-60 + 16\<close> rounds to 16 and the local x is 16, outside \<open>[0, 16)\<close>: \<^verbatim>\<open>setBlock\<close> then
  writes at the index of local \<open>(16, 0, 0)\<close>, which is the cell \<open>(0, 0, 1)\<close>, and leaves the
  cell \<open>(15, 0, 0)\<close> as it was.
\<close>

theorem setBlock_local_out_of_range:
  "(\<forall>n. \<bar>n\<bar> \<le> 2 ^ 53 \<longrightarrow>
      chunk_coord (real_of_int n) = n div 16 \<and> local_coord (real_of_int n) = n mod 16 \<and>
      0 \<le> local_coord (real_of_int n) \<and> local_coord (real_of_int n) < 16) \<and>
   chunk_coord (- 1) = - 1 \<and> local_coord (- 1) = 15 \<and>
   rd sliver_x = sliver_x \<and> sliver_x < 0 \<and> \<lfloor>sliver_x\<rfloor> = - 1 \<and>
   chunk_coord sliver_x = - 1 \<and> local_coord sliver_x = 16 \<and>
   map_option data (map_of (chunks (outcome_game (setBlock sliver_x 0 0 (int AIR) west_game))) ''-1,0'') =
     Some (u8_set solid_data (cell_index 0 0 1) (int AIR)) \<and>
   u8_get (u8_set solid_data (cell_index 0 0 1) (int AIR)) (cell_index 0 0 1) = Some AIR \<and>
   u8_get (u8_set solid_data (cell_index 0 0 1) (int AIR)) (cell_index 15 0 0) = Some STONE"
proof -
  have g: "\<forall>n. \<bar>n\<bar> \<le> 2 ^ 53 \<longrightarrow>
      chunk_coord (real_of_int n) = n div 16 \<and> local_coord (real_of_int n) = n mod 16 \<and>
      0 \<le> local_coord (real_of_int n) \<and> local_coord (real_of_int n) < 16"
    by (simp add: coords_of_int)
  have s: "sliver_x < 0" "\<lfloor>sliver_x\<rfloor> = - 1"
    by (simp_all add: sliver_x_def floor_eq_iff)
  have l: "map_of (chunks west_game) (getChunkKey (chunk_coord sliver_x) (chunk_coord 0)) =
             Some \<lparr>data = solid_data, mesh = None\<rparr>"
    by (simp add: coords_sliver coords_zero west_game_def)
  have i: "cell_index 16 0 0 = cell_index 0 0 1" by (simp add: cell_index_def CHUNK_SIZE_def)
  from setBlock_data[of west_game sliver_x 0 _ 0 "int AIR", OF l]
  have w: "map_option data (map_of (chunks (outcome_game (setBlock sliver_x 0 0 (int AIR) west_game))) ''-1,0'') =
     Some (u8_set solid_data (cell_index 0 0 1) (int AIR))"
    by (simp add: coords_sliver coords_zero key_examples CHUNK_HEIGHT_def i)
  have c: "u8_get (u8_set solid_data (cell_index 0 0 1) (int AIR)) (cell_index 0 0 1) = Some AIR"
    "u8_get (u8_set solid_data (cell_index 0 0 1) (int AIR)) (cell_index 15 0 0) = Some STONE"
    by (simp_all add: u8_get_def u8_set_def solid_data_def cell_index_def CHUNK_SIZE_def AIR_def)
  from g coords_minus_one sliver_double s coords_sliver w c show ?thesis by (intro conjI)
qed

text \<open>World x \<open>-17\<close> is the cell 15 of chunk \<open>-2\<close>; world x 40 is the cell 8 of chunk 2.\<close>

theorem setBlock_local_out_of_range_witness:
  "chunk_coord (- 17) = - 2 \<and> local_coord (- 17) = 15 \<and> chunk_coord 40 = 2 \<and> local_coord 40 = 8"
proof -
  note t = setBlock_local_out_of_range[THEN conjunct1]
  from t[THEN spec[where x = "- 17"]] t[THEN spec[where x = 40]] show ?thesis by simp
qed

text \<open>
  Claim C8. An edit that resolves to a chunk that is not loaded, or whose vertical
  coordinate is outside \<open>[0, 24)\<close>, returns normally and leaves the whole state, every block
  array and every mesh included, as it was.
\<close>

theorem setBlock_noop:
  assumes "map_of (chunks g) (getChunkKey (chunk_coord wx) (chunk_coord wz)) = None \<or>
           wy < 0 \<or> real_of_int CHUNK_HEIGHT \<le> wy"
  shows "setBlock wx wy wz bid g = Done g"
proof -
  have "wy < 0 \<or> real_of_int CHUNK_HEIGHT \<le> wy \<Longrightarrow> \<not> (\<lfloor>wy\<rfloor> \<ge> 0 \<and> \<lfloor>wy\<rfloor> < CHUNK_HEIGHT)"
    by (auto simp: le_floor_iff floor_less_iff)
  with assms show ?thesis
    by (auto simp: setBlock_def Let_def split: option.splits)
qed

theorem setBlock_noop_witness:
  "setBlock 40 3 8 (int BRICK) lone_chunk_game = Done lone_chunk_game \<and>
   setBlock 8 24 8 (int BRICK) lone_chunk_game = Done lone_chunk_game \<and>
   setBlock 8 (- 1 / 2) 8 (int BRICK) lone_chunk_game = Done lone_chunk_game"
proof -
  have f: "chunk_coord 40 = 2" "chunk_coord 8 = 0"
    by (simp_all add: chunk_coord_def CHUNK_SIZE_def fdiv_def rd_eval)
  have k: "getChunkKey 2 0 = ''2,0''" by code_simp
  have u: "map_of (chunks lone_chunk_game) (getChunkKey (chunk_coord 40) (chunk_coord 8)) = None"
    by (simp add: f k lone_chunk_game_def lone_chunks_def key_examples)
  from setBlock_noop[of lone_chunk_game 40 8 3 "int BRICK"] u
    setBlock_noop[of lone_chunk_game 8 8 24 "int BRICK"]
    setBlock_noop[of lone_chunk_game 8 8 "- 1 / 2" "int BRICK"]
  show ?thesis by (simp add: CHUNK_HEIGHT_def)
qed

section \<open>Save and load: proofs\<close>

lemma update_fresh: "k \<notin> fst ` set al \<Longrightarrow> AList.update k v al = al @ [(k, v)]"
  by (induction al) auto

lemma block_arrays_update_mesh:
  "map_of al k = Some c \<Longrightarrow> block_arrays (AList.update k (c\<lparr>mesh := m\<rparr>) al) = block_arrays al"
  by (induction al) (auto simp: block_arrays_def)

lemma buildChunkMesh_readable:
  assumes "readable_data dat" and "map_of (chunks g) (getChunkKey cx cz) = Some c"
  shows "\<exists>g'. buildChunkMesh cx cz dat g = Done g' \<and> block_arrays (chunks g') = block_arrays (chunks g) \<and>
           storage g' = storage g \<and> alerts g' = alerts g"
proof -
  from mesh_faces_char[OF assms(1), of "chunks g" cx cz] obtain fs where
    "mesh_faces (chunks g) cx cz dat = Inr fs" by blast
  with assms(2) show ?thesis
    by (cases "fs = []") (simp_all add: buildChunkMesh_def block_arrays_update_mesh)
qed

lemma Uint8Array_from_bytes:
  assumes "\<forall>v \<in> set dat. v < 256"
  shows "Uint8Array_from (map int dat) = dat"
proof -
  have "nat (int v mod 256) = v" if "v \<in> set dat" for v
    using assms that by (simp add: nat_mod_distrib)
  then show ?thesis by (simp add: Uint8Array_from_def map_idI)
qed

lemma Uint8Array_from_ids:
  assumes "\<forall>v \<in> set arr. 0 \<le> v \<and> v \<le> 6"
  shows "\<forall>v \<in> set (Uint8Array_from arr). v \<le> BRICK"
  using assms by (auto simp: Uint8Array_from_def BRICK_def)

lemma length_Uint8Array_from [simp]: "length (Uint8Array_from arr) = length arr"
  by (simp add: Uint8Array_from_def)

lemma loadable_readable: "loadable (key, arr) \<Longrightarrow> readable_data (Uint8Array_from arr)"
  using Uint8Array_from_ids[of arr] by (simp add: loadable_def readable_data_def)

lemma keys_block_arrays: "map fst (block_arrays cs) = map fst cs"
  by (simp add: block_arrays_def case_prod_unfold)

lemma keys_of_block_arrays:
  assumes "block_arrays cs = block_arrays cs0 @ [(k, d)]"
  shows "fst ` set cs = fst ` set cs0 \<union> {k}"
proof -
  have "map fst cs = map fst (block_arrays cs0 @ [(k, d)])"
    using keys_block_arrays[of cs] assms by simp
  then have "map fst cs = map fst cs0 @ [k]" by (simp add: keys_block_arrays)
  then have "set (map fst cs) = set (map fst cs0 @ [k])" by simp
  then show ?thesis by auto
qed

text \<open>Loading entries that are all readable: every one is installed, in order.\<close>

lemma load_entries_loadable:
  assumes "distinct (map fst es)" and "\<forall>e \<in> set es. loadable e"
    and "fst ` set es \<inter> fst ` set (chunks g) = {}"
  shows "\<exists>g'. load_entries es g = Done g' \<and>
           block_arrays (chunks g') = block_arrays (chunks g) @ installed es \<and>
           storage g' = storage g \<and> alerts g' = alerts g"
  using assms
proof (induction es arbitrary: g)
  case Nil
  then show ?case by (simp add: installed_def)
next
  case (Cons e es)
  obtain k arr where e: "e = (k, arr)" by (cases e)
  from Cons.prems(2) e have l: "loadable (k, arr)" by simp
  then have can: "canonical_key k" by (simp add: loadable_def)
  from can obtain cx cz where p: "parse_key k = Some (cx, cz)" "getChunkKey cx cz = k"
    by (auto simp: canonical_key_def split: option.splits)
  let ?c = "\<lparr>data = Uint8Array_from arr, mesh = None\<rparr>"
  let ?g1 = "g\<lparr>chunks := AList.update k ?c (chunks g)\<rparr>"
  from Cons.prems(3) e have fresh: "k \<notin> fst ` set (chunks g)" by auto
  then have ch1: "chunks ?g1 = chunks g @ [(k, ?c)]" by (simp add: update_fresh)
  have "map_of (chunks ?g1) (getChunkKey cx cz) = Some ?c"
    by (simp add: p(2) update_conv')
  from buildChunkMesh_readable[OF loadable_readable[OF l] this] obtain g2 where
    g2: "buildChunkMesh cx cz (Uint8Array_from arr) ?g1 = Done g2"
      "block_arrays (chunks g2) = block_arrays (chunks ?g1)"
      "storage g2 = storage ?g1" "alerts g2 = alerts ?g1" by blast
  from g2(2) ch1 have ba: "block_arrays (chunks g2) = block_arrays (chunks g) @ [(k, Uint8Array_from arr)]"
    by (simp add: block_arrays_def)
  from keys_of_block_arrays[OF ba] Cons.prems(1,3) e
  have disj: "fst ` set es \<inter> fst ` set (chunks g2) = {}" by auto
  from Cons.prems(1,2) have "distinct (map fst es)" "\<forall>e \<in> set es. loadable e" by auto
  from Cons.IH[OF this disj] obtain g' where
    g': "load_entries es g2 = Done g'"
      "block_arrays (chunks g') = block_arrays (chunks g2) @ installed es"
      "storage g' = storage g2" "alerts g' = alerts g2" by blast
  have "load_entries (e # es) g = Done g'"
    using e p(1) g2(1) g'(1) by (simp add: Let_def)
  moreover have "block_arrays (chunks g') = block_arrays (chunks g) @ installed (e # es)"
    using g'(2) ba e by (simp add: installed_def)
  ultimately show ?case using g'(3,4) g2(3,4) by auto
qed

text \<open>What \<^verbatim>\<open>saveWorld\<close> stores for a well-formed world map is readable and converts back.\<close>

lemma saved_entries:
  assumes "\<forall>(key, c) \<in> set cs. canonical_key key \<and> wf_data (data c)"
  shows "(\<forall>e \<in> set (map (\<lambda>(key, c). (key, map int (data c))) cs). loadable e) \<and>
         installed (map (\<lambda>(key, c). (key, map int (data c))) cs) = block_arrays cs"
proof -
  have 1: "loadable (key, map int (data c)) \<and> Uint8Array_from (map int (data c)) = data c"
    if "(key, c) \<in> set cs" for key c
  proof -
    from assms that have can: "canonical_key key" and wf: "wf_data (data c)" by auto
    from wf have "\<forall>v \<in> set (data c). v < 256" by (auto simp: wf_data_def BRICK_def)
    then have "Uint8Array_from (map int (data c)) = data c" by (rule Uint8Array_from_bytes)
    moreover from wf have "\<forall>v \<in> set (map int (data c)). 0 \<le> v \<and> v \<le> 6"
      by (auto simp: wf_data_def BRICK_def)
    ultimately show ?thesis using can wf by (simp add: loadable_def wf_data_def)
  qed
  then have "\<forall>e \<in> set (map (\<lambda>(key, c). (key, map int (data c))) cs). loadable e" by auto
  moreover have "installed (map (\<lambda>(key, c). (key, map int (data c))) cs) = block_arrays cs"
    unfolding installed_def block_arrays_def using 1 by (induction cs) auto
  ultimately show ?thesis ..
qed

text \<open>
  Claim C7. Saving a well-formed world map (arrays of 16 * 16 * 24 ids between 0 and 6, under
  the keys of integer chunk coordinates) and then loading what was stored, in whatever state
  the program is by then (the state right after the save, one with other chunks loaded, a
  fresh one with none), succeeds and gives a world map with the same keys in the same order,
  each with a block array equal to the original. (The world need not hold a chunk for this.)
\<close>

theorem save_load_round_trip:
  assumes "wf_chunks (chunks g)" and "storage g2 = storage (saveWorld g)"
  shows "\<exists>g'. loadWorld g2 = Done g' \<and>
           map fst (chunks g') = map fst (chunks g) \<and>
           map (\<lambda>(key, c). data c) (chunks g') = map (\<lambda>(key, c). data c) (chunks g)"
proof -
  let ?saved = "map (\<lambda>(key, c). (key, map int (data c))) (chunks g)"
  let ?g1 = "(clear_meshes g2)\<lparr>chunks := []\<rparr>"
  from assms(1) have d: "distinct (map fst (chunks g))"
    and w: "\<forall>(key, c) \<in> set (chunks g). canonical_key key \<and> wf_data (data c)"
    by (simp_all add: wf_chunks_def)
  have st: "storage g2 = Some ?saved" using assms(2) by (simp add: saveWorld_def)
  have "distinct (map fst ?saved)" using d by (simp add: comp_def case_prod_unfold)
  from load_entries_loadable[OF this saved_entries[OF w, THEN conjunct1], of ?g1] saved_entries[OF w]
  obtain g' where
    g': "load_entries ?saved ?g1 = Done g'" "block_arrays (chunks g') = block_arrays (chunks g)"
    by (auto simp: block_arrays_def)
  have "loadWorld g2 = Done (g'\<lparr>alerts := alerts g' @ [''World Loaded!'']\<rparr>)"
    using g'(1) st by (simp add: loadWorld_def Let_def)
  moreover from g'(2) have "map fst (block_arrays (chunks g')) = map fst (block_arrays (chunks g))"
    "map snd (block_arrays (chunks g')) = map snd (block_arrays (chunks g))" by simp_all
  then have "map fst (chunks g') = map fst (chunks g)"
    "map (\<lambda>(key, c). data c) (chunks g') = map (\<lambda>(key, c). data c) (chunks g)"
    by (simp_all add: block_arrays_def case_prod_unfold comp_def)
  ultimately show ?thesis by simp
qed

text \<open>
  The 3 by 3 Stone world, loaded again right after the save and loaded into a state in which
  no chunk is loaded.
\<close>

theorem save_load_round_trip_witness:
  "(\<exists>g'. loadWorld (saveWorld solid_game) = Done g' \<and>
      map fst (chunks g') =
        [''-1,-1'', ''-1,0'', ''-1,1'', ''0,-1'', ''0,0'', ''0,1'', ''1,-1'', ''1,0'', ''1,1''] \<and>
      map (\<lambda>(key, c). data c) (chunks g') = replicate 9 solid_data) \<and>
   (\<exists>g'. loadWorld (initial_game\<lparr>storage := storage (saveWorld solid_game)\<rparr>) = Done g' \<and>
      map fst (chunks g') =
        [''-1,-1'', ''-1,0'', ''-1,1'', ''0,-1'', ''0,0'', ''0,1'', ''1,-1'', ''1,0'', ''1,1''] \<and>
      map (\<lambda>(key, c). data c) (chunks g') = replicate 9 solid_data)"
proof -
  have k: "map fst solid_chunks =
      [''-1,-1'', ''-1,0'', ''-1,1'', ''0,-1'', ''0,0'', ''0,1'', ''1,-1'', ''1,0'', ''1,1'']"
    by (simp add: solid_chunks_def key_examples)
  have d: "map (\<lambda>(key, c). data c) solid_chunks = replicate 9 solid_data"
    by (simp add: solid_chunks_def numeral_Bit1 numeral_Bit0)
  have "distinct (map fst solid_chunks)" unfolding k by simp
  moreover have "\<forall>(key, c) \<in> set solid_chunks. canonical_key key \<and> wf_data (data c)"
    by (simp add: solid_chunks_def canonical_getChunkKey wf_solid_data)
  ultimately have w: "wf_chunks (chunks solid_game)"
    by (simp add: wf_chunks_def solid_game_def)
  have s: "storage (initial_game\<lparr>storage := storage (saveWorld solid_game)\<rparr>) = storage (saveWorld solid_game)"
    by simp
  from save_load_round_trip[OF w refl] save_load_round_trip[OF w s] show ?thesis
    by (simp add: solid_game_def k d)
qed

lemma product_snoc: "List.product (xs @ [x]) ys = List.product xs ys @ map (Pair x) ys"
  by (induction xs) simp_all

lemma chunk_cells_last: "\<exists>cells. chunk_cells = cells @ [(23, 15, 15)]"
proof -
  have a: "[0..CHUNK_HEIGHT - 1] = [0..22] @ [23]" "[0..CHUNK_SIZE - 1] = [0..14] @ [15]"
    by (simp_all add: CHUNK_HEIGHT_def CHUNK_SIZE_def upto_rec2)
  have "List.product [0..CHUNK_SIZE - 1] [0..CHUNK_SIZE - 1] =
      (List.product [0..14] [0..CHUNK_SIZE - 1] @ map (Pair 15) [0..14]) @ [(15, 15)]"
    unfolding a(2) product_snoc by simp
  then obtain row where r: "List.product [0..CHUNK_SIZE - 1] [0..CHUNK_SIZE - 1] = row @ [(15, 15)]"
    by blast
  have "chunk_cells = (List.product [0..22] (row @ [(15, 15)]) @ map (Pair 23) row) @ [(23, 15, 15)]"
    unfolding chunk_cells_def r a(1) product_snoc by simp
  then show ?thesis by blast
qed

lemma mesh_cell_undefined:
  assumes "u8_get dat (cell_index 15 23 15) = None"
  shows "mesh_cell cs cx cz dat 15 23 15 acc = Inl TypeError"
proof -
  have "getBlock cs cx cz 16 23 15 = Some AIR"
    by (intro getBlock_outside) (simp add: in_chunk_def CHUNK_SIZE_def)
  with assms show ?thesis
    by (simp add: mesh_cell_def Let_def check_neighbour_def addFace_def bind_err_def)
qed

lemma addFace_error: "addFace off rot pos type fn = Inl e \<Longrightarrow> e = TypeError"
  by (auto simp: addFace_def Let_def split: option.splits)

lemma check_neighbour_error: "check_neighbour cs cx cz n off rot pos type fn acc = Inl e \<Longrightarrow> e = TypeError"
  by (cases n) (auto simp: check_neighbour_def split: if_splits sum.splits dest: addFace_error)

lemma mesh_cell_error: "mesh_cell cs cx cz dat x y z acc = Inl e \<Longrightarrow> e = TypeError"
  by (auto simp: mesh_cell_def Let_def bind_err_def split: if_splits sum.splits
      dest: check_neighbour_error)

lemma mesh_fold_error:
  "fold (\<lambda>p acc. bind_err acc (mesh_cell cs cx cz dat (snd (snd p)) (fst p) (fst (snd p)))) cells a = Inl e \<Longrightarrow>
   a = Inl e \<or> e = TypeError"
proof (induction cells arbitrary: a)
  case Nil
  then show ?case by simp
next
  case (Cons p ps)
  from Cons.IH[OF Cons.prems[simplified]] show ?case
    by (auto simp: bind_err_def split: sum.splits dest: mesh_cell_error)
qed

lemma mesh_faces_short:
  assumes "length dat < 6144"
  shows "mesh_faces cs cx cz dat = Inl TypeError"
proof -
  let ?f = "\<lambda>p acc. bind_err acc (mesh_cell cs cx cz dat (snd (snd p)) (fst p) (fst (snd p)))"
  from chunk_cells_last obtain cells where c: "chunk_cells = cells @ [(23, 15, 15)]" by blast
  have u: "u8_get dat (cell_index 15 23 15) = None"
    using assms by (simp add: u8_get_def cell_index_def CHUNK_SIZE_def)
  have "mesh_faces cs cx cz dat = bind_err (fold ?f cells (Inr [])) (mesh_cell cs cx cz dat 15 23 15)"
    unfolding mesh_faces_flat c by simp
  also have "\<dots> = Inl TypeError"
  proof (cases "fold ?f cells (Inr [])")
    case (Inl e)
    from mesh_fold_error[OF this] have "e = TypeError" by simp
    with Inl show ?thesis by (simp add: bind_err_def)
  next
    case (Inr acc)
    then show ?thesis by (simp add: bind_err_def mesh_cell_undefined[OF u])
  qed
  finally show ?thesis .
qed

lemma loadWorld_short:
  assumes "storage g = Some ((key, arr) # rest)" and "canonical_key key" and "length arr < 6144"
  shows "loadWorld g =
           Threw TypeError ((clear_meshes g)\<lparr>chunks := [(key, \<lparr>data = Uint8Array_from arr, mesh = None\<rparr>)]\<rparr>)"
proof -
  from assms(2) obtain cx cz where p: "parse_key key = Some (cx, cz)"
    by (auto simp: canonical_key_def split: option.splits)
  have "mesh_faces cs cx cz (Uint8Array_from arr) = Inl TypeError" for cs
    using assms(3) by (intro mesh_faces_short) simp
  then show ?thesis
    using assms(1) p by (simp add: loadWorld_def Let_def buildChunkMesh_def)
qed

lemma loadWorld_long:
  assumes "storage g = Some [(key, arr)]" and "canonical_key key"
    and "6144 \<le> length arr" and "\<forall>v \<in> set arr. 0 \<le> v \<and> v \<le> 6"
  shows "\<exists>g'. loadWorld g = Done g' \<and> block_arrays (chunks g') = [(key, Uint8Array_from arr)]"
proof -
  from assms(2) obtain cx cz where p: "parse_key key = Some (cx, cz)" "getChunkKey cx cz = key"
    by (auto simp: canonical_key_def split: option.splits)
  let ?c = "\<lparr>data = Uint8Array_from arr, mesh = None\<rparr>"
  let ?g1 = "(clear_meshes g)\<lparr>chunks := [(key, ?c)]\<rparr>"
  have r: "readable_data (Uint8Array_from arr)"
    using assms(3) Uint8Array_from_ids[OF assms(4)]
    by (simp add: readable_data_def CHUNK_SIZE_def CHUNK_HEIGHT_def)
  have "map_of (chunks ?g1) (getChunkKey cx cz) = Some ?c" by (simp add: p(2))
  from buildChunkMesh_readable[OF r this] obtain g2 where
    "buildChunkMesh cx cz (Uint8Array_from arr) ?g1 = Done g2"
    "block_arrays (chunks g2) = block_arrays (chunks ?g1)" by blast
  then show ?thesis
    using assms(1) p(1) by (simp add: loadWorld_def Let_def block_arrays_def)
qed

lemma clear_meshes_lone: "clear_meshes (lone_chunk_game\<lparr>storage := s\<rparr>) = lone_chunk_game\<lparr>storage := s\<rparr>"
  by (simp add: clear_meshes_def lone_chunk_game_def lone_chunks_def scene_remove_def)

lemma canonical_origin: "canonical_key ''0,0''"
  using canonical_getChunkKey[of 0 0] by (simp add: key_examples)

text \<open>
  Claim C5 as stated fails. With a saved array of 100 entries \<^verbatim>\<open>loadWorld\<close> checks no
  length: it replaces the world map by one that holds the 100-entry array as the chunk's data,
  and the exception is the TypeError of the mesh build that follows, whose block queries into
  that chunk read beyond the array (the cell above the first one is undefined). With a saved
  array of 6145 entries it returns normally and keeps an array of that length.
\<close>

theorem load_short_array_counterexample:
  "loadWorld short_save_game =
     Threw TypeError (short_save_game\<lparr>chunks := [(''0,0'', \<lparr>data = replicate 100 STONE, mesh = None\<rparr>)]\<rparr>) \<and>
   getBlock [(''0,0'', \<lparr>data = replicate 100 STONE, mesh = None\<rparr>)] 0 0 0 1 0 = None \<and>
   is_done (loadWorld long_save_game) \<and>
   map (length \<circ> snd) (block_arrays (chunks (outcome_game (loadWorld long_save_game)))) = [6145]"
proof -
  have u: "Uint8Array_from (replicate n (int STONE)) = replicate n STONE" for n
    by (simp add: Uint8Array_from_def STONE_def)
  have a: "loadWorld short_save_game =
     Threw TypeError (short_save_game\<lparr>chunks := [(''0,0'', \<lparr>data = replicate 100 STONE, mesh = None\<rparr>)]\<rparr>)"
    using loadWorld_short[of short_save_game "''0,0''" "replicate 100 (int STONE)" "[]", OF _ canonical_origin]
    by (simp add: short_save_game_def clear_meshes_lone u)
  have b: "getBlock [(''0,0'', \<lparr>data = replicate 100 STONE, mesh = None\<rparr>)] 0 0 0 1 0 = None"
    by (simp add: getBlock_def key_examples CHUNK_SIZE_def CHUNK_HEIGHT_def cell_index_def u8_get_def)
  have ids: "\<forall>v \<in> set (replicate 6145 (int STONE)). 0 \<le> v \<and> v \<le> 6"
    by (simp add: STONE_def)
  from loadWorld_long[of long_save_game "''0,0''" "replicate 6145 (int STONE)", OF _ canonical_origin _ ids]
  obtain g' where "loadWorld long_save_game = Done g'"
    "block_arrays (chunks g') = [(''0,0'', replicate 6145 STONE)]"
    by (auto simp: long_save_game_def u)
  then have "is_done (loadWorld long_save_game)"
    "map (length \<circ> snd) (block_arrays (chunks (outcome_game (loadWorld long_save_game)))) = [6145]"
    by simp_all
  with a b show ?thesis by simp
qed

lemma load_entries_append:
  "load_entries (xs @ ys) g =
     (case load_entries xs g of Threw e g' \<Rightarrow> Threw e g' | Done g1 \<Rightarrow> load_entries ys g1)"
proof (induction xs arbitrary: g)
  case Nil
  show ?case by simp
next
  case (Cons x xs)
  obtain k arr where x: "x = (k, arr)" by (cases x)
  show ?case
    unfolding x append_Cons load_entries.simps Let_def
    by (simp add: Cons.IH split: option.splits outcome.splits prod.splits)
qed

lemma load_entries_short:
  assumes "canonical_key key" and "length arr < 6144" and "key \<notin> fst ` set (chunks g)"
  shows "load_entries ((key, arr) # rest) g =
           Threw TypeError (g\<lparr>chunks := chunks g @ [(key, \<lparr>data = Uint8Array_from arr, mesh = None\<rparr>)]\<rparr>)"
proof -
  from assms(1) obtain cx cz where p: "parse_key key = Some (cx, cz)"
    by (auto simp: canonical_key_def split: option.splits)
  have "mesh_faces cs cx cz (Uint8Array_from arr) = Inl TypeError" for cs
    using assms(2) by (intro mesh_faces_short) simp
  then show ?thesis
    using p by (simp add: Let_def buildChunkMesh_def update_fresh[OF assms(3)])
qed

lemma keys_installed: "map fst (installed es) = map fst es"
  by (simp add: installed_def case_prod_unfold)

text \<open>
  Claim C5, amended. \<^verbatim>\<open>loadWorld\<close> validates the length of no saved array: each one becomes
  a chunk's data with its length unchanged, after the loaded chunks have been cleared. For a
  saved object with distinct keys: when every entry has the key of integer chunk coordinates
  and an array of at least 16 * 16 * 24 ids between 0 and 6, the load completes and the world
  map holds exactly the saved entries, in order, longer arrays at their full length; when an
  entry, under such a key too, has an array shorter than 16 * 16 * 24 and the entries before it
  are as above, the load ends at that entry in the TypeError raised by the mesh build, and the
  world map holds the entries before it followed by the short array itself.
\<close>

theorem loadWorld_installs_unvalidated:
  assumes "storage g = Some saved" and "distinct (map fst saved)"
  shows "map (length \<circ> snd) (installed saved) = map (length \<circ> snd) saved \<and>
         ((\<forall>e \<in> set saved. loadable e) \<longrightarrow>
            (\<exists>g'. loadWorld g = Done g' \<and> block_arrays (chunks g') = installed saved)) \<and>
         (\<forall>pre key arr rest.
            saved = pre @ (key, arr) # rest \<and> (\<forall>e \<in> set pre. loadable e) \<and> canonical_key key \<and>
            int (length arr) < CHUNK_SIZE * CHUNK_HEIGHT * CHUNK_SIZE \<longrightarrow>
            (\<exists>g'. loadWorld g = Threw TypeError g' \<and>
                  block_arrays (chunks g') = installed pre @ [(key, Uint8Array_from arr)]))"
proof (intro conjI impI allI)
  show "map (length \<circ> snd) (installed saved) = map (length \<circ> snd) saved"
    by (simp add: installed_def comp_def case_prod_unfold)
next
  let ?g1 = "(clear_meshes g)\<lparr>chunks := []\<rparr>"
  assume "\<forall>e \<in> set saved. loadable e"
  from load_entries_loadable[OF assms(2) this, of ?g1] obtain g' where
    g': "load_entries saved ?g1 = Done g'" "block_arrays (chunks g') = installed saved"
    by (auto simp: block_arrays_def)
  have "loadWorld g = Done (g'\<lparr>alerts := alerts g' @ [''World Loaded!'']\<rparr>)"
    using g'(1) assms(1) by (simp add: loadWorld_def Let_def)
  with g'(2) show "\<exists>g'. loadWorld g = Done g' \<and> block_arrays (chunks g') = installed saved" by simp
next
  fix pre key arr rest
  let ?g1 = "(clear_meshes g)\<lparr>chunks := []\<rparr>"
  assume a: "saved = pre @ (key, arr) # rest \<and> (\<forall>e \<in> set pre. loadable e) \<and> canonical_key key \<and>
            int (length arr) < CHUNK_SIZE * CHUNK_HEIGHT * CHUNK_SIZE"
  then have sv: "saved = pre @ (key, arr) # rest" and lp: "\<forall>e \<in> set pre. loadable e"
    and can: "canonical_key key" and len: "length arr < 6144"
    by (simp_all add: CHUNK_SIZE_def CHUNK_HEIGHT_def)
  from assms(2) have dp: "distinct (map fst pre)" and fresh: "key \<notin> fst ` set pre"
    unfolding sv by auto
  from load_entries_loadable[OF dp lp, of ?g1] obtain g2 where
    g2: "load_entries pre ?g1 = Done g2" "block_arrays (chunks g2) = installed pre"
    by (auto simp: block_arrays_def)
  have "map fst (chunks g2) = map fst pre"
    using keys_block_arrays[of "chunks g2"] g2(2) by (simp add: keys_installed)
  then have "set (map fst (chunks g2)) = set (map fst pre)" by simp
  with fresh have fr2: "key \<notin> fst ` set (chunks g2)" by simp
  let ?g3 = "g2\<lparr>chunks := chunks g2 @ [(key, \<lparr>data = Uint8Array_from arr, mesh = None\<rparr>)]\<rparr>"
  have "load_entries saved ?g1 = Threw TypeError ?g3"
    unfolding sv load_entries_append g2(1) using load_entries_short[OF can len fr2, of rest] by simp
  then have "loadWorld g = Threw TypeError ?g3"
    using assms(1) by (simp add: loadWorld_def Let_def)
  moreover have "block_arrays (chunks ?g3) = installed pre @ [(key, Uint8Array_from arr)]"
    using g2(2) by (simp add: block_arrays_def)
  ultimately show "\<exists>g'. loadWorld g = Threw TypeError g' \<and>
      block_arrays (chunks g') = installed pre @ [(key, Uint8Array_from arr)]" by blast
qed

text \<open>
  A saved array of 6145 entries loads; one of 100 entries ends the load, whether it is the
  only entry or comes after another one, which then stays installed.
\<close>

theorem loadWorld_installs_unvalidated_witness:
  "(\<exists>g'. loadWorld long_save_game = Done g' \<and>
      block_arrays (chunks g') = [(''0,0'', replicate 6145 STONE)]) \<and>
   (\<exists>g'. loadWorld short_save_game = Threw TypeError g' \<and>
      block_arrays (chunks g') = [(''0,0'', replicate 100 STONE)]) \<and>
   (\<exists>g'. loadWorld mixed_save_game = Threw TypeError g' \<and>
      block_arrays (chunks g') = [(''0,0'', replicate 6145 STONE), (''1,0'', replicate 100 STONE)])"
proof -
  have u: "Uint8Array_from (replicate n (int STONE)) = replicate n STONE" for n
    by (simp add: Uint8Array_from_def STONE_def)
  have i1: "installed [(''0,0'', replicate 6145 (int STONE))] = [(''0,0'', replicate 6145 STONE)]"
    by (simp add: installed_def u)
  have l: "loadable (''0,0'', replicate 6145 (int STONE))"
    by (simp add: loadable_def canonical_origin CHUNK_SIZE_def CHUNK_HEIGHT_def STONE_def)
  then have la: "\<forall>e \<in> set [(''0,0'', replicate 6145 (int STONE))]. loadable e" by simp
  have c: "canonical_key ''1,0''" using canonical_getChunkKey[of 1 0] by (simp add: key_examples)
  have sh: "int (length (replicate 100 (int STONE))) < CHUNK_SIZE * CHUNK_HEIGHT * CHUNK_SIZE"
    by (simp add: CHUNK_SIZE_def CHUNK_HEIGHT_def)
  have s1: "storage long_save_game = Some [(''0,0'', replicate 6145 (int STONE))]"
    by (simp add: long_save_game_def)
  have s2: "storage short_save_game = Some [(''0,0'', replicate 100 (int STONE))]"
    by (simp add: short_save_game_def)
  have s3: "storage mixed_save_game =
      Some [(''0,0'', replicate 6145 (int STONE)), (''1,0'', replicate 100 (int STONE))]"
    by (simp add: mixed_save_game_def)
  have d1: "distinct (map fst [(''0,0'', x)])" for x :: "int list" by simp
  have d3: "distinct (map fst [(''0,0'', x), (''1,0'', y)])" for x y :: "int list" by simp
  have e2: "[(''0,0'', replicate 100 (int STONE))] = [] @ (''0,0'', replicate 100 (int STONE)) # []"
    by simp
  have e3: "[(''0,0'', replicate 6145 (int STONE)), (''1,0'', replicate 100 (int STONE))] =
      [(''0,0'', replicate 6145 (int STONE))] @ (''1,0'', replicate 100 (int STONE)) # []"
    by simp
  have n: "\<forall>e \<in> set ([] :: (string \<times> int list) list). loadable e" by simp
  note t1 = loadWorld_installs_unvalidated[OF s1 d1, THEN conjunct2, THEN conjunct1, THEN mp, OF la]
  note t2 = loadWorld_installs_unvalidated[OF s2 d1, THEN conjunct2, THEN conjunct2,
      THEN spec[where x = "[]"], THEN spec[where x = "''0,0''"],
      THEN spec[where x = "replicate 100 (int STONE)"], THEN spec[where x = "[]"], THEN mp,
      OF conjI[OF e2 conjI[OF n conjI[OF canonical_origin sh]]]]
  note t3 = loadWorld_installs_unvalidated[OF s3 d3, THEN conjunct2, THEN conjunct2,
      THEN spec[where x = "[(''0,0'', replicate 6145 (int STONE))]"], THEN spec[where x = "''1,0''"],
      THEN spec[where x = "replicate 100 (int STONE)"], THEN spec[where x = "[]"], THEN mp,
      OF conjI[OF e3 conjI[OF la conjI[OF c sh]]]]
  from t1 have 1: "\<exists>g'. loadWorld long_save_game = Done g' \<and>
      block_arrays (chunks g') = [(''0,0'', replicate 6145 STONE)]"
    unfolding i1 .
  from t2 have 2: "\<exists>g'. loadWorld short_save_game = Threw TypeError g' \<and>
      block_arrays (chunks g') = [(''0,0'', replicate 100 STONE)]"
    by (simp add: installed_def u)
  from t3 have 3: "\<exists>g'. loadWorld mixed_save_game = Threw TypeError g' \<and>
      block_arrays (chunks g') = [(''0,0'', replicate 6145 STONE), (''1,0'', replicate 100 STONE)]"
    unfolding i1 by (simp add: u)
  from 1 2 3 show ?thesis by (intro conjI)
qed

section \<open>Physics: proofs\<close>

lemma moveVec_idle: "moveInput g = (0, 0) \<Longrightarrow> moveVec dt g = (0, 0, 0)"
proof -
  assume m: "moveInput g = (0, 0)"
  obtain fx fy fz where f: "flat_axis (0, 0, - 1) (camera_quaternion g) = (fx, fy, fz)"
    by (cases "flat_axis (0, 0, - 1) (camera_quaternion g)") auto
  obtain rx ry rz where r: "flat_axis (1, 0, 0) (camera_quaternion g) = (rx, ry, rz)"
    by (cases "flat_axis (1, 0, 0) (camera_quaternion g)") auto
  show ?thesis by (simp add: moveVec_def Let_def m f r addScaledVector_def)
qed

lemma flat_data_nth:
  "i < 6144 \<Longrightarrow> flat_data ! i = (if i < 1280 then STONE else if i < 1536 then GRASS else AIR)"
  unfolding flat_data_def by (subst nth_map) simp_all

lemma flat_data_grass: "u8_get flat_data (cell_index 15 5 8) = Some GRASS"
proof -
  have "cell_index 15 5 8 = 1423" by (simp add: cell_index_def CHUNK_SIZE_def)
  moreover have "length flat_data = 6144" by (simp add: flat_data_def)
  moreover have "flat_data ! 1423 = GRASS" by (subst flat_data_nth) simp_all
  ultimately show ?thesis by (simp add: u8_get_def)
qed

lemma coords_eight: "chunk_coord 8 = 0" "local_coord 8 = 8"
proof -
  show c: "chunk_coord 8 = 0"
    by (simp add: chunk_coord_def CHUNK_SIZE_def fdiv_def rd_eval)
  show "local_coord 8 = 8"
    by (simp add: local_coord_def c CHUNK_SIZE_def fsub_def fmul_def rd_small)
qed

text \<open>A step over a column that the ground test finds empty at every height.\<close>

lemma updatePhysics_air:
  assumes m: "moveInput s = (0, 0)" and p: "cam_position s = (px, py, pz)" and v: "velocity s = (vx, vy, vz)"
    and d: "rd px = px" "rd pz = pz"
    and a: "\<And>ly. getBlock (chunks s) (chunk_coord px) (chunk_coord pz) (local_coord px) ly (local_coord pz) = Some AIR"
  shows "chunks (updatePhysics dt s) = chunks s \<and> moveInput (updatePhysics dt s) = (0, 0) \<and>
         \<not> onGround (updatePhysics dt s) \<and>
         (\<exists>y. cam_position (updatePhysics dt s) = (px, y, pz) \<or> cam_position (updatePhysics dt s) = (0, y, 0))"
proof -
  define y where "y = fadd (fadd py 0) (fmul (fsub vy (fmul GRAVITY dt)) dt)"
  have "updatePhysics dt s =
      (if y < - 10
       then s\<lparr>cam_position := (0, 30, 0), velocity := (0, 0, 0), onGround := False\<rparr>
       else s\<lparr>cam_position := (px, y, pz), velocity := (vx, fsub vy (fmul GRAVITY dt), vz), onGround := False\<rparr>)"
    by (simp add: updatePhysics_def moveVec_idle[OF m] p v Let_def fadd_def[of px] fadd_def[of pz] d a y_def)
  then show ?thesis using m by auto
qed

text \<open>
  In the world of the flat chunk at \<open>(-1, 0)\<close>, the ground test finds Air at every height both
  at \<open>x = -2^-60\<close>, \<open>z = 8\<close>, where the local x is 16, and at the respawn point \<open>x = 0\<close>,
  \<open>z = 0\<close>, whose chunk is not loaded.
\<close>

lemma edge_chunks: "chunks (edge_game x y) = [(''-1,0'', \<lparr>data = flat_data, mesh = None\<rparr>)]"
  by (simp add: edge_game_def key_examples)

lemma edge_air:
  "getBlock (chunks (edge_game x y)) (chunk_coord sliver_x) (chunk_coord 8) (local_coord sliver_x) ly (local_coord 8) = Some AIR"
  "getBlock (chunks (edge_game x y)) (chunk_coord 0) (chunk_coord 0) (local_coord 0) ly (local_coord 0) = Some AIR"
  by (simp_all add: getBlock_def edge_chunks coords_sliver coords_eight coords_zero key_examples CHUNK_SIZE_def)

lemma never_grounded:
  "chunks ((updatePhysics dt ^^ n) (edge_game sliver_x 30)) = chunks (edge_game sliver_x 30) \<and>
   moveInput ((updatePhysics dt ^^ n) (edge_game sliver_x 30)) = (0, 0) \<and>
   \<not> onGround ((updatePhysics dt ^^ n) (edge_game sliver_x 30)) \<and>
   (\<exists>y. cam_position ((updatePhysics dt ^^ n) (edge_game sliver_x 30)) = (sliver_x, y, 8) \<or>
        cam_position ((updatePhysics dt ^^ n) (edge_game sliver_x 30)) = (0, y, 0))"
proof (induction n)
  case 0
  show ?case by (simp add: edge_game_def initial_game_def)
next
  case (Suc n)
  define s where "s = (updatePhysics dt ^^ n) (edge_game sliver_x 30)"
  from Suc have c: "chunks s = chunks (edge_game sliver_x 30)" and m: "moveInput s = (0, 0)"
    and q: "\<exists>y. cam_position s = (sliver_x, y, 8) \<or> cam_position s = (0, y, 0)"
    by (simp_all add: s_def)
  obtain vx vy vz where v: "velocity s = (vx, vy, vz)" by (cases "velocity s") auto
  from q obtain y where "cam_position s = (sliver_x, y, 8) \<or> cam_position s = (0, y, 0)" by blast
  then have "chunks (updatePhysics dt s) = chunks s \<and> moveInput (updatePhysics dt s) = (0, 0) \<and>
         \<not> onGround (updatePhysics dt s) \<and>
         (\<exists>y. cam_position (updatePhysics dt s) = (sliver_x, y, 8) \<or> cam_position (updatePhysics dt s) = (0, y, 0))"
  proof
    assume p: "cam_position s = (sliver_x, y, 8)"
    from updatePhysics_air[OF m p v sliver_double, of dt] edge_air(1)[of sliver_x 30] c
    show ?thesis by (simp add: rd_small)
  next
    assume p: "cam_position s = (0, y, 0)"
    from updatePhysics_air[OF m p v, of dt] edge_air(2)[of sliver_x 30] c
    show ?thesis by auto
  qed
  then show ?case using c by (simp add: s_def)
qed

lemma frame_dt_value: "frame_dt = 4611686018427388 / 2 ^ 58"
  by (simp add: frame_dt_def rd_eval)

lemma funpow_numeral_eval: "(f ^^ numeral k) x = (f ^^ pred_numeral k) (f x)"
  by (simp add: numeral_eq_Suc funpow_swap1)

lemmas fall_eval = funpow_numeral_eval fall_move_def fall_check_def feet_level_def fall_y_def fall_v_def
  GRAVITY_def frame_dt_value fadd_def fsub_def fmul_def rd_eval

lemma fall_21:
  "(fall_step ^^ 21) (True, 30, 0) = (True, 4014058347875323 / 2 ^ 47, - (2364389804369511 / 2 ^ 48))"
  by (simp add: fall_eval)

lemma fall_42:
  "(fall_step ^^ 21) (True, 4014058347875323 / 2 ^ 47, - (2364389804369511 / 2 ^ 48)) =
     (True, 426096819744591 / 2 ^ 44, - (2364389804369511 / 2 ^ 47))"
  by (simp add: fall_eval)

lemma fall_63:
  "(fall_step ^^ 21) (True, 426096819744591 / 2 ^ 44, - (2364389804369511 / 2 ^ 47)) =
     (True, 4812546561808113 / 2 ^ 48, - (1773292353277131 / 2 ^ 46))"
  by (simp add: fall_eval)

lemma fall_83:
  "(fall_step ^^ 20) (True, 4812546561808113 / 2 ^ 48, - (1773292353277131 / 2 ^ 46)) =
     (True, 8657719923657057 / 2 ^ 50, - (2336242306698441 / 2 ^ 46))"
  by (simp add: fall_eval)

lemma fall_83_steps:
  "(fall_step ^^ 83) (True, 30, 0) = (True, 8657719923657057 / 2 ^ 50, - (2336242306698441 / 2 ^ 46))"
proof -
  have "(fall_step ^^ (20 + (21 + (21 + 21)))) (True, 30, 0) =
      (True, 8657719923657057 / 2 ^ 50, - (2336242306698441 / 2 ^ 46))"
    unfolding funpow_add o_apply fall_21 fall_42 fall_63 fall_83 ..
  then show ?thesis by simp
qed

lemma landing_level:
  "feet_level (fall_y (8657719923657057 / 2 ^ 50) (fall_v (- (2336242306698441 / 2 ^ 46)))) = 5"
  by (simp add: fall_eval)

lemma rest_height: "fadd (fadd 5 1) (rd 1.6) = rd 7.6" "\<not> fadd (fadd 5 1) (rd 1.6) < - 10"
  by (simp_all add: fadd_def rd_eval)

lemma rest_level: "feet_level (fall_y (fadd (fadd 5 1) (rd 1.6)) (fall_v 0)) = 5"
  by (simp add: fall_eval)

text \<open>One step of a body with the stick at rest, over a double horizontal position.\<close>

lemma updatePhysics_idle:
  assumes "moveInput s = (0, 0)" and "cam_position s = (px, py, pz)" and "velocity s = (vx, vy, vz)"
    and "rd px = px" "rd pz = pz"
  shows "updatePhysics frame_dt s =
     (if getBlock (chunks s) (chunk_coord px) (chunk_coord pz) (local_coord px)
           (feet_level (fall_y py (fall_v vy))) (local_coord pz) \<noteq> Some AIR
      then (if fadd (fadd (real_of_int (feet_level (fall_y py (fall_v vy)))) 1) (rd 1.6) < - 10
            then s\<lparr>cam_position := (0, 30, 0), velocity := (0, 0, 0), onGround := True\<rparr>
            else s\<lparr>cam_position := (px, fadd (fadd (real_of_int (feet_level (fall_y py (fall_v vy)))) 1) (rd 1.6), pz),
                   velocity := (vx, 0, vz), onGround := True\<rparr>)
      else (if fall_y py (fall_v vy) < - 10
            then s\<lparr>cam_position := (0, 30, 0), velocity := (0, 0, 0), onGround := False\<rparr>
            else s\<lparr>cam_position := (px, fall_y py (fall_v vy), pz), velocity := (vx, fall_v vy, vz),
                   onGround := False\<rparr>))"
  by (simp add: updatePhysics_def moveVec_idle[OF assms(1)] assms(2,3) Let_def fadd_def[of px] fadd_def[of pz]
      assms(4,5) fall_y_def fall_v_def feet_level_def)

lemma air_step:
  assumes m: "moveInput s = (0, 0)" and p: "cam_position s = (px, py, pz)" and v: "velocity s = (vx, vy, vz)"
    and d: "rd px = px" "rd pz = pz"
    and air: "\<And>ly. 6 \<le> ly \<Longrightarrow>
      getBlock (chunks s) (chunk_coord px) (chunk_coord pz) (local_coord px) ly (local_coord pz) = Some AIR"
    and ok: "fall_step (True, py, vy) = (True, y', v')"
  shows "updatePhysics frame_dt s = s\<lparr>cam_position := (px, y', pz), velocity := (vx, v', vz), onGround := False\<rparr>"
proof -
  from ok have e: "y' = fall_y py (fall_v vy)" "v' = fall_v vy" and l: "6 \<le> feet_level y'" and k: "\<not> y' < - 10"
    by (auto simp: fall_move_def fall_check_def)
  from air[OF l] l k show ?thesis
    unfolding updatePhysics_idle[OF m p v d] e by simp
qed

lemma land_step:
  assumes m: "moveInput s = (0, 0)" and p: "cam_position s = (px, py, pz)" and v: "velocity s = (vx, vy, vz)"
    and d: "rd px = px" "rd pz = pz"
    and l: "feet_level (fall_y py (fall_v vy)) = ly"
    and b: "getBlock (chunks s) (chunk_coord px) (chunk_coord pz) (local_coord px) ly (local_coord pz) \<noteq> Some AIR"
    and k: "\<not> fadd (fadd (real_of_int ly) 1) (rd 1.6) < - 10"
  shows "updatePhysics frame_dt s =
           s\<lparr>cam_position := (px, fadd (fadd (real_of_int ly) 1) (rd 1.6), pz), velocity := (vx, 0, vz),
             onGround := True\<rparr>"
  using b k unfolding updatePhysics_idle[OF m p v d] l by simp

lemma fall_flag_lost: "fst ((fall_step ^^ n) (False, y, v)) = False"
proof (induction n arbitrary: y v)
  case 0
  show ?case by simp
next
  case (Suc n)
  have "fall_step (False, y, v) = (False, fall_y y (fall_v v), fall_v v)"
    by (simp add: fall_move_def fall_check_def)
  then show ?case using Suc[of "fall_y y (fall_v v)" "fall_v v"] by (simp add: funpow_swap1)
qed

lemma air_steps:
  assumes "moveInput s = (0, 0)" and "cam_position s = (px, py, pz)" and "velocity s = (vx, vy, vz)"
    and "rd px = px" "rd pz = pz" and "\<not> onGround s"
    and "\<And>ly. 6 \<le> ly \<Longrightarrow>
      getBlock (chunks s) (chunk_coord px) (chunk_coord pz) (local_coord px) ly (local_coord pz) = Some AIR"
    and "(fall_step ^^ n) (True, py, vy) = (True, y', v')"
  shows "(updatePhysics frame_dt ^^ n) s =
           s\<lparr>cam_position := (px, y', pz), velocity := (vx, v', vz), onGround := False\<rparr>"
  using assms
proof (induction n arbitrary: s py vy)
  case 0
  then show ?case by simp
next
  case (Suc n)
  obtain b y1 v1 where st: "fall_step (True, py, vy) = (b, y1, v1)"
    by (cases "fall_step (True, py, vy)") auto
  from Suc.prems(8) have r: "(fall_step ^^ n) (b, y1, v1) = (True, y', v')"
    unfolding funpow_Suc_right o_apply st .
  have b: "b"
  proof (rule ccontr)
    assume "\<not> b"
    with fall_flag_lost[of n y1 v1] r show False by simp
  qed
  define s1 where "s1 = s\<lparr>cam_position := (px, y1, pz), velocity := (vx, v1, vz), onGround := False\<rparr>"
  have 1: "updatePhysics frame_dt s = s1"
    unfolding s1_def using st b by (intro air_step[OF Suc.prems(1-5)] Suc.prems(7)) simp_all
  have "(updatePhysics frame_dt ^^ n) s1 =
           s1\<lparr>cam_position := (px, y', pz), velocity := (vx, v', vz), onGround := False\<rparr>"
    using Suc.prems(1,4,5,7) r b by (intro Suc.IH) (simp_all add: s1_def)
  then show ?case by (simp add: funpow_swap1 1 s1_def)
qed

lemma flat_data_air:
  assumes "6 \<le> y" "y < 24"
  shows "u8_get flat_data (cell_index 15 y 8) = Some AIR"
proof -
  have i: "cell_index 15 y 8 = y * 256 + 143" by (simp add: cell_index_def CHUNK_SIZE_def)
  from assms have b: "1536 \<le> nat (y * 256 + 143)" "nat (y * 256 + 143) < 6144" by simp_all
  then have "flat_data ! nat (y * 256 + 143) = AIR"
    by (subst flat_data_nth) simp_all
  moreover have "length flat_data = 6144" by (simp add: flat_data_def)
  ultimately show ?thesis using assms b by (simp add: u8_get_def i)
qed

lemma edge_column:
  "getBlock (chunks (edge_game x y)) (- 1) 0 15 5 8 = Some GRASS"
  "6 \<le> ly \<Longrightarrow> getBlock (chunks (edge_game x y)) (- 1) 0 15 ly 8 = Some AIR"
proof -
  show "getBlock (chunks (edge_game x y)) (- 1) 0 15 5 8 = Some GRASS"
    by (simp add: getBlock_def edge_chunks key_examples CHUNK_SIZE_def CHUNK_HEIGHT_def flat_data_grass)
  show "getBlock (chunks (edge_game x y)) (- 1) 0 15 ly 8 = Some AIR" if "6 \<le> ly"
    using that flat_data_air[of ly]
    by (simp add: getBlock_def edge_chunks key_examples CHUNK_SIZE_def CHUNK_HEIGHT_def)
qed

lemma rd_minus_one: "rd (- 1) = - 1"
  using rd_minus[of 1] by (simp add: rd_small)

lemma fall_to_rest:
  defines "f \<equiv> updatePhysics frame_dt"
  defines "r \<equiv> (edge_game (- 1) 30)\<lparr>cam_position := (- 1, fadd (fadd 5 1) (rd 1.6), 8),
                                     velocity := (0, 0, 0), onGround := True\<rparr>"
  shows "(f ^^ 84) (edge_game (- 1) 30) = r" and "f r = r" and "(f ^^ (84 + k)) (edge_game (- 1) 30) = r"
proof -
  let ?g = "edge_game (- 1) 30"
  define s where "s = ?g\<lparr>cam_position := (- 1, 8657719923657057 / 2 ^ 50, 8),
                         velocity := (0, - (2336242306698441 / 2 ^ 46), 0), onGround := False\<rparr>"
  have g: "moveInput ?g = (0, 0)" "cam_position ?g = (- 1, 30, 8)" "velocity ?g = (0, 0, 0)" "\<not> onGround ?g"
    by (simp_all add: edge_game_def initial_game_def)
  have air: "getBlock (chunks t) (chunk_coord (- 1)) (chunk_coord 8) (local_coord (- 1)) ly (local_coord 8) = Some AIR"
    if "chunks t = chunks ?g" "6 \<le> ly" for t ly
    using that edge_column(2)[of ly "- 1" 30] by (simp add: coords_minus_one coords_eight)
  have grass: "getBlock (chunks t) (chunk_coord (- 1)) (chunk_coord 8) (local_coord (- 1)) 5 (local_coord 8) \<noteq> Some AIR"
    if "chunks t = chunks ?g" for t
    using that edge_column(1)[of "- 1" 30] by (simp add: coords_minus_one coords_eight GRASS_def AIR_def)
  have a: "(f ^^ 83) ?g = s"
    unfolding f_def s_def
    by (rule air_steps[OF g(1,2,3) rd_minus_one rd_small(7) g(4) air fall_83_steps]) simp_all
  have s: "moveInput s = (0, 0)" "cam_position s = (- 1, 8657719923657057 / 2 ^ 50, 8)"
    "velocity s = (0, - (2336242306698441 / 2 ^ 46), 0)" "chunks s = chunks ?g"
    by (simp_all add: s_def g(1))
  have b: "f s = r"
    unfolding f_def using land_step[OF s(1,2,3) rd_minus_one rd_small(7) landing_level grass[OF s(4)]] rest_height(2)
    by (simp add: r_def s_def)
  have "(f ^^ 84) ?g = f ((f ^^ 83) ?g)" by (simp add: numeral_eq_Suc)
  with a b show r84: "(f ^^ 84) ?g = r" by simp
  have r: "moveInput r = (0, 0)" "cam_position r = (- 1, fadd (fadd 5 1) (rd 1.6), 8)"
    "velocity r = (0, 0, 0)" "chunks r = chunks ?g"
    by (simp_all add: r_def g(1))
  show fixed: "f r = r"
    unfolding f_def using land_step[OF r(1,2,3) rd_minus_one rd_small(7) rest_level grass[OF r(4)]] rest_height(2)
    by (simp add: r_def)
  show "(f ^^ (84 + k)) ?g = r"
  proof (induction k)
    case 0
    show ?case using r84 by simp
  next
    case (Suc k)
    have "(f ^^ (84 + Suc k)) ?g = f ((f ^^ (84 + k)) ?g)"
      by (simp only: add_Suc_right funpow.simps o_apply)
    with Suc fixed show ?case by simp
  qed
qed

lemma step_84_values:
  "fall_v (- (2336242306698441 / 2 ^ 46)) = - (4728779608739013 / 2 ^ 47)"
  "fall_y (8657719923657057 / 2 ^ 50) (- (4728779608739013 / 2 ^ 47)) = 8052436133738463 / 2 ^ 50"
  "\<not> (8052436133738463 / 2 ^ 50 :: real) < - 10"
  "(8052436133738463 / 2 ^ 50 :: real) < fadd (fadd 5 1) (rd 1.6)"
  by (simp_all add: fall_eval)

lemma sliver_fall_84:
  "(updatePhysics frame_dt ^^ 84) (edge_game sliver_x 30) =
     (edge_game sliver_x 30)\<lparr>cam_position := (sliver_x, 8052436133738463 / 2 ^ 50, 8),
                              velocity := (0, - (4728779608739013 / 2 ^ 47), 0), onGround := False\<rparr>"
proof -
  let ?g = "edge_game sliver_x 30"
  define f where "f = updatePhysics frame_dt"
  define s where "s = ?g\<lparr>cam_position := (sliver_x, 8657719923657057 / 2 ^ 50, 8),
                         velocity := (0, - (2336242306698441 / 2 ^ 46), 0), onGround := False\<rparr>"
  have g: "moveInput ?g = (0, 0)" "cam_position ?g = (sliver_x, 30, 8)" "velocity ?g = (0, 0, 0)" "\<not> onGround ?g"
    by (simp_all add: edge_game_def initial_game_def)
  have air: "getBlock (chunks t) (chunk_coord sliver_x) (chunk_coord 8) (local_coord sliver_x) ly (local_coord 8) = Some AIR"
    if "chunks t = chunks ?g" for t ly
    using that edge_air(1)[of sliver_x 30 ly] by simp
  have a: "(f ^^ 83) ?g = s"
    unfolding f_def s_def
    by (rule air_steps[OF g(1,2,3) sliver_double rd_small(7) g(4) air fall_83_steps]) simp
  have s: "moveInput s = (0, 0)" "cam_position s = (sliver_x, 8657719923657057 / 2 ^ 50, 8)"
    "velocity s = (0, - (2336242306698441 / 2 ^ 46), 0)" "chunks s = chunks ?g"
    by (simp_all add: s_def g(1))
  have b: "f s = ?g\<lparr>cam_position := (sliver_x, 8052436133738463 / 2 ^ 50, 8),
                       velocity := (0, - (4728779608739013 / 2 ^ 47), 0), onGround := False\<rparr>"
    unfolding f_def updatePhysics_idle[OF s(1,2,3) sliver_double rd_small(7)] step_84_values(1,2)
    using air[OF s(4)] step_84_values(3) by (simp add: s_def)
  have "(f ^^ 84) ?g = f ((f ^^ 83) ?g)" by (simp add: numeral_eq_Suc)
  with a b show ?thesis unfolding f_def by simp
qed

text \<open>
  Claim C2 describes a body that falls from \<open>y = 30\<close> onto a flat surface whose top block,
  Grass, is at height 5, and comes to rest with \<open>onGround\<close> set, zero velocity and
  \<open>y = 5 + 1 + 1.6\<close>. Over the flat chunk at \<open>(-1, 0)\<close>, with the steps of \<open>dt = 0.016\<close> made
  in double arithmetic:

  \<^item> from \<open>x = -1\<close> the program does this: after 84 steps the body is on the ground with zero
    velocity at \<open>y = 5 + 1 + 1.6\<close> (the double 7.6), a state that the step leaves unchanged, so
    that every later state is this one;

  \<^item> from \<open>x = -2^-60\<close>, a double over the same block column (world x \<open>-1\<close>, local x 15, with
    Grass at height 5), it does not: the ground test resolves the local x as 16, outside the
    chunk, and finds Air at every height. After the same 84 steps the body is below the
    resting height and still falling, and \<open>onGround\<close> is never set, neither during the fall
    nor after the kill plane has moved the body to \<open>(0, 30, 0)\<close>.
\<close>

theorem fall_misses_surface_block:
  "(let f = updatePhysics frame_dt; rest = (f ^^ 84) (edge_game (- 1) 30)
    in onGround rest \<and> velocity rest = (0, 0, 0) \<and>
       cam_position rest = (- 1, fadd (fadd 5 1) (rd 1.6), 8) \<and> fadd (fadd 5 1) (rd 1.6) = rd 7.6 \<and>
       f rest = rest \<and> (\<forall>k. (f ^^ (84 + k)) (edge_game (- 1) 30) = rest)) \<and>
   rd sliver_x = sliver_x \<and> \<lfloor>sliver_x\<rfloor> = - 1 \<and>
   getBlock (chunks (edge_game sliver_x 30)) (- 1) 0 15 5 8 = Some GRASS \<and>
   chunk_coord sliver_x = - 1 \<and> local_coord sliver_x = 16 \<and>
   (\<forall>ly. getBlock (chunks (edge_game sliver_x 30)) (- 1) 0 16 ly 8 = Some AIR) \<and>
   (let fallen = (updatePhysics frame_dt ^^ 84) (edge_game sliver_x 30)
    in cam_position fallen = (sliver_x, 8052436133738463 / 2 ^ 50, 8) \<and>
       8052436133738463 / 2 ^ 50 < fadd (fadd 5 1) (rd 1.6) \<and>
       velocity fallen = (0, - (4728779608739013 / 2 ^ 47), 0) \<and> \<not> onGround fallen) \<and>
   (\<forall>n. \<not> onGround ((updatePhysics frame_dt ^^ n) (edge_game sliver_x 30)))"
proof -
  define f where "f = updatePhysics frame_dt"
  define r where "r = (edge_game (- 1) 30)\<lparr>cam_position := (- 1, fadd (fadd 5 1) (rd 1.6), 8),
                                          velocity := (0, 0, 0), onGround := True\<rparr>"
  note ftr = fall_to_rest[folded f_def, folded r_def]
  have "onGround r" "velocity r = (0, 0, 0)" "cam_position r = (- 1, fadd (fadd 5 1) (rd 1.6), 8)"
    by (simp_all add: r_def)
  with ftr(2) ftr(3) rest_height(1)
  have 1: "let f = updatePhysics frame_dt; rest = (f ^^ 84) (edge_game (- 1) 30)
    in onGround rest \<and> velocity rest = (0, 0, 0) \<and>
       cam_position rest = (- 1, fadd (fadd 5 1) (rd 1.6), 8) \<and> fadd (fadd 5 1) (rd 1.6) = rd 7.6 \<and>
       f rest = rest \<and> (\<forall>k. (f ^^ (84 + k)) (edge_game (- 1) 30) = rest)"
    unfolding Let_def f_def[symmetric] ftr(1) by simp
  have 2: "\<lfloor>sliver_x\<rfloor> = - 1" by (simp add: sliver_x_def floor_eq_iff)
  have 3: "getBlock (chunks (edge_game sliver_x 30)) (- 1) 0 16 ly 8 = Some AIR" for ly
    by (simp add: getBlock_def edge_chunks key_examples CHUNK_SIZE_def)
  have 4: "let fallen = (updatePhysics frame_dt ^^ 84) (edge_game sliver_x 30)
    in cam_position fallen = (sliver_x, 8052436133738463 / 2 ^ 50, 8) \<and>
       8052436133738463 / 2 ^ 50 < fadd (fadd 5 1) (rd 1.6) \<and>
       velocity fallen = (0, - (4728779608739013 / 2 ^ 47), 0) \<and> \<not> onGround fallen"
    unfolding Let_def sliver_fall_84 using step_84_values(4) by simp
  from never_grounded[where dt = frame_dt] have 5: "\<not> onGround ((updatePhysics frame_dt ^^ n) (edge_game sliver_x 30))" for n
    by simp
  from 1 sliver_double 2 edge_column(1)[of sliver_x 30] coords_sliver 3 4 5 show ?thesis by blast
qed

section \<open>Camera axes: proofs\<close>

lemma half_angle:
  fixes a :: real
  shows "sin a = 2 * sin (a / 2) * cos (a / 2)" "cos a = (cos (a / 2))\<^sup>2 - (sin (a / 2))\<^sup>2"
    "(sin (a / 2))\<^sup>2 + (cos (a / 2))\<^sup>2 = 1"
  using sin_double[of "a / 2"] cos_double[of "a / 2"] by simp_all

lemma forward_XYZ:
  "applyQuaternion (0, 0, - 1) (setFromEuler_XYZ p y 0) = (- sin y, cos y * sin p, - (cos y * cos p))"
proof -
  define s1 c1 s2 c2 where "s1 = sin (p / 2)" "c1 = cos (p / 2)" "s2 = sin (y / 2)" "c2 = cos (y / 2)"
  have u1: "s1\<^sup>2 + c1\<^sup>2 = 1" and u2: "s2\<^sup>2 + c2\<^sup>2 = 1"
    unfolding s1_c1_s2_c2_def by (rule half_angle(3))+
  have e: "sin y = 2 * s2 * c2" "cos y = c2\<^sup>2 - s2\<^sup>2" "sin p = 2 * s1 * c1" "cos p = c1\<^sup>2 - s1\<^sup>2"
    unfolding s1_c1_s2_c2_def by (rule half_angle(1) half_angle(2))+
  have q: "setFromEuler_XYZ p y 0 = (s1 * c2, c1 * s2, s1 * s2, c1 * c2)"
    by (simp add: setFromEuler_XYZ_def Let_def s1_c1_s2_c2_def)
  have x: "- (c1 * s2) * (c1 * c2) + s1 * s2 * - (s1 * c2) + s1 * c2 * - (s1 * s2) - - (c1 * c2) * - (c1 * s2) =
      - (2 * s2 * c2)"
    using u1 by algebra
  have yy: "s1 * c2 * (c1 * c2) + s1 * s2 * - (c1 * s2) + - (c1 * c2) * - (s1 * c2) - - (c1 * s2) * - (s1 * s2) =
      (c2\<^sup>2 - s2\<^sup>2) * (2 * s1 * c1)"
    by algebra
  have z: "- (c1 * c2) * (c1 * c2) + s1 * s2 * - (s1 * s2) + - (c1 * s2) * - (c1 * s2) - s1 * c2 * - (s1 * c2) =
      - ((c2\<^sup>2 - s2\<^sup>2) * (c1\<^sup>2 - s1\<^sup>2))"
    by algebra
  have "applyQuaternion (0, 0, - 1) (s1 * c2, c1 * s2, s1 * s2, c1 * c2) =
      (- (c1 * s2) * (c1 * c2) + s1 * s2 * - (s1 * c2) + s1 * c2 * - (s1 * s2) - - (c1 * c2) * - (c1 * s2),
       s1 * c2 * (c1 * c2) + s1 * s2 * - (c1 * s2) + - (c1 * c2) * - (s1 * c2) - - (c1 * s2) * - (s1 * s2),
       - (c1 * c2) * (c1 * c2) + s1 * s2 * - (s1 * s2) + - (c1 * s2) * - (c1 * s2) - s1 * c2 * - (s1 * c2))"
    by (simp add: applyQuaternion_def Let_def)
  then show ?thesis unfolding q e x yy z .
qed

lemma right_XYZ:
  "applyQuaternion (1, 0, 0) (setFromEuler_XYZ p y 0) = (cos y, sin y * sin p, - (sin y * cos p))"
proof -
  define s1 c1 s2 c2 where "s1 = sin (p / 2)" "c1 = cos (p / 2)" "s2 = sin (y / 2)" "c2 = cos (y / 2)"
  have u1: "s1\<^sup>2 + c1\<^sup>2 = 1" and u2: "s2\<^sup>2 + c2\<^sup>2 = 1"
    unfolding s1_c1_s2_c2_def by (rule half_angle(3))+
  have e: "sin y = 2 * s2 * c2" "cos y = c2\<^sup>2 - s2\<^sup>2" "sin p = 2 * s1 * c1" "cos p = c1\<^sup>2 - s1\<^sup>2"
    unfolding s1_c1_s2_c2_def by (rule half_angle(1) half_angle(2))+
  have q: "setFromEuler_XYZ p y 0 = (s1 * c2, c1 * s2, s1 * s2, c1 * c2)"
    by (simp add: setFromEuler_XYZ_def Let_def s1_c1_s2_c2_def)
  have x: "c1 * c2 * (c1 * c2) + - (s1 * c2) * - (s1 * c2) + s1 * s2 * - (s1 * s2) - - (c1 * s2) * - (c1 * s2) =
      c2\<^sup>2 - s2\<^sup>2"
    using u1 by algebra
  have yy: "s1 * s2 * (c1 * c2) + - (s1 * c2) * - (c1 * s2) + - (c1 * s2) * - (s1 * c2) - c1 * c2 * - (s1 * s2) =
      2 * s2 * c2 * (2 * s1 * c1)"
    by algebra
  have z: "- (c1 * s2) * (c1 * c2) + - (s1 * c2) * - (s1 * s2) + c1 * c2 * - (c1 * s2) - s1 * s2 * - (s1 * c2) =
      - (2 * s2 * c2 * (c1\<^sup>2 - s1\<^sup>2))"
    by algebra
  have "applyQuaternion (1, 0, 0) (s1 * c2, c1 * s2, s1 * s2, c1 * c2) =
      (c1 * c2 * (c1 * c2) + - (s1 * c2) * - (s1 * c2) + s1 * s2 * - (s1 * s2) - - (c1 * s2) * - (c1 * s2),
       s1 * s2 * (c1 * c2) + - (s1 * c2) * - (c1 * s2) + - (c1 * s2) * - (s1 * c2) - c1 * c2 * - (s1 * s2),
       - (c1 * s2) * (c1 * c2) + - (s1 * c2) * - (s1 * s2) + c1 * c2 * - (c1 * s2) - s1 * s2 * - (s1 * c2))"
    by (simp add: applyQuaternion_def Let_def)
  then show ?thesis unfolding q e x yy z .
qed

lemma flat_forward_XYZ:
  "flat_axis (0, 0, - 1) (setFromEuler_XYZ p y 0) = normalize3 (- sin y, 0, - (cos y * cos p))"
  by (simp add: flat_axis_def forward_XYZ)

lemma flat_right_XYZ:
  "flat_axis (1, 0, 0) (setFromEuler_XYZ p y 0) = normalize3 (cos y, 0, - (sin y * cos p))"
  by (simp add: flat_axis_def right_XYZ)

lemma sqrt_13_16: "sqrt (13 / 16) = sqrt 13 / 4"
proof -
  have "sqrt (13 / 16) = sqrt 13 / sqrt 16" by (rule real_sqrt_divide)
  also have "sqrt 16 = sqrt (4\<^sup>2)" by simp
  also have "\<dots> = 4" by (simp del: power2_eq_square)
  finally show ?thesis .
qed

lemma normalize_level: "normalize3 (- (sqrt 3 / 2), 0, - (1 / 2)) = (- (sqrt 3 / 2), 0, - (1 / 2))"
proof -
  have "sqrt 3 / 2 * (sqrt 3 / 2) + 1 / 2 * (1 / 2) = (1 :: real)" by simp
  then have "sqrt (- (sqrt 3 / 2) * - (sqrt 3 / 2) + 0 * 0 + - (1 / 2) * - (1 / 2)) = 1" by simp
  then show ?thesis unfolding normalize3_def Let_def by simp
qed

lemma normalize_tilted:
  "normalize3 (- (sqrt 3 / 2), 0, - (1 / 4)) = (- (2 * sqrt 3 / sqrt 13), 0, - (1 / sqrt 13))"
proof -
  have "sqrt 3 / 2 * (sqrt 3 / 2) + 1 / 4 * (1 / 4) = (13 / 16 :: real)" by simp
  then have l: "sqrt (- (sqrt 3 / 2) * - (sqrt 3 / 2) + 0 * 0 + - (1 / 4) * - (1 / 4)) = sqrt 13 / 4"
    using sqrt_13_16 by simp
  have nz: "sqrt 13 / 4 \<noteq> (0 :: real)" by simp
  show ?thesis unfolding normalize3_def Let_def prod.case l using nz by (simp add: field_simps)
qed

text \<open>
  Claim C4 says that two physics steps that differ only in the pitch move the body
  horizontally by the same vector. Evaluated at a yaw of 60 degrees with the stick pushed
  forward and \<open>dt = 0.016\<close>: at pitch 0 the displacement \<open>moveVec\<close> points along
  \<open>(- sqrt 3 / 2, 0, - 1 / 2)\<close>, at a pitch of 60 degrees along
  \<open>(- 2 sqrt 3 / sqrt 13, 0, - 1 / sqrt 13)\<close>; the two displacements differ. The camera's
  quaternion is built in the Euler order \<open>XYZ\<close>, so the yaw turns about the pitched axis and
  the horizontal projection of the look direction is \<open>(- sin yaw, 0, - cos yaw * cos pitch)\<close>.
\<close>

theorem pitch_changes_direction:
  "moveVec 0.016 (tilted_game 0) = (- (sqrt 3 / 2) * 0.096, 0, - (1 / 2) * 0.096) \<and>
   moveVec 0.016 (tilted_game (pi / 3)) = (- (2 * sqrt 3 / sqrt 13) * 0.096, 0, - (1 / sqrt 13) * 0.096) \<and>
   moveVec 0.016 (tilted_game 0) \<noteq> moveVec 0.016 (tilted_game (pi / 3))"
proof -
  have q: "camera_quaternion (tilted_game p) = setFromEuler_XYZ p (pi / 3) 0" for p
    by (simp add: camera_quaternion_def tilted_game_def)
  have m: "moveInput (tilted_game p) = (0, - 1)" for p by (simp add: tilted_game_def)
  have f0: "flat_axis (0, 0, - 1) (setFromEuler_XYZ 0 (pi / 3) 0) = (- (sqrt 3 / 2), 0, - (1 / 2))"
    unfolding flat_forward_XYZ by (simp add: sin_60 cos_60 normalize_level)
  have f1: "flat_axis (0, 0, - 1) (setFromEuler_XYZ (pi / 3) (pi / 3) 0) = (- (2 * sqrt 3 / sqrt 13), 0, - (1 / sqrt 13))"
    unfolding flat_forward_XYZ by (simp add: sin_60 cos_60 normalize_tilted)
  obtain r0x r0y r0z where r0: "flat_axis (1, 0, 0) (setFromEuler_XYZ 0 (pi / 3) 0) = (r0x, r0y, r0z)"
    by (cases "flat_axis (1, 0, 0) (setFromEuler_XYZ 0 (pi / 3) 0)") auto
  obtain r1x r1y r1z where r1: "flat_axis (1, 0, 0) (setFromEuler_XYZ (pi / 3) (pi / 3) 0) = (r1x, r1y, r1z)"
    by (cases "flat_axis (1, 0, 0) (setFromEuler_XYZ (pi / 3) (pi / 3) 0)") auto
  have a: "moveVec 0.016 (tilted_game 0) = (- (sqrt 3 / 2) * 0.096, 0, - (1 / 2) * 0.096)"
    by (simp add: moveVec_def Let_def q m f0 r0 addScaledVector_def SPEED_def)
  have b: "moveVec 0.016 (tilted_game (pi / 3)) = (- (2 * sqrt 3 / sqrt 13) * 0.096, 0, - (1 / sqrt 13) * 0.096)"
    by (simp add: moveVec_def Let_def q m f1 r1 addScaledVector_def SPEED_def)
  have "sqrt 13 \<noteq> 2"
  proof
    assume "sqrt 13 = 2"
    then have "(sqrt 13)\<^sup>2 = 2\<^sup>2" by simp
    then show False by simp
  qed
  then have "- (1 / 2) * 0.096 \<noteq> - (1 / sqrt 13) * (0.096 :: real)" by (simp add: field_simps)
  with a b show ?thesis by simp
qed

end
